(* ===== verification/Prelude.thy ===== *)
theory Prelude
  imports Main "HOL-Library.Word" "HOL-Library.Monad_Syntax"
begin

text \<open>
  Shared vocabulary of the development: the C integer types, control that does not come
  back (\<open>JD_ASSERT\<close>, \<open>JD_PANIC\<close>, \<open>ESP_ERROR_CHECK\<close>), byte memory, and the safety locale
  that every state machine of the firmware instantiates.

  A C function that may fail to return has an \<open>option\<close> result: \<open>None\<close> means that control
  does not come back to the caller (a failed assertion, a panic, an aborting
  \<open>ESP_ERROR_CHECK\<close>, a NULL dereference, or a loop that never ends). Error codes that the
  C code returns to its caller stay ordinary integers.
\<close>

unbundle bit_operations_syntax

named_theorems fw_defs "definitions unfolded to run a handler symbolically"
named_theorems frames "what an operation leaves alone"
named_theorems boot_defs "the states that witnesses start from, down to their fields"

section \<open>C types\<close>

type_synonym u8 = "8 word"
type_synonym u16 = "16 word"
type_synonym u32 = "32 word"
type_synonym u64 = "64 word"

text \<open>The chip the firmware is built for (\<open>CONFIG_IDF_TARGET_ESP32x\<close>).\<close>

datatype target = ESP32 | ESP32S2 | ESP32S3 | ESP32C3

section \<open>Control that does not come back\<close>

definition jd_assert :: "bool \<Rightarrow> unit option" where
  "jd_assert b = (if b then Some () else None)"

text \<open>\<open>CHK\<close> is \<open>ESP_ERROR_CHECK\<close> (jdesp.h): it aborts unless the code is \<open>ESP_OK\<close> (0).\<close>

definition chk :: "int \<Rightarrow> unit option" where
  "chk r = (if r = 0 then Some () else None)"

text \<open>Using a pointer: a NULL pointer does not come back.\<close>

definition deref :: "u32 \<Rightarrow> unit option" where
  "deref p = (if p = 0 then None else Some ())"

lemma bind_deref [simp]:
  "Option.bind (deref p) f = (if p = 0 then None else f ())"
  by (simp add: deref_def)

lemma jd_assert_simps [simp]:
  "jd_assert True = Some ()" "jd_assert False = None"
  by (simp_all add: jd_assert_def)

lemma jd_assert_eq_Some [simp]: "jd_assert b = Some u \<longleftrightarrow> b"
  by (simp add: jd_assert_def)

lemma bind_jd_assert [simp]:
  "Option.bind (jd_assert b) f = (if b then f () else None)"
  by (simp add: jd_assert_def)

lemma bind_chk [simp]:
  "Option.bind (chk r) f = (if r = 0 then f () else None)"
  by (simp add: chk_def)

lemma bind_eq_SomeE [elim!]:
  assumes "Option.bind x f = Some y"
  obtains z where "x = Some z" "f z = Some y"
  using assms by (cases x) auto

section \<open>What holds when control comes back\<close>

text \<open>\<open>returns m Q\<close>: if \<open>m\<close> comes back, its result satisfies \<open>Q\<close>. The rules walk through a function body
  and name its intermediate values instead of substituting them, so that a long body stays
  small; \<open>walk\<close> collects them.\<close>

named_theorems walk "rules that walk through the body of a function"

definition returns :: "'a option \<Rightarrow> ('a \<Rightarrow> bool) \<Rightarrow> bool" where
  "returns m Q \<longleftrightarrow> (\<forall>x. m = Some x \<longrightarrow> Q x)"

lemma returnsD: "returns m Q \<Longrightarrow> m = Some x \<Longrightarrow> Q x"
  by (simp add: returns_def)

lemma returnsI: "(\<And>x. m = Some x \<Longrightarrow> Q x) \<Longrightarrow> returns m Q"
  by (simp add: returns_def)

lemma returns_Some [walk]: "Q x \<Longrightarrow> returns (Some x) Q"
  by (simp add: returns_def)

lemma returns_None [walk]: "returns None Q"
  by (simp add: returns_def)

lemma returns_if [walk]: "(b \<Longrightarrow> returns x Q) \<Longrightarrow> (\<not> b \<Longrightarrow> returns y Q) \<Longrightarrow> returns (if b then x else y) Q"
  by simp

lemma returns_Let [walk]: "(\<And>x. x = v \<Longrightarrow> returns (f x) Q) \<Longrightarrow> returns (let x = v in f x) Q"
  by simp

lemma returns_prod [walk]:
  "(\<And>x y. x = fst p \<Longrightarrow> y = snd p \<Longrightarrow> returns (f x y) Q) \<Longrightarrow> returns (case p of (x, y) \<Rightarrow> f x y) Q"
  by (cases p) simp

lemma returns_prod_app [walk]:
  "(\<And>a b. a = fst x \<Longrightarrow> b = snd x \<Longrightarrow> returns (f a b y) Q) \<Longrightarrow> returns (case_prod f x y) Q"
  by (cases x) simp

lemma returns_weaken: "returns m P \<Longrightarrow> (\<And>x. P x \<Longrightarrow> Q x) \<Longrightarrow> returns m Q"
  by (simp add: returns_def)

lemma returns_bind [walk]: "returns m (\<lambda>x. returns (f x) Q) \<Longrightarrow> returns (Option.bind m f) Q"
  by (auto simp: returns_def)

lemma returns_chk [walk]: "(r = 0 \<Longrightarrow> Q ()) \<Longrightarrow> returns (chk r) Q"
  by (simp add: returns_def chk_def)

lemma returns_assert [walk]: "(b \<Longrightarrow> Q ()) \<Longrightarrow> returns (jd_assert b) Q"
  by (simp add: returns_def)

lemma returns_deref [walk]: "(p \<noteq> 0 \<Longrightarrow> Q ()) \<Longrightarrow> returns (deref p) Q"
  by (simp add: returns_def deref_def)

section \<open>Byte memory\<close>

type_synonym mem = "u32 \<Rightarrow> u8"

definition mem_read :: "mem \<Rightarrow> u32 \<Rightarrow> nat \<Rightarrow> u8 list" where
  "mem_read m p n = map (\<lambda>i. m (p + of_nat i)) [0..<n]"

definition mem_write :: "mem \<Rightarrow> u32 \<Rightarrow> u8 list \<Rightarrow> mem" where
  "mem_write m p bs =
     (\<lambda>a. let i = unat (a - p) in if i < length bs then bs ! i else m a)"

lemma length_mem_read [simp]: "length (mem_read m p n) = n"
  by (simp add: mem_read_def)

lemma mem_read_0 [simp]: "mem_read m p 0 = []"
  by (simp add: mem_read_def)

lemma nth_mem_read: "i < n \<Longrightarrow> mem_read m p n ! i = m (p + of_nat i)"
  by (simp add: mem_read_def)

lemma mem_read_split:
  assumes "k \<le> n"
  shows "mem_read m p n = mem_read m p k @ mem_read m (p + of_nat k) (n - k)"
proof (rule nth_equalityI)
  show "length (mem_read m p n) = length (mem_read m p k @ mem_read m (p + of_nat k) (n - k))"
    using assms by simp
next
  fix i assume "i < length (mem_read m p n)"
  then have i: "i < n" by simp
  have "p + (of_nat k + of_nat (i - k)) = p + of_nat i" if "\<not> i < k"
    using that by (simp add: of_nat_diff)
  then show "mem_read m p n ! i = (mem_read m p k @ mem_read m (p + of_nat k) (n - k)) ! i"
    using i assms by (auto simp: nth_append nth_mem_read add.assoc)
qed

lemma mem_write_Nil [simp]: "mem_write m p [] = m"
  by (simp add: mem_write_def)

lemma mem_write_outside: "length bs \<le> unat (a - p) \<Longrightarrow> mem_write m p bs a = m a"
  by (simp add: mem_write_def)

lemma mem_read_write:
  assumes "length bs \<le> 2 ^ 32"
  shows "mem_read (mem_write m p bs) p (length bs) = bs"
proof (rule nth_equalityI)
  fix i assume "i < length (mem_read (mem_write m p bs) p (length bs))"
  then have i: "i < length bs" by simp
  with assms have "unat (of_nat i :: u32) = i"
    by (simp add: unat_of_nat take_bit_eq_mod)
  with i show "mem_read (mem_write m p bs) p (length bs) ! i = bs ! i"
    by (simp add: nth_mem_read mem_write_def Let_def)
qed simp

lemma mem_write_append:
  assumes "length bs + length cs \<le> 2 ^ 32"
  shows "mem_write (mem_write m p bs) (p + of_nat (length bs)) cs = mem_write m p (bs @ cs)"
proof (cases "cs = []")
  case False
  then have short: "length bs < 2 ^ 32" using assms by (cases cs) auto
  then have len: "unat (of_nat (length bs) :: u32) = length bs"
    by (simp add: unat_of_nat take_bit_eq_mod)
  show ?thesis
  proof
    fix a :: u32
    let ?d = "a - p"
    have off: "a - (p + of_nat (length bs)) = ?d - of_nat (length bs)" by simp
    show "mem_write (mem_write m p bs) (p + of_nat (length bs)) cs a = mem_write m p (bs @ cs) a"
    proof (cases "unat ?d < length bs")
      case True
      have "unat (?d - of_nat (length bs)) = 2 ^ 32 + unat ?d - length bs"
        using True len unat_sub_if_size [of ?d "of_nat (length bs)"] by (simp add: word_size)
      then have "\<not> unat (?d - of_nat (length bs)) < length cs" using assms by simp
      with True show ?thesis unfolding mem_write_def off Let_def by (simp add: nth_append)
    next
      case False
      then have "(of_nat (length bs) :: u32) \<le> ?d" using len by (simp add: word_le_nat_alt)
      then have "unat (?d - of_nat (length bs)) = unat ?d - length bs" using len by (simp add: unat_sub)
      with False show ?thesis unfolding mem_write_def off Let_def by (auto simp: nth_append)
    qed
  qed
qed simp

section \<open>Word arithmetic\<close>

lemma unat_word_of_int_Suc:
  assumes "n + 1 < 2 ^ 32"
  shows "unat (word_of_int (int n + 1) :: u32) = n + 1"
proof -
  have "(word_of_int (int n + 1) :: u32) = word_of_nat (n + 1)" by simp
  moreover have "unat (word_of_nat (n + 1) :: u32) = n + 1"
    using assms by (simp only: unat_of_nat) (simp add: take_bit_eq_mod)
  ultimately show ?thesis by (simp only:)
qed

section \<open>State machines\<close>

text \<open>
  The contract between a component and its invariant: it holds at the start and every
  step keeps it. The lemmas are proved once here, for every reachable state and for every
  finite run.
\<close>

locale safety =
  fixes init :: "'s \<Rightarrow> bool"
    and step :: "'s \<Rightarrow> 's \<Rightarrow> bool"
    and inv :: "'s \<Rightarrow> bool"
  assumes inv_init: "init s \<Longrightarrow> inv s"
    and inv_step: "step s t \<Longrightarrow> inv s \<Longrightarrow> inv t"
begin

lemma inv_steps: "step\<^sup>*\<^sup>* s t \<Longrightarrow> inv s \<Longrightarrow> inv t"
  by (induction rule: rtranclp_induct) (auto intro: inv_step)

lemma inv_reachable: "init s \<Longrightarrow> step\<^sup>*\<^sup>* s t \<Longrightarrow> inv t"
  by (blast intro: inv_init inv_steps)

end

end
