(* ===== verification/Externals.thy ===== *)
theory Externals
  imports Prelude
begin

text \<open>
  The boundary of the repository. Everything under src/main that is not the repository's
  own code (FreeRTOS, ESP-IDF drivers and registers, lwIP, mbedTLS, the jacdac-c runtime)
  is called through this theory and has no definition here: a call is a constructor of
  \<open>call\<close>, what it hands back is an \<open>ans\<close>, and the environment that answers is a
  parameter \<open>env\<close> of every definition, an arbitrary function of the call and of everything
  that happened before. Each executed call is recorded, newest first, in the field \<open>io\<close> of
  the state, so that properties can speak of the order of effects. Documented behaviour
  that a property relies on is a named predicate on \<open>env\<close> and a hypothesis of that property.

  Diagnostics (\<open>DMESG\<close>, \<open>LOG\<close>, \<open>ESP_LOGx\<close>) have no effect on the modelled state and are
  left out everywhere.
\<close>

section \<open>Function pointers, queue items, interrupt causes\<close>

text \<open>A function pointer: one constructor per function of src whose address is queued as a
  job, and \<open>Fn_ext\<close> for a function outside the repository.\<close>

datatype (plugins only: code size) fn =
    Fn_null
  | Fn_fill_queue
  | Fn_jd_spi_done_cb_outside_isr
  | Fn_led_strip_done_outside_isr
  | Fn_call_fn
  | Fn_ext nat

datatype (plugins only: code size) fn_arg = Arg_null | Arg_fn fn | Arg_ptr u32

text \<open>The events of a connection (\<open>JD_CONN_EV_*\<close> of jacdac-c).\<close>

datatype (plugins only: code size) conn_ev = Ev_open | Ev_close | Ev_error | Ev_message

text \<open>What the FreeRTOS queues of the firmware carry: \<open>qitem_t\<close> (worker.c), \<open>sock_cmd_t\<close> and
  \<open>sock_event_t\<close> (sock.c). The commands own the heap block whose address comes first.\<close>

datatype (plugins only: code size) q_item =
    Job fn fn_arg
  | Cmd_open u32 string int
  | Cmd_write u32 "u8 list"
  | Cmd_other nat
  | Sock_event conn_ev string

type_synonym queue = u32

text \<open>The value jacdac-c gives to an absent pin (led.c compares it with a byte).\<close>

definition NO_PIN :: u8 where
  "NO_PIN = 0xff"

text \<open>The UART interrupt causes the firmware names; a status or enable register is the set
  of the bits that are one.\<close>

datatype (plugins only: code size) uart_int =
    BRK_DET | TX_BRK_DONE | TXFIFO_EMPTY | RXFIFO_TOUT | FRM_ERR | RXFIFO_FULL

datatype (plugins only: code size) timer_id = T_timer | T_timer0 | T_worker | T_main_loop

section \<open>Calls that leave the repository\<close>

datatype (plugins only: code size) rtos_call =
    QCreate nat
  | QSend queue q_item nat
  | QSendFromISR queue q_item
  | QReceive queue nat
  | TaskCreate string nat
  | TaskDelay nat
  | CurrentTask
  | EnterCriticalISR
  | ExitCriticalISR
  | Calloc nat
  | Free_mem u32
  | Abort_check
  | Call_fn fn fn_arg

datatype (plugins only: code size) sys_call =
    MacDefault
  | HeapFreeSize
  | GetTime
  | SleepTimerWakeup nat
  | DeepSleepStart
  | RestartNoos
  | ResetReasonHint nat
  | FillRandom nat
  | FlashMmap u32 u32
  | PartitionFind nat nat
  | FlashEraseRegion u32 u32
  | FlashWrite u32 "u8 list"
  | TimerCreate timer_id string
  | TimerStop timer_id
  | TimerStartOnce timer_id int
  | TimerStartPeriodic timer_id nat
  | DcfgPin string
  | DcfgI32 string int
  | EventLoopCreate
  | EventPost
  | EventHandlerRegister string
  | FlushStdout
  | RedirectStdout nat
  | WdtInit nat bool
  | WdtAdd
  | WdtReset
  | WdtDelete
  | Esp_random
  | Esp_fill_random nat
  | RxHasFrame
  | DmesgRead nat u32
  | LogTxfifoLen
  | LogWrite "u8 list"
  | RealUartWrite "u8 list"
  | RealPanicHandler
  | PanicPrintStr string
  | PanicPrintChar char
  | PanicPrintDec int

datatype (plugins only: code size) uart_call =
    UartHw nat
  | RxfifoCnt
  | TxfifoCnt
  | IntSt
  | IntEna
  | IntRawBrkDet
  | WriteTxfifo "u8 list"
  | ReadRxfifo nat
  | RxfifoRst
  | TxBreak nat
  | TxdBrk nat
  | IntClr "uart_int set"
  | IntClrAll
  | SetIntEna "uart_int set"
  | IntEnaBit uart_int bool
  | TxfifoEmptyThrhd nat
  | UartParamConfig nat
  | UartIntrConfig nat
  | IntrAlloc nat
  | ModuleEnable nat

text \<open>The modes of a pin, and the signals that can be routed to one: plain GPIO, or channel \<open>n\<close> of
  the LED PWM peripheral.\<close>

datatype (plugins only: code size) pin_mode = Mode_output | Mode_input | Mode_disable

datatype (plugins only: code size) out_signal = Out_gpio | Out_ledc nat

datatype (plugins only: code size) gpio_call =
    GpioConfigInput u8
  | GpioGetLevel u8
  | GpioSetLevel u8 nat
  | GpioInRead
  | GpioEnableW1ts u32
  | GpioEnableRead
  | GpioOutputDisable u8
  | GpioIntTypeDisable u8
  | PinFuncSelectGpio u8
  | PinPullUpBit u8
  | PinInputEnable u8
  | MatrixIn u8
  | MatrixInHigh
  | MatrixOut u8
  | PinLevel int int
  | PinGetLevel int
  | PinIomux int
  | PinDirection int pin_mode
  | PinPullup int bool
  | PinPulldown int bool
  | PinConnectOut int out_signal

text \<open>An access point as ESP-IDF reports it (the fields of \<open>wifi_ap_record_t\<close> that are read), and as
  it is reported to jacdac-c (\<open>jd_wifi_results_t\<close>, with the flags as a set of names).\<close>

datatype (plugins only: code size) wifi_second = Second_none | Second_above | Second_below

datatype (plugins only: code size) wifi_auth = Auth_open | Auth_wpa2_enterprise | Auth_other nat

record wifi_ap =
  ap_11b :: bool
  ap_11g :: bool
  ap_11n :: bool
  ap_lr :: bool
  ap_wps :: bool
  ap_second :: wifi_second
  ap_authmode :: wifi_auth
  ap_primary :: u8
  ap_rssi :: int
  ap_bssid :: "u8 list"
  ap_ssid :: "u8 list"

datatype (plugins only: code size) ap_flag =
    IEEE_802_11B | IEEE_802_11G | IEEE_802_11N | IEEE_802_LONG_RANGE | WPS
  | HAS_SECONDARY_CHANNEL_ABOVE | HAS_SECONDARY_CHANNEL_BELOW | HAS_PASSWORD

record jd_wifi_result =
  res_flags :: "ap_flag set"
  res_reserved :: u32
  res_channel :: u8
  res_rssi :: int
  res_bssid :: "u8 list"
  res_ssid :: "u8 list"

datatype (plugins only: code size) jd_call =
    Jd_rx_completed
  | Jd_tx_completed
  | Jd_line_falling
  | Jd_tcpsock_on_event conn_ev string "u8 list"
  | Jd_init
  | Jd_process_everything
  | Jd_seed_random nat
  | Jd_enable_serial
  | Jd_settings_init
  | Jd_rx_init
  | Jd_tx_init
  | Jd_lstore_init
  | Jd_wifi_scan_done "jd_wifi_result list option" nat
  | Jd_wifi_got_ip u32
  | Jd_wifi_lost_ip
  | Jd_services_full_init
  | Jd_i2c_init
  | Jd_scan_all
  | Jd_lstore_append "u8 list"
  | Jd_dmesg_write "u8 list"
  | Jd_lstore_panic_flush
  | Jd_lstore_panic_char u8
  | Jd_usb_panic_start
  | Jd_usb_panic_char u8

text \<open>The mbedTLS objects of a connection.\<close>

datatype (plugins only: code size) tls_obj = Ssl | Ctr_drbg | Ssl_config | Entropy

datatype (plugins only: code size) net_call =
    PrintPort int
  | Strdup string
  | GetAddrInfo string "u8 list"
  | FreeAddrInfo
  | Socket nat
  | Connect int nat
  | CloseFd int
  | WriteFd int "u8 list"
  | RecvFd int nat
  | TlsInit tls_obj
  | TlsFree tls_obj
  | SslSetHostname string
  | SslConfigDefaults
  | SslConfAuthmode
  | CrtBundleAttach
  | CtrDrbgSeed
  | SslConfRng
  | SslSetup
  | SslSetBio int
  | SslHandshake
  | SslSetNonblock
  | SslWrite "u8 list"
  | SslRead nat

datatype (plugins only: code size) md_call =
    Base64Decode string nat
  | MdInit
  | MdSetup
  | HmacStarts "u8 list"
  | HmacUpdate string
  | HmacFinish
  | MdFree
  | Base64Encode "u8 list" nat

text \<open>The bus drivers of ESP-IDF: SPI master and RMT (remote control transceiver), the latter with
  its encoders. A transaction of the SPI driver is a length in bits, two buffers and a user word.\<close>

record spi_trans =
  t_length :: u32
  t_tx :: u32
  t_rx :: u32
  t_user :: fn

text \<open>A symbol of the RMT peripheral: two levels with their durations in ticks.\<close>

record rmt_symbol =
  level0 :: bool
  duration0 :: nat
  level1 :: bool
  duration1 :: nat

datatype (plugins only: code size) drv_call =
    SpiBusRemoveDevice u32
  | SpiBusFree
  | SpiBusInitialize int int int nat
  | SpiBusAddDevice nat nat
  | SpiPollingTransmit u32 spi_trans
  | SpiQueueTrans u32 spi_trans
  | SpiGetTransResult u32
  | RmtNewTxChannel u8 nat nat nat
  | RmtEnable u32
  | RmtDisable u32
  | RmtDelChannel u32
  | RmtRegisterDone u32
  | RmtTransmit u32 u32 "u8 list"
  | RmtNewBytesEncoder rmt_symbol rmt_symbol bool
  | RmtNewCopyEncoder
  | RmtDelEncoder u32
  | RmtEncoderReset u32
  | RmtEncodeBytes u32 u32 "u8 list"
  | RmtEncodeCopy u32 u32 rmt_symbol

text \<open>The USB side: TinyUSB on ESP32-S2 and S3, the serial JTAG unit on ESP32-C3, a UART on ESP32, and
  the two ends of the byte stream in jacdac-c.\<close>

datatype (plugins only: code size) jtag_int = SERIAL_IN_EMPTY | SERIAL_OUT_RECV_PKT

datatype (plugins only: code size) usb_call =
    UsbPull nat
  | UsbPush "u8 list"
  | CdcWriteAvailable
  | CdcWriteQueue "u8 list"
  | CdcWriteFlush
  | CdcRead nat
  | TinyusbInstall string
  | CdcAcmInit nat
  | JtagTxWritable
  | JtagWriteTxfifo "u8 list"
  | JtagTxFlush
  | JtagClr "jtag_int set"
  | JtagEna "jtag_int set"
  | JtagDisable "jtag_int set"
  | JtagSt
  | JtagReadRxfifo nat
  | JtagIntrAlloc
  | BbpllEnUsb
  | UsbUartHw nat
  | UsbTxfifoCnt
  | UsbRxfifoCnt
  | UsbWriteTxfifo "u8 list"
  | UsbReadRxfifo nat
  | UsbClrTxEmpty
  | UsbThrhd nat
  | UsbEnaTxEmpty bool
  | UsbIntSt
  | UsbIntClr nat
  | UsbModuleEnable nat
  | UsbParamConfig nat
  | UsbIntrAlloc nat
  | UsbSetPin nat int int
  | UsbIntrConfig nat

datatype (plugins only: code size) wifi_call =
    WifiScanStart
  | WifiSetModeSta
  | WifiSetConfig "u8 list" "u8 list"
  | WifiConnect
  | WifiScanApNum
  | WifiScanRecords nat
  | NvsFlashInit
  | NvsFlashErase
  | NetifInit
  | WifiInit
  | NetifNew
  | NetifAttach
  | WifiStaHandlers
  | WifiHandlerRegister string
  | WifiSetStorageRam
  | WifiStart
  | WifiDisconnect
  | WifiApInfo

text \<open>I2C, the converter, and the SD card.\<close>

datatype (plugins only: code size) periph_call =
    I2cParamConfig int u8 u8 int
  | I2cSetTimeout int
  | I2cDriverInstall int
  | I2cLinkCreate
  | I2cStart
  | I2cWriteByte u8
  | I2cRead nat
  | I2cWrite "u8 list"
  | I2cStop
  | I2cCmdBegin int nat
  | I2cLinkDelete
  | AdcNewUnit
  | AdcConfigChannel u32 int
  | AdcRead u32 int
  | TempInstall
  | TempEnable u32
  | TempGet u32
  | TempDisable u32
  | BbMosi bool
  | BbSck bool
  | BbMiso
  | SdSpiBusInitialize u8 u8 u8
  | SdGetDrive
  | SdHostInit
  | SdHostInitDevice u8
  | SdCardInit u32
  | SdRegister nat u32

text \<open>The LED PWM peripheral: timers and channels are numbered.\<close>

datatype (plugins only: code size) ledc_call =
    LedcModuleEnable
  | LedcSlowClk
  | LedcClockDivider nat u32
  | LedcClockSource nat
  | LedcDutyResolution nat nat
  | LedcTimerUpdate nat
  | LedcTimerRst nat
  | LedcDuty nat u32
  | LedcDutyDirection nat nat
  | LedcDutyNum nat nat
  | LedcDutyCycle nat nat
  | LedcDutyScale nat nat
  | LedcChannelUpdate nat
  | LedcSigOut nat bool
  | LedcDutyStart nat bool
  | LedcBind nat nat

datatype (plugins only: code size) call =
    Rtos rtos_call
  | Md md_call
  | Sys sys_call
  | Uart uart_call
  | Gpio gpio_call
  | Jd jd_call
  | Net net_call
  | Drv drv_call
  | Ledc ledc_call
  | Usb usb_call
  | Wifi wifi_call
  | Periph periph_call

text \<open>What a call hands back: a return code, a register value or count, bytes stored through
  an out pointer, a set of flags, a received queue item, a pointer (0 is NULL). A call uses
  the fields its C signature has.\<close>

record ans =
  a_ret :: int
  a_val :: nat
  a_bytes :: "u8 list"
  a_flags :: "uart_int set"
  a_item :: "q_item option"
  a_ptr :: u32
  a_list :: "nat list"
  a_aps :: "wifi_ap list"
  a_jtag :: "jtag_int set"

definition ans0 :: ans where
  "ans0 = \<lparr>a_ret = 0, a_val = 0, a_bytes = [], a_flags = {}, a_item = None, a_ptr = 0, a_list = [],
     a_aps = [], a_jtag = {}\<rparr>"

type_synonym io_log = "(call \<times> ans) list"
type_synonym env = "call \<Rightarrow> io_log \<Rightarrow> ans"

record world =
  io :: io_log

definition query :: "env \<Rightarrow> call \<Rightarrow> 'z world_scheme \<Rightarrow> ans" where
  "query env c s = env c (io s)"

definition emit :: "env \<Rightarrow> call \<Rightarrow> 'z world_scheme \<Rightarrow> 'z world_scheme" where
  "emit env c s = s\<lparr>io := (c, env c (io s)) # io s\<rparr>"

text \<open>A call whose result the code uses.\<close>

definition ext :: "env \<Rightarrow> call \<Rightarrow> 'z world_scheme \<Rightarrow> ans \<times> 'z world_scheme" where
  "ext env c s = (query env c s, emit env c s)"

text \<open>A sequence of calls whose results the code ignores.\<close>

definition emits :: "env \<Rightarrow> call list \<Rightarrow> 'z world_scheme \<Rightarrow> 'z world_scheme" where
  "emits env cs s = fold (emit env) cs s"

lemma ext_simp [simp]: "ext env c s = (query env c s, emit env c s)"
  by (simp add: ext_def)

lemma emits_Nil [simp]: "emits env [] s = s"
  and emits_Cons: "emits env (c # cs) s = emits env cs (emit env c s)"
  by (simp_all add: emits_def)

lemma io_emit: "io (emit env c s) = (c, env c (io s)) # io s"
  by (simp add: emit_def)

section \<open>FreeRTOS queues\<close>

definition pdPASS :: int where
  "pdPASS = 1"

text \<open>The items a queue holds, read off the history: accepted sends append, successful
  receives take the first.\<close>

fun q_items :: "queue \<Rightarrow> io_log \<Rightarrow> q_item list" where
  "q_items q [] = []"
| "q_items q ((Rtos (QSend q' x t), a) # l) =
     (if q' = q \<and> a_ret a = pdPASS then q_items q l @ [x] else q_items q l)"
| "q_items q ((Rtos (QSendFromISR q' x), a) # l) =
     (if q' = q \<and> a_ret a = pdPASS then q_items q l @ [x] else q_items q l)"
| "q_items q ((Rtos (QReceive q' t), a) # l) =
     (if q' = q \<and> a_item a \<noteq> None then tl (q_items q l) else q_items q l)"
| "q_items q (_ # l) = q_items q l"

text \<open>The documented behaviour of a FreeRTOS queue of length \<open>cap\<close>: a send that does not wait
  is accepted exactly when there is room, a receive returns the oldest item, and one that
  does not wait returns nothing exactly when the queue is empty.\<close>

definition rtos_queue :: "env \<Rightarrow> queue \<Rightarrow> nat \<Rightarrow> bool" where
  "rtos_queue env q cap \<longleftrightarrow>
     (\<forall>l x. a_ret (env (Rtos (QSendFromISR q x)) l) = pdPASS \<longleftrightarrow> length (q_items q l) < cap) \<and>
     (\<forall>l x. a_ret (env (Rtos (QSend q x 0)) l) = pdPASS \<longleftrightarrow> length (q_items q l) < cap) \<and>
     (\<forall>l x t. length (q_items q l) < cap \<longrightarrow> a_ret (env (Rtos (QSend q x t)) l) = pdPASS) \<and>
     (\<forall>l t x xs. q_items q l = x # xs \<longrightarrow> a_item (env (Rtos (QReceive q t)) l) = Some x) \<and>
     (\<forall>l. q_items q l = [] \<longrightarrow> a_item (env (Rtos (QReceive q 0)) l) = None)"

lemma rtos_queue_receive:
  assumes "rtos_queue env q cap"
  shows "a_item (env (Rtos (QReceive q 0)) l) =
    (case q_items q l of [] \<Rightarrow> None | x # _ \<Rightarrow> Some x)"
  using assms by (cases "q_items q l") (auto simp: rtos_queue_def)

lemma rtos_queue_send_ISR:
  assumes "rtos_queue env q cap"
  shows "a_ret (env (Rtos (QSendFromISR q x)) l) = pdPASS \<longleftrightarrow> length (q_items q l) < cap"
  using assms by (simp add: rtos_queue_def)

text \<open>A concrete environment with this behaviour: every other call answers with zeros.\<close>

fun queue_env :: "nat \<Rightarrow> env" where
  "queue_env cap (Rtos (QSend q x t)) l =
     ans0\<lparr>a_ret := (if length (q_items q l) < cap then pdPASS else 0)\<rparr>"
| "queue_env cap (Rtos (QSendFromISR q x)) l =
     ans0\<lparr>a_ret := (if length (q_items q l) < cap then pdPASS else 0)\<rparr>"
| "queue_env cap (Rtos (QReceive q t)) l =
     ans0\<lparr>a_item := (case q_items q l of [] \<Rightarrow> None | x # _ \<Rightarrow> Some x)\<rparr>"
| "queue_env cap _ l = ans0"

lemma rtos_queue_queue_env [simp]: "rtos_queue (queue_env cap) q cap"
  by (auto simp: rtos_queue_def pdPASS_def ans0_def)

end
