(* ===== verification/Platform.thy ===== *)
theory Platform
  imports Externals
begin

text \<open>
  main/platform.c: the device identifier, the allocator, the busy wait, the interrupt lock
  and the ways out of the running program.
\<close>

text \<open>The statics of platform.c: \<open>int_level\<close>, \<open>addr\<close> of \<open>hw_device_id\<close> and \<open>result\<close> of
  \<open>dcfg_base_addr\<close>.\<close>

record platform = world +
  int_level :: int
  id_addr :: u64
  dcfg_result :: u32

section \<open>Device identifier\<close>

definition mac_to_id :: "u8 list \<Rightarrow> u64" where
  "mac_to_id mac =
     push_bit 56 0xff OR push_bit 48 (ucast (mac ! 5)) OR push_bit 40 (ucast (mac ! 4)) OR
     push_bit 32 (ucast (mac ! 3)) OR push_bit 24 (ucast (mac ! 2)) OR
     push_bit 16 (ucast (mac ! 1)) OR push_bit 8 (ucast (mac ! 0)) OR push_bit 0 0xfe"

definition hw_device_id :: "env \<Rightarrow> 'z platform_scheme \<Rightarrow> u64 \<times> 'z platform_scheme" where
  "hw_device_id env s =
     (if id_addr s = 0 then
        let (a, s1) = ext env (Sys MacDefault) s;
            s2 = s1\<lparr>id_addr := mac_to_id (a_bytes a)\<rparr>
        in (id_addr s2, s2)
      else (id_addr s, s))"

section \<open>Heap\<close>

definition jd_alloc :: "env \<Rightarrow> u32 \<Rightarrow> 'z platform_scheme \<Rightarrow> (u32 \<times> 'z platform_scheme) option" where
  "jd_alloc env sz s =
     (let (r, s1) = ext env (Rtos (Calloc (unat sz))) s
      in if a_ptr r = 0 then None else Some (a_ptr r, s1))"

definition jd_free :: "env \<Rightarrow> u32 \<Rightarrow> 'z platform_scheme \<Rightarrow> 'z platform_scheme" where
  "jd_free env ptr s = emit env (Rtos (Free_mem ptr)) s"

definition jd_alloc_emergency_area ::
    "env \<Rightarrow> u32 \<Rightarrow> 'z platform_scheme \<Rightarrow> u32 \<times> 'z platform_scheme" where
  "jd_alloc_emergency_area env sz s =
     (let (r, s1) = ext env (Rtos (Calloc (unat sz))) s in (a_ptr r, s1))"

section \<open>Leaving the program\<close>

definition target_reset :: "env \<Rightarrow> 'z platform_scheme \<Rightarrow> 'z platform_scheme" where
  "target_reset env s =
     emits env [Sys (SleepTimerWakeup 20000), Sys DeepSleepStart, Sys RestartNoos] s"

definition target_standby :: "env \<Rightarrow> u32 \<Rightarrow> 'z platform_scheme \<Rightarrow> 'z platform_scheme" where
  "target_standby env duration_ms s =
     emits env [Sys (SleepTimerWakeup (unat duration_ms * 1000)), Sys DeepSleepStart] s"

definition reboot_to_uf2 :: "target \<Rightarrow> env \<Rightarrow> 'z platform_scheme \<Rightarrow> 'z platform_scheme" where
  "reboot_to_uf2 tgt env s =
     emits env ((if tgt = ESP32S2 \<or> tgt = ESP32S3 then [Sys (ResetReasonHint 0x11F2)] else [])
                @ [Sys RestartNoos]) s"

definition hw_panic :: "'z platform_scheme \<Rightarrow> 'z platform_scheme option" where
  "hw_panic s = None"

text \<open>The buffer that is filled is the first component.\<close>

definition jd_crypto_get_random :: "env \<Rightarrow> nat \<Rightarrow> 'z platform_scheme \<Rightarrow> u8 list \<times> 'z platform_scheme" where
  "jd_crypto_get_random env n s =
     (let (r, s1) = ext env (Sys (Esp_fill_random n)) s in (take n (a_bytes r), s1))"

section \<open>Busy wait\<close>

partial_function (option) wait_until ::
    "env \<Rightarrow> nat \<Rightarrow> 'z platform_scheme \<Rightarrow> 'z platform_scheme option" where
  "wait_until env later s =
     (let (a, s1) = ext env (Sys GetTime) s
      in if a_val a < later then wait_until env later s1 else Some s1)"

definition target_wait_us :: "env \<Rightarrow> nat \<Rightarrow> 'z platform_scheme \<Rightarrow> 'z platform_scheme option" where
  "target_wait_us env us s =
     (let (a, s1) = ext env (Sys GetTime) s; later = a_val a + us
      in wait_until env later s1)"

section \<open>Interrupt lock\<close>

definition target_disable_irq :: "env \<Rightarrow> 'z platform_scheme \<Rightarrow> 'z platform_scheme" where
  "target_disable_irq env s =
     (let s1 = emit env (Rtos EnterCriticalISR) s in s1\<lparr>int_level := int_level s1 + 1\<rparr>)"

definition target_enable_irq :: "env \<Rightarrow> 'z platform_scheme \<Rightarrow> 'z platform_scheme" where
  "target_enable_irq env s =
     (let s1 = s\<lparr>int_level := int_level s - 1\<rparr> in emit env (Rtos ExitCriticalISR) s1)"

section \<open>Configuration block\<close>

definition dcfg_base_addr :: "env \<Rightarrow> 'z platform_scheme \<Rightarrow> (u32 \<times> 'z platform_scheme) option" where
  "dcfg_base_addr env s =
     (if dcfg_result s = 0 then do {
        let (a, s1) = ext env (Sys (FlashMmap 0 0x10000)) s;
        chk (a_ret a);
        let s2 = s1\<lparr>dcfg_result := a_ptr a\<rparr>;
        let s3 = s2\<lparr>dcfg_result := dcfg_result s2 + 0x9000\<rparr>;
        Some (dcfg_result s3, s3)
      } else Some (dcfg_result s, s))"

section \<open>Frames\<close>

lemma platform_emit [simp]:
  "int_level (emit env c s) = int_level s"
  "id_addr (emit env c s) = id_addr s"
  "dcfg_result (emit env c s) = dcfg_result s"
  by (simp_all add: emit_def)

lemma irq_level [simp]:
  "int_level (target_disable_irq env s) = int_level s + 1"
  "int_level (target_enable_irq env s) = int_level s - 1"
  by (simp_all add: target_disable_irq_def target_enable_irq_def Let_def)

section \<open>The clock\<close>

text \<open>\<open>esp_timer_get_time\<close> counts microseconds since boot: asked often enough, it passes every
  bound. \<open>polled env n s\<close> is the state after asking \<open>n\<close> times.\<close>

primrec time_polls :: "env \<Rightarrow> nat \<Rightarrow> io_log \<Rightarrow> io_log" where
  "time_polls env 0 l = l"
| "time_polls env (Suc n) l = time_polls env n ((Sys GetTime, env (Sys GetTime) l) # l)"

definition polled :: "env \<Rightarrow> nat \<Rightarrow> 'z world_scheme \<Rightarrow> 'z world_scheme" where
  "polled env n s = s\<lparr>io := time_polls env n (io s)\<rparr>"

definition clock_passes :: "env \<Rightarrow> bool" where
  "clock_passes env \<longleftrightarrow> (\<forall>l T. \<exists>n. T \<le> a_val (env (Sys GetTime) (time_polls env n l)))"

lemma polled_0 [simp]: "polled env 0 s = s"
  by (simp add: polled_def)

lemma polled_Suc: "polled env (Suc n) s = polled env n (emit env (Sys GetTime) s)"
  by (simp add: polled_def emit_def)

lemma clock_passes_at:
  assumes "clock_passes env"
  shows "\<exists>n. T \<le> a_val (query env (Sys GetTime) (polled env n s))"
  using assms by (auto simp: clock_passes_def query_def polled_def)

lemma wait_until_first:
  assumes "T \<le> a_val (query env (Sys GetTime) (polled env n s))"
    and "\<And>k. k < n \<Longrightarrow> a_val (query env (Sys GetTime) (polled env k s)) < T"
  shows "wait_until env T s = Some (polled env (Suc n) s)"
  using assms
proof (induction n arbitrary: s)
  case 0
  then show ?case by (subst wait_until.simps) (simp add: polled_Suc)
next
  case (Suc n)
  from Suc.prems(2) [of 0] have "a_val (query env (Sys GetTime) s) < T" by simp
  moreover have "wait_until env T (emit env (Sys GetTime) s)
      = Some (polled env (Suc n) (emit env (Sys GetTime) s))"
  proof (rule Suc.IH)
    show "T \<le> a_val (query env (Sys GetTime) (polled env n (emit env (Sys GetTime) s)))"
      using Suc.prems(1) by (simp add: polled_Suc)
    show "a_val (query env (Sys GetTime) (polled env k (emit env (Sys GetTime) s))) < T" if "k < n" for k
      using Suc.prems(2) [of "Suc k"] that by (simp add: polled_Suc)
  qed
  ultimately show ?case
    by (subst wait_until.simps) (simp add: polled_Suc [of env "Suc n"])
qed

lemma wait_until_returns:
  assumes "clock_passes env"
  shows "\<exists>n. wait_until env T s = Some (polled env (Suc n) s) \<and>
    T \<le> a_val (query env (Sys GetTime) (polled env n s))"
proof -
  let ?P = "\<lambda>n. T \<le> a_val (query env (Sys GetTime) (polled env n s))"
  have ex: "\<exists>n. ?P n" by (rule clock_passes_at [OF assms])
  let ?n = "LEAST n. ?P n"
  from ex have "?P ?n" by (rule LeastI_ex)
  moreover have "a_val (query env (Sys GetTime) (polled env k s)) < T" if "k < ?n" for k
    using not_less_Least [OF that] by simp
  ultimately show ?thesis using wait_until_first by blast
qed

lemma wait_until_result:
  assumes "wait_until env T s = Some s'"
  shows "\<exists>n. s' = polled env (Suc n) s \<and> T \<le> a_val (query env (Sys GetTime) (polled env n s))"
proof (rule wait_until.raw_induct
    [where P = "\<lambda>env T s s'. \<exists>n. s' = polled env (Suc n) s \<and>
      T \<le> a_val (query env (Sys GetTime) (polled env n s))", OF _ assms])
  fix f env T and s s' :: "'a platform_scheme"
  assume IH: "\<And>env T s s'. f env T s = Some s' \<Longrightarrow>
      \<exists>n. s' = polled env (Suc n) s \<and> T \<le> a_val (query env (Sys GetTime) (polled env n s))"
    and eq: "(let (a, s1) = ext env (Sys GetTime) s
      in if a_val a < T then f env T s1 else Some s1) = Some s'"
  show "\<exists>n. s' = polled env (Suc n) s \<and> T \<le> a_val (query env (Sys GetTime) (polled env n s))"
  proof (cases "a_val (query env (Sys GetTime) s) < T")
    case True
    with eq have "f env T (emit env (Sys GetTime) s) = Some s'" by simp
    from IH [OF this] show ?thesis by (metis polled_Suc)
  next
    case False
    with eq have "s' = polled env (Suc 0) s" by (simp add: polled_Suc)
    with False show ?thesis by (intro exI [of _ 0]) simp
  qed
qed

section \<open>Properties\<close>

text \<open>Byte \<open>i\<close> of a 64-bit identifier, the least significant one being byte 0.\<close>

definition byte_at :: "u64 \<Rightarrow> nat \<Rightarrow> u8" where
  "byte_at w i = ucast (drop_bit (8 * i) w)"

lemma byte_of_shifted:
  fixes x :: u8
  assumes that: "n < 8" "k < 8" "i < 8"
  shows "bit (push_bit (8 * k) (ucast x :: u64)) (8 * i + n) \<longleftrightarrow> i = k \<and> bit x n"
proof -
  have len: "bit x m \<Longrightarrow> m < 8" for m using bit_imp_le_length [of x m] by simp
  have lt: "8 * i + n < 64" "n < 64" using that by simp_all
  show ?thesis
  proof (cases "i = k")
    case True
    with lt show ?thesis by (simp add: bit_simps)
  next
    case False
    have "\<not> (8 * k \<le> 8 * i + n \<and> bit x (8 * i + n - 8 * k))"
    proof
      assume a: "8 * k \<le> 8 * i + n \<and> bit x (8 * i + n - 8 * k)"
      then have "8 * i + n - 8 * k < 8" using len by blast
      with a that False show False by arith
    qed
    with False show ?thesis by (auto simp: bit_simps)
  qed
qed

lemma mac_to_id_pushes:
  "mac_to_id mac = push_bit (8*7) (ucast (0xff::u8)) OR push_bit (8*6) (ucast (mac ! 5)) OR
    push_bit (8*5) (ucast (mac ! 4)) OR push_bit (8*4) (ucast (mac ! 3)) OR push_bit (8*3) (ucast (mac ! 2)) OR
    push_bit (8*2) (ucast (mac ! 1)) OR push_bit (8*1) (ucast (mac ! 0)) OR push_bit (8*0) (ucast (0xfe::u8))"
  by (simp add: mac_to_id_def)

lemma bit_mac_to_id:
  assumes n: "n < 8" and i: "i < 8"
  shows "bit (mac_to_id mac) (8 * i + n) \<longleftrightarrow>
    bit ((0xfe # map ((!) mac) [0..<6] @ [0xff]) ! i) n"
proof -
  note b = byte_of_shifted [OF n _ i]
  have "bit (mac_to_id mac) (8 * i + n) \<longleftrightarrow>
     (i = 7 \<and> bit (0xff :: u8) n) \<or> (i = 6 \<and> bit (mac ! 5) n) \<or> (i = 5 \<and> bit (mac ! 4) n) \<or>
     (i = 4 \<and> bit (mac ! 3) n) \<or> (i = 3 \<and> bit (mac ! 2) n) \<or> (i = 2 \<and> bit (mac ! 1) n) \<or>
     (i = 1 \<and> bit (mac ! 0) n) \<or> (i = 0 \<and> bit (0xfe :: u8) n)"
    unfolding mac_to_id_pushes bit_or_iff
    by (simp only: b [of 7] b [of 6] b [of 5] b [of 4] b [of 3] b [of 2] b [of 1] b [of 0])
  moreover have "i \<in> {0, 1, 2, 3, 4, 5, 6, 7}" using i by auto
  moreover have "map ((!) mac) [0..<6] = [mac ! 0, mac ! 1, mac ! 2, mac ! 3, mac ! 4, mac ! 5]"
    by (simp add: upt_rec numeral_eq_Suc)
  ultimately show ?thesis by (elim insertE) (simp_all add: nth_Cons')
qed

lemma byte_at_mac:
  assumes i: "i < 8"
  shows "byte_at (mac_to_id mac) i = (0xfe # map ((!) mac) [0..<6] @ [0xff]) ! i"
proof (rule bit_word_eqI)
  fix n assume "n < LENGTH(8)" then have n: "n < 8" by simp
  show "bit (byte_at (mac_to_id mac) i) n \<longleftrightarrow> bit ((0xfe # map ((!) mac) [0..<6] @ [0xff]) ! i) n"
    using bit_mac_to_id [OF n i, of mac] n by (simp add: byte_at_def bit_ucast_iff bit_drop_bit_eq)
qed

lemma id_bytes: "map (byte_at (mac_to_id mac)) [0..<8] = 0xfe # map ((!) mac) [0..<6] @ [0xff]"
proof (rule nth_equalityI)
  fix i assume "i < length (map (byte_at (mac_to_id mac)) [0..<8])"
  then have "i < 8" by simp
  then show "map (byte_at (mac_to_id mac)) [0..<8] ! i = (0xfe # map ((!) mac) [0..<6] @ [0xff]) ! i"
    by (simp add: byte_at_mac)
qed simp

text \<open>The device identifier is, from the least significant byte, 0xfe, the six bytes of
  the MAC address in order, and 0xff; in particular it determines the address.\<close>

theorem device_id_layout:
  assumes "length mac = 6"
  shows "map (byte_at (mac_to_id mac)) [0..<8] = [0xfe] @ mac @ [0xff]"
proof -
  have "map ((!) mac) [0..<6] = mac" using assms map_nth [of mac] by simp
  with id_bytes [of mac] show ?thesis by simp
qed

theorem device_id_layout_witness:
  "map (byte_at (mac_to_id [0x24, 0x6f, 0x28, 1, 2, 3])) [0..<8]
     = [0xfe, 0x24, 0x6f, 0x28, 1, 2, 3, 0xff]"
  using device_id_layout [of "[0x24, 0x6f, 0x28, 1, 2, 3]"] by simp

lemma mac_to_id_nonzero: "mac_to_id mac \<noteq> 0"
proof
  assume "mac_to_id mac = 0"
  with byte_at_mac [of 7 mac] show False by (simp add: byte_at_def nth_append)
qed

text \<open>The identifier is computed once: asking again gives the same value, changes nothing
  and reads no MAC address.\<close>

theorem device_id_stable:
  "hw_device_id env (snd (hw_device_id env s)) = hw_device_id env s"
  by (simp add: hw_device_id_def mac_to_id_nonzero Let_def)

lemma target_wait_us_polls:
  assumes "clock_passes env"
  shows "\<exists>n. target_wait_us env us s = Some (polled env (Suc (Suc n)) s) \<and>
    a_val (query env (Sys GetTime) s) + us \<le> a_val (query env (Sys GetTime) (polled env (Suc n) s))"
  using wait_until_returns [OF assms, of "a_val (query env (Sys GetTime) s) + us"
      "emit env (Sys GetTime) s"]
  by (simp add: target_wait_us_def Let_def polled_Suc [of env "Suc _" s] polled_Suc [of env _ s])

text \<open>C40: the busy wait ends, and not before the clock has advanced by the requested time.\<close>

theorem target_wait_us_waits:
  assumes "clock_passes env"
  shows "\<exists>n. target_wait_us env us s = Some (polled env (Suc (Suc n)) s) \<and>
    a_val (query env (Sys GetTime) s) + us \<le> a_val (query env (Sys GetTime) (polled env (Suc n) s))"
  by (rule target_wait_us_polls [OF assms])

text \<open>A clock that advances by one at every reading.\<close>

fun clock_env :: env where
  "clock_env (Sys GetTime) l = ans0\<lparr>a_val := length l\<rparr>"
| "clock_env _ l = ans0"

lemma length_time_polls: "length (time_polls env n l) = n + length l"
  by (induction n arbitrary: l) simp_all

lemma clock_passes_length:
  assumes "\<And>l. a_val (env (Sys GetTime) l) = length l"
  shows "clock_passes env"
  unfolding clock_passes_def
proof (intro allI)
  fix l and T :: nat
  show "\<exists>n. T \<le> a_val (env (Sys GetTime) (time_polls env n l))"
    by (rule exI [of _ T]) (simp add: length_time_polls assms)
qed

lemma clock_passes_clock_env: "clock_passes clock_env"
  by (rule clock_passes_length) (simp add: ans0_def)

theorem target_wait_us_waits_witness:
  "\<exists>n. target_wait_us clock_env 12 \<lparr>io = [], int_level = 0, id_addr = 0, dcfg_result = 0\<rparr>
      = Some (polled clock_env (Suc (Suc n)) \<lparr>io = [], int_level = 0, id_addr = 0, dcfg_result = 0\<rparr>)"
  using target_wait_us_waits [OF clock_passes_clock_env, of 12
      "\<lparr>io = [], int_level = 0, id_addr = 0, dcfg_result = 0\<rparr>"] by blast

text \<open>The state at boot, which witnesses start from.\<close>

definition boot_platform :: platform where [boot_defs]:
  "boot_platform = \<lparr>io = [], int_level = 0, id_addr = 0, dcfg_result = 0\<rparr>"

end
