(* ===== verification/Utils.thy ===== *)
theory Utils
  imports Platform
begin

text \<open>
  main/utils.c: looking a property up in a connection string
  (\<open>HostName=...;DeviceId=...;SharedAccessKey=...\<close>) and the HMAC-SHA256 signature that the
  cloud login is built from.
\<close>

section \<open>extract_property\<close>

text \<open>The inner \<open>while\<close>: the end of the segment that starts at \<open>nextp\<close>.\<close>

function segment_end :: "string \<Rightarrow> nat \<Rightarrow> nat \<Rightarrow> nat" where
  "segment_end bag plen nextp =
     (if nextp < plen \<and> bag ! nextp \<noteq> CHR '';'' then segment_end bag plen (nextp + 1) else nextp)"
  by pat_completeness auto
termination
  by (relation "measure (\<lambda>(bag, plen, nextp). plen - nextp)") auto

declare segment_end.simps [simp del]

lemma segment_end_ge: "nextp \<le> segment_end bag plen nextp"
proof (induction bag plen nextp rule: segment_end.induct)
  case (1 bag plen nextp)
  then show ?case by (subst segment_end.simps) auto
qed

text \<open>The \<open>for\<close> loop. The result pointer is the string it points at, with its terminator;
  \<open>memcpy\<close> with a negative length, which C converts to a huge \<open>size_t\<close>, does not come back.\<close>

function extract_from ::
    "env \<Rightarrow> string \<Rightarrow> nat \<Rightarrow> string \<Rightarrow> nat \<Rightarrow> 'z platform_scheme \<Rightarrow>
     (string option \<times> 'z platform_scheme) option" where
  "extract_from env bag plen key ptr s =
     (let klen = length key in
      if ptr + klen < plen then
        let nextp = segment_end bag plen ptr in
        if bag ! (ptr + klen) = CHR ''='' \<and> take klen (drop ptr bag) = key then
          let sidx = ptr + klen + 1; rlen = int nextp - int sidx in do {
            (r, s1) \<leftarrow> jd_alloc env (word_of_int (rlen + 1)) s;
            if rlen < 0 then None
            else Some (Some (take (nat rlen) (drop sidx bag) @ [CHR 0x00]), s1)
          }
        else
          extract_from env bag plen key (if nextp < plen then nextp + 1 else nextp) s
      else Some (None, s))"
  by pat_completeness auto
termination
proof (relation "measure (\<lambda>(env, bag, plen, key, ptr, s). plen - ptr)", goal_cases)
  case 1
  show ?case by simp
next
  case (2 env bag plen key ptr s klen nextp)
  with segment_end_ge [of ptr bag plen] show ?case by auto
qed

declare extract_from.simps [simp del]

definition extract_property ::
    "env \<Rightarrow> string \<Rightarrow> nat \<Rightarrow> string \<Rightarrow> 'z platform_scheme \<Rightarrow>
     (string option \<times> 'z platform_scheme) option" where
  "extract_property env bag plen key s = extract_from env bag plen key 0 s"

subsection \<open>Reference: split at semicolons, first segment that starts with the key\<close>

function segments :: "string \<Rightarrow> string list" where
  "segments cs = takeWhile (\<lambda>c. c \<noteq> CHR '';'') cs #
     (case dropWhile (\<lambda>c. c \<noteq> CHR '';'') cs of [] \<Rightarrow> [] | _ # rest \<Rightarrow> segments rest)"
  by pat_completeness auto
termination
proof (relation "measure length", goal_cases)
  case (2 cs c rest)
  then show ?case using length_dropWhile_le [of "\<lambda>c. c \<noteq> CHR '';''" cs] by simp
qed simp

declare segments.simps [simp del]

definition lookup_property :: "string \<Rightarrow> string \<Rightarrow> string option" where
  "lookup_property bag key =
     map_option (drop (length key + 1))
       (find (\<lambda>seg. take (length key + 1) seg = key @ ''='') (segments bag))"

subsection \<open>The loop implements the reference\<close>

definition heap_available :: "env \<Rightarrow> bool" where
  "heap_available env \<longleftrightarrow> (\<forall>n l. a_ptr (env (Rtos (Calloc n)) l) \<noteq> 0)"

lemma jd_alloc_available:
  "heap_available env \<Longrightarrow>
   \<exists>r. jd_alloc env n s = Some (r, emit env (Rtos (Calloc (unat n))) s)"
  by (simp add: jd_alloc_def heap_available_def query_def)

lemma segment_end_eq:
  assumes "plen \<le> length bag" "ptr \<le> plen"
  shows "segment_end bag plen ptr =
    ptr + length (takeWhile (\<lambda>c. c \<noteq> CHR '';'') (drop ptr (take plen bag)))"
  using assms
proof (induction bag plen ptr rule: segment_end.induct)
  case (1 bag plen ptr)
  show ?case
  proof (cases "ptr < plen")
    case True
    then have d: "drop ptr (take plen bag) = bag ! ptr # drop (Suc ptr) (take plen bag)"
      using "1.prems" by (subst Cons_nth_drop_Suc [symmetric]) simp_all
    show ?thesis
      using 1 True by (subst segment_end.simps) (simp add: d)
  next
    case False
    with "1.prems" show ?thesis by (subst segment_end.simps) simp
  qed
qed

lemma find_segments_short:
  assumes "length cs \<le> length key"
  shows "find (\<lambda>seg. take (length key + 1) seg = key @ ''='') (segments cs) = None"
  using assms
proof (induction cs rule: segments.induct)
  case (1 cs)
  let ?d = "dropWhile (\<lambda>c. c \<noteq> CHR '';'') cs"
  have short: "take (length key + 1) xs \<noteq> key @ ''=''" if "length xs \<le> length key" for xs :: string
  proof
    assume "take (length key + 1) xs = key @ ''=''"
    then have "length (take (length key + 1) xs) = length key + 1" by simp
    with that show False by simp
  qed
  have "length (takeWhile (\<lambda>c. c \<noteq> CHR '';'') cs) \<le> length key"
    using "1.prems" length_takeWhile_le [of _ cs] order_trans by blast
  moreover have "find (\<lambda>seg. take (length key + 1) seg = key @ ''='') (segments rest) = None"
    if d: "?d = c # rest" for c rest
  proof (rule "1.IH" [OF d])
    show "length rest \<le> length key"
      using "1.prems" length_dropWhile_le [of "\<lambda>c. c \<noteq> CHR '';''" cs] d by simp
  qed
  ultimately show ?case
    using short by (subst segments.simps) (auto split: list.splits)
qed

lemma take_takeWhile_eq:
  "CHR '';'' \<notin> set pre \<Longrightarrow>
   take (length pre) (takeWhile (\<lambda>c. c \<noteq> CHR '';'') cs) = pre \<longleftrightarrow> take (length pre) cs = pre"
proof (induction pre arbitrary: cs)
  case (Cons c pre)
  then show ?case by (cases cs) auto
qed simp

lemma match_iff:
  assumes "ptr + length key < plen" "plen \<le> length bag" "CHR '';'' \<notin> set key"
  shows "bag ! (ptr + length key) = CHR ''='' \<and> take (length key) (drop ptr bag) = key \<longleftrightarrow>
    take (length key + 1) (takeWhile (\<lambda>c. c \<noteq> CHR '';'') (drop ptr (take plen bag))) = key @ ''=''"
proof -
  have "take (length key + 1) (drop ptr (take plen bag))
      = take (length key) (drop ptr bag) @ [bag ! (ptr + length key)]"
    using assms(1,2) by (simp add: drop_take take_Suc_conv_app_nth)
  with take_takeWhile_eq [of "key @ ''=''" "drop ptr (take plen bag)"] assms(3) show ?thesis
    by auto
qed

text \<open>What the loop hands back for a looked-up value: a fresh buffer that fits it exactly.\<close>

definition property_result ::
    "env \<Rightarrow> 'z platform_scheme \<Rightarrow> string option \<Rightarrow> string option \<times> 'z platform_scheme" where
  "property_result env s v =
     (case v of None \<Rightarrow> (None, s)
      | Some v \<Rightarrow> (Some (v @ [CHR 0x00]), emit env (Rtos (Calloc (length v + 1))) s))"

lemma lookup_hit:
  assumes "take (length key + 1) (takeWhile (\<lambda>c. c \<noteq> CHR '';'') cs) = key @ ''=''"
  shows "lookup_property cs key = Some (drop (length key + 1) (takeWhile (\<lambda>c. c \<noteq> CHR '';'') cs))"
  using assms by (subst lookup_property_def, subst segments.simps) simp

lemma lookup_miss:
  assumes "take (length key + 1) (takeWhile (\<lambda>c. c \<noteq> CHR '';'') cs) \<noteq> key @ ''=''"
  shows "lookup_property cs key =
    (case dropWhile (\<lambda>c. c \<noteq> CHR '';'') cs of [] \<Rightarrow> None | _ # rest \<Rightarrow> lookup_property rest key)"
proof -
  have "segments cs = takeWhile (\<lambda>c. c \<noteq> CHR '';'') cs #
     (case dropWhile (\<lambda>c. c \<noteq> CHR '';'') cs of [] \<Rightarrow> [] | _ # rest \<Rightarrow> segments rest)"
    by (rule segments.simps)
  with assms show ?thesis
    by (cases "dropWhile (\<lambda>c. c \<noteq> CHR '';'') cs") (simp_all add: lookup_property_def del: dropWhile_eq_Nil_conv)
qed

lemma lookup_short: "length cs \<le> length key \<Longrightarrow> lookup_property cs key = None"
  by (simp add: lookup_property_def find_segments_short del: One_nat_def)

lemma extract_hit:
  assumes "ptr + length key < plen" "plen \<le> length bag" "plen < 2 ^ 31" "heap_available env"
    and hit: "bag ! (ptr + length key) = CHR ''=''" "take (length key) (drop ptr bag) = key"
    and seg: "take (length key + 1) (takeWhile (\<lambda>c. c \<noteq> CHR '';'') (drop ptr (take plen bag))) = key @ ''=''"
  shows "extract_from env bag plen key ptr s = Some (property_result env s
    (Some (drop (length key + 1) (takeWhile (\<lambda>c. c \<noteq> CHR '';'') (drop ptr (take plen bag))))))"
proof -
  let ?seg = "takeWhile (\<lambda>c. c \<noteq> CHR '';'') (drop ptr (take plen bag))"
  let ?k = "length key" let ?n = "length ?seg - (?k + 1)"
  have len: "?k + 1 \<le> length ?seg"
    using arg_cong [OF seg, of length] by (simp split: if_splits)
  have le: "length ?seg \<le> plen - ptr"
    using length_takeWhile_le [of "\<lambda>c. c \<noteq> CHR '';''" "drop ptr (take plen bag)"] assms(2)
    by (simp add: min_def split: if_splits)
  have nextp: "segment_end bag plen ptr = ptr + length ?seg"
    using assms(1,2) by (simp add: segment_end_eq)
  have rlen: "int (ptr + length ?seg) - int (ptr + ?k + 1) = int ?n"
    using len by simp
  have small: "unat (word_of_int (int ?n + 1) :: u32) = ?n + 1"
    using le assms(3) by (intro unat_word_of_int_Suc) simp
  have val: "take ?n (drop (ptr + ?k + 1) bag) = drop (?k + 1) ?seg"
  proof -
    have "?seg = take (length ?seg) (drop ptr (take plen bag))"
      by (rule takeWhile_eq_take)
    also have "\<dots> = take (length ?seg) (drop ptr bag)"
      using le by (simp add: drop_take min_def)
    finally have "drop (?k + 1) ?seg = drop (?k + 1) (take (length ?seg) (drop ptr bag))"
      by simp
    then show ?thesis by (simp add: drop_take add.commute)
  qed
  obtain r where r: "jd_alloc env (word_of_int (int ?n + 1)) s
      = Some (r, emit env (Rtos (Calloc (?n + 1))) s)"
    using jd_alloc_available [OF assms(4), of "word_of_int (int ?n + 1)" s] small by auto
  show ?thesis
    using assms(1) hit
    by (subst extract_from.simps, simp only: Let_def nextp rlen r)
      (simp add: val [simplified] property_result_def)
qed

lemma extract_from_eq:
  assumes "plen \<le> length bag" "plen < 2 ^ 31" "CHR '';'' \<notin> set key" "heap_available env"
    and "ptr \<le> plen"
  shows "extract_from env bag plen key ptr s
    = Some (property_result env s (lookup_property (drop ptr (take plen bag)) key))"
  using assms
proof (induction env bag plen key ptr s rule: extract_from.induct [case_names step])
  case (step env bag plen key ptr s)
  let ?cs = "drop ptr (take plen bag)"
  let ?seg = "takeWhile (\<lambda>c. c \<noteq> CHR '';'') ?cs"
  show ?case
  proof (cases "ptr + length key < plen")
    case False
    with step.prems have "lookup_property ?cs key = None" by (intro lookup_short) simp
    with False show ?thesis by (subst extract_from.simps) (simp add: property_result_def)
  next
    case True
    note m = match_iff [OF True step.prems(1,3)]
    show ?thesis
    proof (cases "take (length key + 1) ?seg = key @ ''=''")
      case hit: True
      with m have "bag ! (ptr + length key) = CHR ''=''" "take (length key) (drop ptr bag) = key"
        by simp_all
      from extract_hit [OF True step.prems(1,2,4) this hit] show ?thesis
        by (simp only: lookup_hit [OF hit])
    next
      case miss: False
      let ?nextp = "segment_end bag plen ptr"
      let ?ptr = "if ?nextp < plen then ?nextp + 1 else ?nextp"
      have nextp: "?nextp = ptr + length ?seg"
        using step.prems by (simp add: segment_end_eq)
      have le: "?nextp \<le> plen"
        using length_takeWhile_le [of "\<lambda>c. c \<noteq> CHR '';''" ?cs] step.prems by (simp add: nextp)
      have dw: "dropWhile (\<lambda>c. c \<noteq> CHR '';'') ?cs = drop ?nextp (take plen bag)"
        by (subst dropWhile_eq_drop) (simp add: nextp add.commute)
      have rest: "lookup_property ?cs key = lookup_property (drop ?ptr (take plen bag)) key"
      proof (cases "?nextp < plen")
        case True
        then have "drop ?nextp (take plen bag) = take plen bag ! ?nextp # drop (Suc ?nextp) (take plen bag)"
          using step.prems by (subst Cons_nth_drop_Suc [symmetric]) simp_all
        with True show ?thesis by (simp add: lookup_miss [OF miss] dw)
      next
        case False
        then have "drop ?nextp (take plen bag) = []" by simp
        with False show ?thesis using lookup_short [of "[]" key]
          by (simp add: lookup_miss [OF miss] dw)
      qed
      have "extract_from env bag plen key ptr s = extract_from env bag plen key ?ptr s"
        using True miss m by (subst extract_from.simps) (auto simp: Let_def)
      also have "\<dots> = Some (property_result env s (lookup_property (drop ?ptr (take plen bag)) key))"
        using True miss m le by (intro step.IH step.prems refl) auto
      finally show ?thesis by (simp only: rest)
    qed
  qed
qed

section \<open>jd_hmac_b64\<close>

text \<open>The loop over the parts, which the C code ends at a NULL entry: here it ends with the list.\<close>

fun hmac_updates :: "env \<Rightarrow> string list \<Rightarrow> 'z platform_scheme \<Rightarrow> 'z platform_scheme option" where
  "hmac_updates env [] s = Some s"
| "hmac_updates env (part # parts) s = do {
     let (r, s1) = ext env (Md (HmacUpdate part)) s;
     chk (a_ret r);
     hmac_updates env parts s1
   }"

definition to_chars :: "u8 list \<Rightarrow> string" where
  "to_chars bs = map (\<lambda>b. char_of (unat b)) bs"

definition jd_hmac_b64 ::
    "env \<Rightarrow> string \<Rightarrow> string list \<Rightarrow> 'z platform_scheme \<Rightarrow>
     (string option \<times> 'z platform_scheme) option" where
  "jd_hmac_b64 env key parts s =
     (let (d, s1) = ext env (Md (Base64Decode key 64)) s in
      if a_ret d \<noteq> 0 then Some (None, s1)
      else
        let binkey = a_bytes d; klen = a_val d; s2 = emit env (Md MdInit) s1 in do {
          let (r, s3) = ext env (Md MdSetup) s2;
          chk (a_ret r);
          let (r, s4) = ext env (Md (HmacStarts (take klen binkey))) s3;
          if a_ret r \<noteq> 0 then Some (None, emit env (Md MdFree) s4)
          else do {
            s5 \<leftarrow> hmac_updates env parts s4;
            let (f, s6) = ext env (Md HmacFinish) s5;
            chk (a_ret f);
            let binkey = a_bytes f;
            let s7 = emit env (Md MdFree) s6;
            let (e, s8) = ext env (Md (Base64Encode (take 32 binkey) 0)) s7;
            let klen = a_val e;
            (r, s9) \<leftarrow> jd_alloc env (word_of_int (int klen + 1)) s8;
            let (e, s10) = ext env (Md (Base64Encode (take 32 binkey) (klen + 1))) s9;
            chk (a_ret e);
            Some (Some (to_chars (take (a_val e) (a_bytes e)) @ [CHR 0x00]), s10)
          }
        })"

text \<open>The HMAC context that the history has fed: the key and the message so far.\<close>

fun hmac_input :: "io_log \<Rightarrow> u8 list \<times> string" where
  "hmac_input [] = ([], [])"
| "hmac_input ((Md (HmacStarts k), a) # l) = (k, [])"
| "hmac_input ((Md (HmacUpdate p), a) # l) = (fst (hmac_input l), snd (hmac_input l) @ p)"
| "hmac_input (_ # l) = hmac_input l"

text \<open>The documented behaviour of mbedTLS: \<open>unb64\<close>, \<open>hmac\<close> and \<open>b64\<close> are the three functions it
  computes; decoding fails on invalid text or when the result does not fit; encoding into
  no buffer reports the size with its terminator.\<close>

definition mbedtls_md ::
    "env \<Rightarrow> (string \<Rightarrow> u8 list option) \<Rightarrow> (u8 list \<Rightarrow> string \<Rightarrow> u8 list) \<Rightarrow> (u8 list \<Rightarrow> u8 list) \<Rightarrow> bool" where
  "mbedtls_md env unb64 hmac b64 \<longleftrightarrow>
     (\<forall>t n l k. unb64 t = Some k \<and> length k \<le> n \<longrightarrow>
        a_ret (env (Md (Base64Decode t n)) l) = 0 \<and>
        a_val (env (Md (Base64Decode t n)) l) = length k \<and>
        a_bytes (env (Md (Base64Decode t n)) l) = k) \<and>
     (\<forall>t n l. (\<forall>k. unb64 t = Some k \<longrightarrow> n < length k) \<longrightarrow>
        a_ret (env (Md (Base64Decode t n)) l) \<noteq> 0) \<and>
     (\<forall>l. a_ret (env (Md MdSetup) l) = 0) \<and>
     (\<forall>k l. a_ret (env (Md (HmacStarts k)) l) = 0) \<and>
     (\<forall>p l. a_ret (env (Md (HmacUpdate p)) l) = 0) \<and>
     (\<forall>l. a_ret (env (Md HmacFinish) l) = 0 \<and>
        a_bytes (env (Md HmacFinish) l) = hmac (fst (hmac_input l)) (snd (hmac_input l))) \<and>
     (\<forall>d l. a_val (env (Md (Base64Encode d 0)) l) = length (b64 d) + 1) \<and>
     (\<forall>d n l. length (b64 d) < n \<longrightarrow>
        a_ret (env (Md (Base64Encode d n)) l) = 0 \<and>
        a_val (env (Md (Base64Encode d n)) l) = length (b64 d) \<and>
        a_bytes (env (Md (Base64Encode d n)) l) = b64 d)"

lemma hmac_updates_eq:
  assumes "\<And>p l. a_ret (env (Md (HmacUpdate p)) l) = 0"
  shows "\<exists>s'. hmac_updates env parts s = Some s' \<and>
    hmac_input (io s') = (fst (hmac_input (io s)), snd (hmac_input (io s)) @ concat parts)"
proof (induction parts arbitrary: s)
  case (Cons p parts)
  from Cons [of "emit env (Md (HmacUpdate p)) s"] obtain s' where
    "hmac_updates env parts (emit env (Md (HmacUpdate p)) s) = Some s'"
    "hmac_input (io s') = (fst (hmac_input (io s)), (snd (hmac_input (io s)) @ p) @ concat parts)"
    by (auto simp: io_emit)
  with assms show ?case by (auto simp: query_def)
qed simp

text \<open>Calls on message-digest contexts that are not balanced by a release.\<close>

fun md_open :: "io_log \<Rightarrow> int" where
  "md_open [] = 0"
| "md_open ((Md MdInit, a) # l) = md_open l + 1"
| "md_open ((Md MdFree, a) # l) = md_open l - 1"
| "md_open (_ # l) = md_open l"

lemma md_open_updates: "hmac_updates env parts s = Some s' \<Longrightarrow> md_open (io s') = md_open (io s)"
  by (induction parts arbitrary: s) (auto simp: io_emit split: if_splits)

lemma md_open_alloc: "jd_alloc env n s = Some (r, s') \<Longrightarrow> md_open (io s') = md_open (io s)"
  by (auto simp: jd_alloc_def io_emit split: if_splits)

section \<open>Properties\<close>

text \<open>C34: on a property bag of \<open>plen\<close> bytes, \<open>extract_property\<close> comes back and returns the value
  of the first semicolon-separated segment that starts with the key and an equals sign, as a
  NUL-terminated string in a fresh buffer of exactly the needed size, or NULL without any
  allocation when there is none.\<close>

theorem extract_property_correct:
  assumes "plen \<le> length bag" "plen < 2 ^ 31" "CHR '';'' \<notin> set key" "heap_available env"
  shows "extract_property env bag plen key s
    = Some (property_result env s (lookup_property (take plen bag) key))"
  using extract_from_eq [OF assms, of 0 s] by (simp add: extract_property_def)

definition heap_env :: env where
  "heap_env c l = (case c of Rtos (Calloc n) \<Rightarrow> ans0\<lparr>a_ptr := 0x3ffb0000\<rparr> | _ \<Rightarrow> ans0)"

lemma heap_available_heap_env: "heap_available heap_env"
  by (simp add: heap_available_def heap_env_def ans0_def)

theorem extract_property_correct_witness:
  "map_option fst (extract_property heap_env ''HostName=hub;Id=dev1;Key=a=b'' 28 ''Key'' boot_platform)
     = Some (Some (''a=b'' @ [CHR 0x00]))"
proof -
  have "lookup_property (take 28 ''HostName=hub;Id=dev1;Key=a=b'') ''Key'' = Some ''a=b''"
    by code_simp
  then show ?thesis
    using extract_property_correct [OF _ _ _ heap_available_heap_env,
        of 28 "''HostName=hub;Id=dev1;Key=a=b''" "''Key''" boot_platform]
    by (simp add: property_result_def)
qed

text \<open>A key that holds a semicolon can match across a segment end; the length of the value
  is then negative and the copy does not come back.\<close>

theorem extract_property_semicolon_key:
  "extract_property env ''a;b=c'' 5 ''a;b'' s = None"
proof -
  have "segment_end ''a;b=c'' 5 0 = 1" by code_simp
  then show ?thesis
    by (auto simp: extract_property_def extract_from.simps jd_alloc_def Let_def)
qed

text \<open>The value that \<open>jd_hmac_b64\<close> returns.\<close>

lemma jd_hmac_b64_value:
  assumes "mbedtls_md env unb64 hmac b64" "heap_available env"
    and len: "\<And>k m. length (hmac k m) = 32"
  shows "map_option fst (jd_hmac_b64 env key parts s) =
    Some (case unb64 key of
        Some k \<Rightarrow> (if length k \<le> 64 then Some (to_chars (b64 (hmac k (concat parts))) @ [CHR 0x00]) else None)
      | None \<Rightarrow> None)"
proof (cases "\<exists>k. unb64 key = Some k \<and> length k \<le> 64")
  case False
  then have "\<forall>k. unb64 key = Some k \<longrightarrow> 64 < length k" by auto
  with assms(1) have "a_ret (query env (Md (Base64Decode key 64)) s) \<noteq> 0"
    unfolding mbedtls_md_def query_def by blast
  with False show ?thesis by (auto simp: jd_hmac_b64_def split: option.splits)
next
  case True
  then obtain k where k: "unb64 key = Some k" "length k \<le> 64" by blast
  have dec: "a_ret (env (Md (Base64Decode key 64)) l) = 0"
      "a_val (env (Md (Base64Decode key 64)) l) = length k"
      "a_bytes (env (Md (Base64Decode key 64)) l) = k" for l
    using assms(1) k unfolding mbedtls_md_def by blast+
  note md = assms(1) [unfolded mbedtls_md_def, THEN conjunct2]
  let ?s4 = "emit env (Md (HmacStarts k)) (emit env (Md MdSetup)
      (emit env (Md MdInit) (emit env (Md (Base64Decode key 64)) s)))"
  obtain s5 where s5: "hmac_updates env parts ?s4 = Some s5"
      "hmac_input (io s5) = (k, concat parts)"
    using hmac_updates_eq [of env parts ?s4] md by (auto simp: io_emit)
  let ?h = "hmac k (concat parts)"
  have fin: "a_ret (query env (Md HmacFinish) s5) = 0" "a_bytes (query env (Md HmacFinish) s5) = ?h"
    using md s5(2) by (simp_all add: query_def)
  have b0: "a_val (env (Md (Base64Encode ?h 0)) l) = length (b64 ?h) + 1" for l
    using md by blast
  let ?n = "length (b64 ?h) + 1"
  have bn: "a_ret (env (Md (Base64Encode ?h (?n + 1))) l) = 0"
      "a_val (env (Md (Base64Encode ?h (?n + 1))) l) = length (b64 ?h)"
      "a_bytes (env (Md (Base64Encode ?h (?n + 1))) l) = b64 ?h" for l
    using md by auto
  let ?s8 = "emit env (Md (Base64Encode ?h 0)) (emit env (Md MdFree) (emit env (Md HmacFinish) s5))"
  obtain r where r: "jd_alloc env (word_of_int (int ?n + 1)) ?s8
      = Some (r, emit env (Rtos (Calloc (unat (word_of_int (int ?n + 1) :: u32)))) ?s8)"
    using jd_alloc_available [OF assms(2)] by blast
  have pre: "a_ret (env (Md MdSetup) l) = 0" "a_ret (env (Md (HmacStarts k)) l) = 0" for l
    using md by simp_all
  show ?thesis
    using k fin s5(1) r
    by (simp add: jd_hmac_b64_def Let_def dec pre query_def len b0 bn [simplified])
qed

definition md_env :: env where
  "md_env c l = (case c of
      Rtos (Calloc n) \<Rightarrow> ans0\<lparr>a_ptr := 0x3ffb0000\<rparr>
    | Md (Base64Decode t n) \<Rightarrow>
        (if length t \<le> n then ans0\<lparr>a_val := length t, a_bytes := map of_char t\<rparr> else ans0\<lparr>a_ret := -42\<rparr>)
    | Md HmacFinish \<Rightarrow> ans0\<lparr>a_bytes := take 32 (fst (hmac_input l)
        @ map of_char (snd (hmac_input l)) @ replicate 32 0)\<rparr>
    | Md (Base64Encode d n) \<Rightarrow>
        (if n = 0 then ans0\<lparr>a_ret := -42, a_val := length d + 1\<rparr>
         else ans0\<lparr>a_val := length d, a_bytes := d\<rparr>)
    | _ \<Rightarrow> ans0)"

lemma mbedtls_md_env:
  "mbedtls_md md_env (\<lambda>t. Some (map of_char t))
     (\<lambda>k m. take 32 (k @ map of_char m @ replicate 32 0)) (\<lambda>d. d)"
  by (simp add: mbedtls_md_def md_env_def ans0_def)

lemma heap_available_md_env: "heap_available md_env"
  by (simp add: heap_available_def md_env_def ans0_def)

text \<open>Whatever the environment answers, every return leaves as many digest contexts open as it found.\<close>

lemma jd_hmac_b64_no_leak: "jd_hmac_b64 env key parts s = Some (v, s') \<Longrightarrow> md_open (io s') = md_open (io s)"
  by (auto simp: jd_hmac_b64_def Let_def io_emit split: if_splits
      dest!: md_open_updates md_open_alloc)

text \<open>C35: \<open>jd_hmac_b64\<close> always returns the text encoding of the HMAC, under the decoded key, of all parts
  in order, terminated; an undecodable or too long key gives NULL. Either way the digest context
  that it set up is released.\<close>

theorem jd_hmac_b64_correct:
  assumes "mbedtls_md env unb64 hmac b64" "heap_available env"
    and "\<And>k m. length (hmac k m) = 32"
  shows "\<exists>s'. jd_hmac_b64 env key parts s = Some (case unb64 key of
        Some k \<Rightarrow> (if length k \<le> 64 then Some (to_chars (b64 (hmac k (concat parts))) @ [CHR 0x00]) else None)
      | None \<Rightarrow> None, s') \<and> md_open (io s') = md_open (io s)"
  using jd_hmac_b64_value [OF assms, of key parts s] by (auto dest: jd_hmac_b64_no_leak)

theorem jd_hmac_b64_correct_witness:
  "\<exists>s'. jd_hmac_b64 md_env ''k1'' [''ab'', ''c''] boot_platform
     = Some (Some (''k1abc'' @ replicate 27 (CHR 0x00) @ [CHR 0x00]), s') \<and> md_open (io s') = 0"
proof -
  have "to_chars (take 32 (map of_char ''k1'' @ map of_char (concat [''ab'', ''c'']) @ replicate 32 0))
      = ''k1abc'' @ replicate 27 (CHR 0x00)"
    by code_simp
  then show ?thesis
    using jd_hmac_b64_correct [OF mbedtls_md_env heap_available_md_env, of "''k1''" "[''ab'', ''c'']" boot_platform]
    by (auto simp: boot_defs)
qed

end
