(* ===== verification/Worker.thy ===== *)
theory Worker
  imports Platform
begin

text \<open>
  main/worker.c: a worker is a heap structure with a FreeRTOS queue of jobs and an optional
  idle function. The main loop and the timer task each own one and drain it with
  \<open>worker_do_work\<close>; every other part of the firmware only posts jobs to it.
\<close>

section \<open>State\<close>

record worker =
  w_task :: u32
  w_queue :: queue
  w_fn :: fn
  w_arg :: fn_arg

text \<open>\<open>wheap\<close> is the part of the heap that holds worker structures, by address.\<close>

record workers = platform +
  wheap :: "u32 \<Rightarrow> worker"

definition upd_worker :: "u32 \<Rightarrow> (worker \<Rightarrow> worker) \<Rightarrow> 'z workers_scheme \<Rightarrow> 'z workers_scheme" where
  "upd_worker w f s = s\<lparr>wheap := (wheap s)(w := f (wheap s w))\<rparr>"

text \<open>The meaning of calling a function pointer is a parameter of the draining operations.\<close>

type_synonym 's exec = "fn \<Rightarrow> fn_arg \<Rightarrow> 's \<Rightarrow> 's option"

section \<open>Operations\<close>

definition call_idle :: "'z workers_scheme exec \<Rightarrow> u32 \<Rightarrow> 'z workers_scheme \<Rightarrow> 'z workers_scheme option" where
  "call_idle exec w s =
     (if w_fn (wheap s w) \<noteq> Fn_null then exec (w_fn (wheap s w)) (w_arg (wheap s w)) s else Some s)"

partial_function (option) worker_do_work ::
    "env \<Rightarrow> 'z workers_scheme exec \<Rightarrow> u32 \<Rightarrow> 'z workers_scheme \<Rightarrow> 'z workers_scheme option" where
  "worker_do_work env exec w s = do {
     s1 \<leftarrow> call_idle exec w s;
     let (r, s2) = ext env (Rtos (QReceive (w_queue (wheap s1 w)) 0)) s1;
     (case a_item r of
        Some (Job f a) \<Rightarrow> do { s3 \<leftarrow> exec f a s2; worker_do_work env exec w s3 }
      | None \<Rightarrow> Some s2
      | _ \<Rightarrow> None)
   }"

text \<open>One turn of the endless loop of the worker task.\<close>

definition worker_main_turn ::
    "env \<Rightarrow> 'z workers_scheme exec \<Rightarrow> u32 \<Rightarrow> 'z workers_scheme \<Rightarrow> 'z workers_scheme option" where
  "worker_main_turn env exec w s = do {
     let (r, s1) = ext env (Rtos (QReceive (w_queue (wheap s w))
                                   (if w_fn (wheap s w) \<noteq> Fn_null then 20 else 1))) s;
     s2 \<leftarrow> (case a_item r of Some (Job f a) \<Rightarrow> exec f a s1 | None \<Rightarrow> Some s1 | _ \<Rightarrow> None);
     call_idle exec w s2
   }"

definition worker_alloc :: "env \<Rightarrow> 'z workers_scheme \<Rightarrow> (u32 \<times> 'z workers_scheme) option" where
  "worker_alloc env s =
     (let (c, s1) = ext env (Rtos (Calloc 16)) s; w = a_ptr c in
      if w = 0 then None
      else
        let s2 = upd_worker w (\<lambda>_. \<lparr>w_task = 0, w_queue = 0, w_fn = Fn_null, w_arg = Arg_null\<rparr>) s1;
            (q, s3) = ext env (Rtos (QCreate 20)) s2
        in Some (w, upd_worker w (\<lambda>x. x\<lparr>w_queue := a_ptr q\<rparr>) s3))"

definition worker_start ::
    "env \<Rightarrow> string \<Rightarrow> nat \<Rightarrow> 'z workers_scheme \<Rightarrow> (u32 \<times> 'z workers_scheme) option" where
  "worker_start env name stack_size s = do {
     (w, s1) \<leftarrow> worker_alloc env s;
     let (t, s2) = ext env (Rtos (TaskCreate name stack_size)) s1;
     Some (w, upd_worker w (\<lambda>x. x\<lparr>w_task := a_ptr t\<rparr>) s2)
   }"

definition worker_set_idle :: "u32 \<Rightarrow> fn \<Rightarrow> fn_arg \<Rightarrow> 'z workers_scheme \<Rightarrow> 'z workers_scheme" where
  "worker_set_idle w f a s = upd_worker w (\<lambda>x. x\<lparr>w_fn := f, w_arg := a\<rparr>) s"

definition worker_run ::
    "env \<Rightarrow> u32 \<Rightarrow> fn \<Rightarrow> fn_arg \<Rightarrow> 'z workers_scheme \<Rightarrow> int \<times> 'z workers_scheme" where
  "worker_run env w f a s =
     (let (r, s1) = ext env (Rtos (QSendFromISR (w_queue (wheap s w)) (Job f a))) s
      in if a_ret r = pdPASS then (0, s1) else (-1, s1))"

definition worker_run_wait ::
    "env \<Rightarrow> u32 \<Rightarrow> fn \<Rightarrow> fn_arg \<Rightarrow> 'z workers_scheme \<Rightarrow> int \<times> 'z workers_scheme" where
  "worker_run_wait env w f a s =
     (let (r, s1) = ext env (Rtos (QSend (w_queue (wheap s w)) (Job f a) 100)) s
      in if a_ret r = pdPASS then (0, s1) else (-1, s1))"

section \<open>The posting contract\<close>

text \<open>
  What every client of a job queue relies on: a post answers 0 and appends the job, or
  answers -1 and changes nothing. Posting reorders and drops nothing that was accepted.
\<close>

locale job_queue =
  fixes post :: "fn \<Rightarrow> fn_arg \<Rightarrow> 's \<Rightarrow> int \<times> 's"
    and jobs :: "'s \<Rightarrow> q_item list"
  assumes post_ret: "fst (post f a s) = 0 \<or> fst (post f a s) = -1"
    and post_ok: "fst (post f a s) = 0 \<Longrightarrow> jobs (snd (post f a s)) = jobs s @ [Job f a]"
    and post_full: "fst (post f a s) \<noteq> 0 \<Longrightarrow> jobs (snd (post f a s)) = jobs s"
begin

lemma post_jobs:
  "jobs (snd (post f a s)) = jobs s @ (if fst (post f a s) = 0 then [Job f a] else [])"
  using post_ok post_full by simp

lemma post_keeps: "x \<in> set (jobs s) \<Longrightarrow> x \<in> set (jobs (snd (post f a s)))"
  by (simp add: post_jobs)

lemma post_grows: "length (jobs (snd (post f a s))) \<le> Suc (length (jobs s))"
  by (simp add: post_jobs)

end

definition jobs_of :: "u32 \<Rightarrow> 'z workers_scheme \<Rightarrow> q_item list" where
  "jobs_of w s = q_items (w_queue (wheap s w)) (io s)"

lemma workers_emit [simp]: "wheap (emit env c s) = wheap s"
  by (simp add: emit_def)

lemma jobs_of_emit:
  "jobs_of w (emit env c s) = q_items (w_queue (wheap s w)) ((c, env c (io s)) # io s)"
  by (simp add: jobs_of_def io_emit)

interpretation run_q: job_queue "worker_run env w" "jobs_of w" for env w
  by unfold_locales (auto simp: worker_run_def jobs_of_emit query_def, auto simp: jobs_of_def)

interpretation wait_q: job_queue "worker_run_wait env w" "jobs_of w" for env w
  by unfold_locales (auto simp: worker_run_wait_def jobs_of_emit query_def, auto simp: jobs_of_def)

section \<open>Draining\<close>

text \<open>
  The reference for \<open>worker_do_work\<close>: run the listed jobs in order, with the idle function
  before each of them and once more at the end; every turn asks the queue once.
\<close>

definition ask_queue :: "env \<Rightarrow> u32 \<Rightarrow> 'z workers_scheme \<Rightarrow> 'z workers_scheme" where
  "ask_queue env w s = emit env (Rtos (QReceive (w_queue (wheap s w)) 0)) s"

fun drain ::
    "env \<Rightarrow> 'z workers_scheme exec \<Rightarrow> u32 \<Rightarrow> (fn \<times> fn_arg) list \<Rightarrow> 'z workers_scheme \<Rightarrow>
     'z workers_scheme option" where
  "drain env exec w [] s = do { s1 \<leftarrow> call_idle exec w s; Some (ask_queue env w s1) }"
| "drain env exec w ((f, a) # js) s = do {
     s1 \<leftarrow> call_idle exec w s;
     s2 \<leftarrow> exec f a (ask_queue env w s1);
     drain env exec w js s2
   }"

text \<open>Functions that leave the queue of \<open>w\<close> and the worker structures alone.\<close>

definition quiet :: "'z workers_scheme exec \<Rightarrow> u32 \<Rightarrow> bool" where
  "quiet exec w \<longleftrightarrow>
     (\<forall>f a s s'. exec f a s = Some s' \<longrightarrow> wheap s' = wheap s \<and> jobs_of w s' = jobs_of w s)"

lemma quietD:
  assumes "quiet exec w" "exec f a s = Some s'"
  shows "wheap s' = wheap s" "jobs_of w s' = jobs_of w s"
  using assms unfolding quiet_def by blast+

lemma call_idle_quiet:
  assumes "quiet exec w" "call_idle exec w s = Some s'"
  shows "wheap s' = wheap s" "jobs_of w s' = jobs_of w s"
  using assms by (auto simp: call_idle_def dest: quietD split: if_splits)

lemma ask_queue_empty:
  assumes "rtos_queue env (w_queue (wheap s w)) cap" "jobs_of w s = []"
  shows "a_item (query env (Rtos (QReceive (w_queue (wheap s w)) 0)) s) = None"
    and "jobs_of w (ask_queue env w s) = []"
  using assms rtos_queue_receive [OF assms(1), of "io s"]
  by (simp_all add: ask_queue_def jobs_of_def query_def io_emit)

lemma ask_queue_Cons:
  assumes "rtos_queue env (w_queue (wheap s w)) cap" "jobs_of w s = x # xs"
  shows "a_item (query env (Rtos (QReceive (w_queue (wheap s w)) 0)) s) = Some x"
    and "jobs_of w (ask_queue env w s) = xs"
  using assms rtos_queue_receive [OF assms(1), of "io s"]
  by (simp_all add: ask_queue_def jobs_of_def query_def io_emit)

lemma ask_queue_wheap [simp]: "wheap (ask_queue env w s) = wheap s"
  by (simp add: ask_queue_def)

lemma worker_do_work_drain:
  assumes "quiet exec w" "rtos_queue env (w_queue (wheap s w)) cap"
    and "jobs_of w s = map (\<lambda>(f, a). Job f a) js"
  shows "worker_do_work env exec w s = drain env exec w js s"
  using assms(2,3)
proof (induction js arbitrary: s)
  case Nil
  show ?case
  proof (cases "call_idle exec w s")
    case None
    then show ?thesis by (subst worker_do_work.simps) simp
  next
    case (Some s1)
    note q = call_idle_quiet [OF assms(1) Some]
    have "a_item (query env (Rtos (QReceive (w_queue (wheap s1 w)) 0)) s1) = None"
      using ask_queue_empty(1) [of env s1 w cap] Nil q by simp
    with Some show ?thesis by (subst worker_do_work.simps) (simp add: ask_queue_def)
  qed
next
  case (Cons j js)
  obtain f a where j: "j = (f, a)" by (cases j)
  show ?case
  proof (cases "call_idle exec w s")
    case None
    then show ?thesis by (subst worker_do_work.simps) (simp add: j)
  next
    case (Some s1)
    note q = call_idle_quiet [OF assms(1) Some]
    have rq: "rtos_queue env (w_queue (wheap s1 w)) cap" using Cons.prems(1) q by simp
    have jobs: "jobs_of w s1 = Job f a # map (\<lambda>(f, a). Job f a) js"
      using Cons.prems(2) q j by simp
    note ask = ask_queue_Cons [OF rq jobs]
    have unf: "worker_do_work env exec w s
        = do { s3 \<leftarrow> exec f a (ask_queue env w s1); worker_do_work env exec w s3 }"
      using Some ask(1) by (subst worker_do_work.simps) (simp add: ask_queue_def)
    show ?thesis
    proof (cases "exec f a (ask_queue env w s1)")
      case None
      with unf Some j show ?thesis by simp
    next
      case s2: (Some s2)
      note q2 = quietD [OF assms(1) s2]
      have "worker_do_work env exec w s2 = drain env exec w js s2"
        using q2 ask(2) rq by (intro Cons.IH) simp_all
      with unf s2 Some j show ?thesis by simp
    qed
  qed
qed

lemma drain_empties:
  assumes "quiet exec w" "rtos_queue env (w_queue (wheap s w)) cap"
    and "jobs_of w s = map (\<lambda>(f, a). Job f a) js" "drain env exec w js s = Some s'"
  shows "jobs_of w s' = []"
  using assms(2-4)
proof (induction js arbitrary: s)
  case Nil
  then obtain s1 where s1: "call_idle exec w s = Some s1" "s' = ask_queue env w s1" by auto
  note q = call_idle_quiet [OF assms(1) s1(1)]
  show ?case using ask_queue_empty(2) [of env s1 w cap] Nil q s1(2) by simp
next
  case (Cons j js)
  obtain f a where j: "j = (f, a)" by (cases j)
  from Cons.prems(3) j obtain s1 s2 where s1: "call_idle exec w s = Some s1"
    and s2: "exec f a (ask_queue env w s1) = Some s2" and rest: "drain env exec w js s2 = Some s'"
    by auto
  note q = call_idle_quiet [OF assms(1) s1] and q2 = quietD [OF assms(1) s2]
  have rq: "rtos_queue env (w_queue (wheap s1 w)) cap" using Cons.prems(1) q by simp
  have jobs: "jobs_of w s1 = Job f a # map (\<lambda>(f, a). Job f a) js"
    using Cons.prems(2) q j by simp
  show ?case
    using q2 ask_queue_Cons(2) [OF rq jobs] rq rest by (intro Cons.IH [of s2]) simp_all
qed

section \<open>Properties\<close>

text \<open>C18: when the functions it calls do not touch its queue, \<open>worker_do_work\<close> runs exactly the
  jobs that were pending, each once, in the order they were posted, the idle function before
  each, and it leaves the queue empty.\<close>

theorem worker_do_work_fifo:
  assumes "quiet exec w" "rtos_queue env (w_queue (wheap s w)) cap"
    and "jobs_of w s = map (\<lambda>(f, a). Job f a) js"
  shows "worker_do_work env exec w s = drain env exec w js s \<and>
    (\<forall>s'. worker_do_work env exec w s = Some s' \<longrightarrow> jobs_of w s' = [])"
  using worker_do_work_drain [OF assms] drain_empties [OF assms] by simp

text \<open>A function outside the repository: calling it leaves a mark in the history.\<close>

definition log_exec :: "env \<Rightarrow> 'z workers_scheme exec" where
  "log_exec env f a s = Some (emit env (Rtos (Call_fn f a)) s)"

lemma quiet_log_exec: "quiet (log_exec env) w"
  by (auto simp: quiet_def log_exec_def jobs_of_def io_emit)

definition boot_workers :: workers where [boot_defs]:
  "boot_workers = platform.extend boot_platform
     (workers.fields (\<lambda>_. \<lparr>w_task = 0, w_queue = 7, w_fn = Fn_null, w_arg = Arg_null\<rparr>))"

declare workers.defs [boot_defs] platform.defs [boot_defs]

definition two_jobs :: workers where
  "two_jobs = snd (worker_run (queue_env 20) 1 (Fn_ext 2) Arg_null
     (snd (worker_run (queue_env 20) 1 (Fn_ext 1) Arg_null boot_workers)))"

lemma two_jobs_pending:
  "jobs_of 1 two_jobs = map (\<lambda>(f, a). Job f a) [(Fn_ext 1, Arg_null), (Fn_ext 2, Arg_null)]"
  by (simp add: two_jobs_def worker_run_def boot_defs jobs_of_def io_emit query_def
      pdPASS_def ans0_def)

lemma drain_log_exec:
  "\<exists>s'. drain env (log_exec env) w js s = Some s'"
proof (induction js arbitrary: s)
  case Nil
  then show ?case by (auto simp: call_idle_def log_exec_def)
next
  case (Cons j js)
  then show ?case by (cases j) (auto simp: call_idle_def log_exec_def)
qed

theorem worker_do_work_fifo_witness:
  "\<exists>s'. worker_do_work (queue_env 20) (log_exec (queue_env 20)) 1 two_jobs = Some s' \<and> jobs_of 1 s' = []"
  using worker_do_work_fifo [OF quiet_log_exec rtos_queue_queue_env two_jobs_pending]
    drain_log_exec by metis

text \<open>A post to a worker whose queue has the length \<open>worker_alloc\<close> gives it answers 0 exactly
  while fewer than 20 jobs wait, and -1 otherwise; the job is appended in the first case and
  the waiting jobs are unchanged in the second.\<close>

theorem worker_run_bounded:
  assumes "rtos_queue env (w_queue (wheap s w)) 20"
  shows "fst (worker_run env w f a s) = (if length (jobs_of w s) < 20 then 0 else -1) \<and>
    jobs_of w (snd (worker_run env w f a s))
      = jobs_of w s @ (if length (jobs_of w s) < 20 then [Job f a] else [])"
proof -
  have "fst (worker_run env w f a s) = (if length (jobs_of w s) < 20 then 0 else -1)"
    using rtos_queue_send_ISR [OF assms] by (simp add: worker_run_def query_def jobs_of_def)
  then show ?thesis using run_q.post_jobs [of w env f a s] by simp
qed

theorem worker_run_bounded_witness:
  "fst (worker_run (queue_env 20) 1 (Fn_ext 3) Arg_null two_jobs) = 0 \<and>
   length (jobs_of 1 (snd (worker_run (queue_env 20) 1 (Fn_ext 3) Arg_null two_jobs))) = 3"
  using worker_run_bounded [OF rtos_queue_queue_env, where s = two_jobs and w = 1 and f = "Fn_ext 3" and a = Arg_null]
  by (simp add: two_jobs_pending)

end
