(* ===== verification/JdTimers.thy ===== *)
theory JdTimers
  imports Worker
begin

text \<open>
  The first half of main/hw-esp32.c: the context of the single-wire Jacdac bus, its three
  timers and the job worker of the timer task.
\<close>

section \<open>The context\<close>

text \<open>\<open>jacdac_ctx_t\<close>. Handles and pointers are addresses, 0 being NULL; \<open>timer_h\<close>,
  \<open>timer0_h\<close> and \<open>timer_worker_h\<close> are the fields \<open>timer\<close>, \<open>timer0\<close> and \<open>timer_worker\<close>.
  \<open>memory\<close> is the byte memory that \<open>fifo_buf\<close> points into.\<close>

record jacdac = workers +
  pin_num :: u8
  uart_num :: u8
  seen_low :: bool
  rx_ended :: bool
  in_tx :: bool
  tx_len :: u16
  rx_len :: u16
  data_left :: u16
  fifo_buf :: u32
  timer_cb :: fn
  uart_hw :: u32
  timer_h :: u32
  intr_handle :: u32
  cb_rx :: bool
  cb_tx :: bool
  cb_fall :: bool
  timer0_h :: u32
  timer_worker_h :: u32
  tim_worker :: u32
  memory :: mem

text \<open>The entry points of jacdac-c that this file calls back into; what they do to the state,
  including calling this file again, is a parameter.\<close>

type_synonym 's jd_callout = "jd_call \<Rightarrow> 's \<Rightarrow> 's option"

section \<open>Timers\<close>

definition jd_timer :: "'z jacdac_scheme exec \<Rightarrow> env \<Rightarrow> 'z jacdac_scheme \<Rightarrow> 'z jacdac_scheme option" where
  "jd_timer exec env s =
     (let s1 = target_disable_irq env s; f = timer_cb s1 in
      if f \<noteq> Fn_null then
        let s2 = s1\<lparr>timer_cb := Fn_null\<rparr>; s3 = target_enable_irq env s2
        in exec f Arg_null s3
      else Some (target_enable_irq env s1))"

definition jd_timer0 :: "'z jacdac_scheme jd_callout \<Rightarrow> 'z jacdac_scheme \<Rightarrow> 'z jacdac_scheme option" where
  "jd_timer0 jd s = do {
     s1 \<leftarrow> (if cb_rx s then jd Jd_rx_completed (s\<lparr>cb_rx := False\<rparr>) else Some s);
     s2 \<leftarrow> (if cb_tx s1 then jd Jd_tx_completed (s1\<lparr>cb_tx := False\<rparr>) else Some s1);
     (if cb_fall s2 then jd Jd_line_falling (s2\<lparr>cb_fall := False\<rparr>) else Some s2)
   }"

definition jd_tim_worker ::
    "'z jacdac_scheme exec \<Rightarrow> env \<Rightarrow> 'z jacdac_scheme \<Rightarrow> 'z jacdac_scheme option" where
  "jd_tim_worker exec env s = worker_do_work env exec (tim_worker s) s"

definition tim_worker_run ::
    "env \<Rightarrow> fn \<Rightarrow> fn_arg \<Rightarrow> 'z jacdac_scheme \<Rightarrow> int \<times> 'z jacdac_scheme" where
  "tim_worker_run env f a s =
     (let (r, s1) = worker_run env (tim_worker s) f a s in
      if r = 0 then
        (r, emits env [Sys (TimerStop T_worker), Sys (TimerStartOnce T_worker 0)] s1)
      else (r, s1))"

text \<open>\<open>esp_timer_create\<close> stores the handle when it succeeds.\<close>

definition created :: "ans \<Rightarrow> u32 \<Rightarrow> u32" where
  "created a old = (if a_ret a = 0 then a_ptr a else old)"

definition tim_init :: "env \<Rightarrow> 'z jacdac_scheme \<Rightarrow> 'z jacdac_scheme option" where
  "tim_init env s = do {
     let (a, s1) = ext env (Sys (TimerCreate T_timer ''JD timeout'')) s;
     let s1 = s1\<lparr>timer_h := created a (timer_h s1)\<rparr>;
     let (a, s2) = ext env (Sys (TimerCreate T_timer0 ''JD callback'')) s1;
     let s2 = s2\<lparr>timer0_h := created a (timer0_h s2)\<rparr>;
     let (a, s3) = ext env (Sys (TimerCreate T_worker ''tim_worker'')) s2;
     let s3 = s3\<lparr>timer_worker_h := created a (timer_worker_h s3)\<rparr>;
     (w, s4) \<leftarrow> worker_alloc env s3;
     Some (s4\<lparr>tim_worker := w\<rparr>)
   }"

definition schedule_timer0 :: "env \<Rightarrow> 'z jacdac_scheme \<Rightarrow> 'z jacdac_scheme" where
  "schedule_timer0 env s = emits env [Sys (TimerStop T_timer0), Sys (TimerStartOnce T_timer0 0)] s"

definition tim_get_micros :: "env \<Rightarrow> 'z jacdac_scheme \<Rightarrow> u64 \<times> 'z jacdac_scheme" where
  "tim_get_micros env s = (let (a, s1) = ext env (Sys GetTime) s in (of_nat (a_val a), s1))"

text \<open>\<open>overhead\<close> is the constant \<open>JD_TIM_OVERHEAD\<close> of jacdac-c.\<close>

definition tim_set_timer ::
    "int \<Rightarrow> env \<Rightarrow> int \<Rightarrow> fn \<Rightarrow> 'z jacdac_scheme \<Rightarrow> 'z jacdac_scheme" where
  "tim_set_timer overhead env delta callback s =
     (let delta = delta - overhead;
          delta = (if delta < 20 then 20 else delta);
          s1 = target_disable_irq env s;
          s2 = (if timer_h s1 \<noteq> 0 then
                  let t1 = s1\<lparr>timer_cb := callback\<rparr>;
                      t2 = emit env (Sys (TimerStop T_timer)) t1
                  in if callback \<noteq> Fn_null
                     then emit env (Sys (TimerStartOnce T_timer delta)) t2 else t2
                else s1)
      in target_enable_irq env s2)"

section \<open>Frames\<close>

lemma jacdac_emit [simp]:
  "pin_num (emit env c s) = pin_num s" "uart_num (emit env c s) = uart_num s"
  "seen_low (emit env c s) = seen_low s" "rx_ended (emit env c s) = rx_ended s"
  "in_tx (emit env c s) = in_tx s" "tx_len (emit env c s) = tx_len s"
  "rx_len (emit env c s) = rx_len s" "data_left (emit env c s) = data_left s"
  "fifo_buf (emit env c s) = fifo_buf s" "timer_cb (emit env c s) = timer_cb s"
  "uart_hw (emit env c s) = uart_hw s" "timer_h (emit env c s) = timer_h s"
  "intr_handle (emit env c s) = intr_handle s" "cb_rx (emit env c s) = cb_rx s"
  "cb_tx (emit env c s) = cb_tx s" "cb_fall (emit env c s) = cb_fall s"
  "timer0_h (emit env c s) = timer0_h s" "timer_worker_h (emit env c s) = timer_worker_h s"
  "tim_worker (emit env c s) = tim_worker s" "memory (emit env c s) = memory s"
  by (simp_all add: emit_def)

lemma jacdac_irq [simp]:
  "in_tx (target_disable_irq env s) = in_tx s" "in_tx (target_enable_irq env s) = in_tx s"
  "seen_low (target_disable_irq env s) = seen_low s" "seen_low (target_enable_irq env s) = seen_low s"
  "rx_ended (target_disable_irq env s) = rx_ended s" "rx_ended (target_enable_irq env s) = rx_ended s"
  "tx_len (target_disable_irq env s) = tx_len s" "tx_len (target_enable_irq env s) = tx_len s"
  "rx_len (target_disable_irq env s) = rx_len s" "rx_len (target_enable_irq env s) = rx_len s"
  "fifo_buf (target_disable_irq env s) = fifo_buf s" "fifo_buf (target_enable_irq env s) = fifo_buf s"
  "timer_cb (target_disable_irq env s) = timer_cb s" "timer_cb (target_enable_irq env s) = timer_cb s"
  "timer_h (target_disable_irq env s) = timer_h s" "timer_h (target_enable_irq env s) = timer_h s"
  "uart_hw (target_disable_irq env s) = uart_hw s" "uart_hw (target_enable_irq env s) = uart_hw s"
  "intr_handle (target_disable_irq env s) = intr_handle s"
  "intr_handle (target_enable_irq env s) = intr_handle s"
  "cb_rx (target_disable_irq env s) = cb_rx s" "cb_rx (target_enable_irq env s) = cb_rx s"
  "cb_tx (target_disable_irq env s) = cb_tx s" "cb_tx (target_enable_irq env s) = cb_tx s"
  "cb_fall (target_disable_irq env s) = cb_fall s" "cb_fall (target_enable_irq env s) = cb_fall s"
  "memory (target_disable_irq env s) = memory s" "memory (target_enable_irq env s) = memory s"
  "pin_num (target_disable_irq env s) = pin_num s" "pin_num (target_enable_irq env s) = pin_num s"
  by (simp_all add: target_disable_irq_def target_enable_irq_def Let_def)

section \<open>The job queue of the timer task\<close>

definition tim_jobs :: "'z jacdac_scheme \<Rightarrow> q_item list" where
  "tim_jobs s = jobs_of (tim_worker s) s"

lemma worker_run_frame [simp]:
  "tim_worker (snd (worker_run env w f a s)) = tim_worker s"
  "wheap (snd (worker_run env w f a s)) = wheap s"
  by (simp_all add: worker_run_def)

lemma tim_worker_run_fst: "fst (tim_worker_run env f a s) = fst (worker_run env (tim_worker s) f a s)"
  by (simp add: tim_worker_run_def split: prod.split)

lemma tim_worker_run_jobs:
  "tim_jobs (snd (tim_worker_run env f a s))
     = jobs_of (tim_worker s) (snd (worker_run env (tim_worker s) f a s))"
proof -
  obtain r s1 where r: "worker_run env (tim_worker s) f a s = (r, s1)"
    by (cases "worker_run env (tim_worker s) f a s")
  then have "tim_worker s1 = tim_worker s"
    using worker_run_frame(1) [of env "tim_worker s" f a s] by simp
  with r show ?thesis
    by (simp add: tim_worker_run_def tim_jobs_def jobs_of_def io_emit emits_Cons)
qed

interpretation tim_q: job_queue "tim_worker_run env" tim_jobs for env
proof unfold_locales
  fix f a and s :: "'a jacdac_scheme"
  show "fst (tim_worker_run env f a s) = 0 \<or> fst (tim_worker_run env f a s) = -1"
    by (simp add: tim_worker_run_fst run_q.post_ret)
  show "fst (tim_worker_run env f a s) = 0 \<Longrightarrow>
      tim_jobs (snd (tim_worker_run env f a s)) = tim_jobs s @ [Job f a]"
    unfolding tim_worker_run_fst tim_worker_run_jobs by (simp add: run_q.post_ok tim_jobs_def)
  show "fst (tim_worker_run env f a s) \<noteq> 0 \<Longrightarrow>
      tim_jobs (snd (tim_worker_run env f a s)) = tim_jobs s"
    unfolding tim_worker_run_fst tim_worker_run_jobs by (simp add: run_q.post_full tim_jobs_def)
qed


section \<open>Properties\<close>

text \<open>A callback into jacdac-c that only leaves a mark in the history.\<close>

definition log_jd :: "env \<Rightarrow> 'z jacdac_scheme jd_callout" where
  "log_jd env c s = Some (emit env (Jd c) s)"

text \<open>The deferred callback delivers exactly the events that are pending, each once and in the
  order receive, transmit, falling line, and leaves none pending.\<close>

theorem jd_timer0_delivers:
  "jd_timer0 (log_jd env) s = Some (emits env
     (map Jd ((if cb_rx s then [Jd_rx_completed] else []) @ (if cb_tx s then [Jd_tx_completed] else []) @
        (if cb_fall s then [Jd_line_falling] else [])))
     (s\<lparr>cb_rx := False, cb_tx := False, cb_fall := False\<rparr>))"
  by (simp add: jd_timer0_def log_jd_def emits_Cons) (simp add: emit_def)

text \<open>Setting the timer arms the hardware once, after stopping it, with the delay less the
  overhead but never less than 20 microseconds; when it fires the callback runs once, outside
  the lock and already unregistered, and firing again runs nothing.\<close>

theorem timer_one_shot:
  assumes "timer_h s \<noteq> 0" "f \<noteq> Fn_null" "t = tim_set_timer overhead env delta f s"
  shows "io t = io (target_enable_irq env (emits env [Sys (TimerStop T_timer),
           Sys (TimerStartOnce T_timer (max 20 (delta - overhead)))] (target_disable_irq env s))) \<and>
    (\<exists>u. jd_timer exec env t = exec f Arg_null u \<and> timer_cb u = Fn_null \<and> int_level u = int_level s) \<and>
    (\<forall>v. timer_cb v = Fn_null \<longrightarrow>
       jd_timer exec env v = Some (target_enable_irq env (target_disable_irq env v)))"
proof -
  have "timer_cb t = f" "int_level t = int_level s"
    using assms by (simp_all add: tim_set_timer_def Let_def)
  then show ?thesis
    using assms by (auto simp: tim_set_timer_def jd_timer_def Let_def emits_Cons max_def
        target_disable_irq_def target_enable_irq_def emit_def)
qed

definition boot_jacdac :: jacdac where [boot_defs]:
  "boot_jacdac = \<lparr>io = [], int_level = 0, id_addr = 0, dcfg_result = 0,
     wheap = (\<lambda>_. \<lparr>w_task = 0, w_queue = 7, w_fn = Fn_null, w_arg = Arg_null\<rparr>),
     pin_num = 0, uart_num = 0, seen_low = False, rx_ended = False, in_tx = False,
     tx_len = 0, rx_len = 0, data_left = 0, fifo_buf = 0, timer_cb = Fn_null, uart_hw = 0,
     timer_h = 1, intr_handle = 0, cb_rx = False, cb_tx = False, cb_fall = False,
     timer0_h = 2, timer_worker_h = 3, tim_worker = 1, memory = (\<lambda>_. 0)\<rparr>"

declare jacdac.defs [boot_defs]

theorem timer_one_shot_witness:
  "\<exists>u. jd_timer (log_exec (queue_env 20)) (queue_env 20)
       (tim_set_timer 12 (queue_env 20) 100 (Fn_ext 1) boot_jacdac)
     = log_exec (queue_env 20) (Fn_ext 1) Arg_null u \<and> timer_cb u = Fn_null"
  using timer_one_shot [of boot_jacdac "Fn_ext 1" _ 12 "queue_env 20" 100 "log_exec (queue_env 20)"]
  by (auto simp: boot_jacdac_def)

end
