(* ===== verification/JdUart.thy ===== *)
theory JdUart
  imports JdTimers
begin

text \<open>
  The second half of main/hw-esp32.c: the single-wire Jacdac bus on a UART. Sending and
  receiving share one pin; the interrupt handler, the transmit and receive entry points and
  \<open>uart_disable\<close> move one context between idle, receiving and transmitting.

  \<open>flen\<close> is the hardware constant \<open>UART_FIFO_LEN\<close>, \<open>num_max\<close> is \<open>UART_NUM_MAX\<close>.
\<close>

section \<open>Pins\<close>

definition pin_rx :: "env \<Rightarrow> 'z jacdac_scheme \<Rightarrow> 'z jacdac_scheme" where
  "pin_rx env s = emits env
     [Gpio (PinFuncSelectGpio (pin_num s)), Gpio (PinPullUpBit (pin_num s)),
      Gpio (PinInputEnable (pin_num s)), Gpio (GpioOutputDisable (pin_num s)),
      Gpio (MatrixIn (pin_num s))] s"

definition pin_tx :: "env \<Rightarrow> 'z jacdac_scheme \<Rightarrow> 'z jacdac_scheme" where
  "pin_tx env s = emits env
     [Gpio MatrixInHigh, Gpio (GpioIntTypeDisable (pin_num s)),
      Gpio (PinFuncSelectGpio (pin_num s)), Gpio (GpioSetLevel (pin_num s) 1),
      Gpio (MatrixOut (pin_num s))] s"

section \<open>FIFOs\<close>

text \<open>How many bytes \<open>fill_fifo\<close> hands to the hardware, and the step that hands them over.\<close>

definition tx_space :: "int \<Rightarrow> int \<Rightarrow> int \<Rightarrow> int" where
  "tx_space flen cnt len = (let space = flen - cnt in if len < space then len else space)"

definition write_tx :: "env \<Rightarrow> int \<Rightarrow> 'z jacdac_scheme \<Rightarrow> 'z jacdac_scheme" where
  "write_tx env space s =
     (let n = unat (word_of_int space :: u32);
          s1 = emit env (Uart (WriteTxfifo (mem_read (memory s) (fifo_buf s) n))) s
      in s1\<lparr>fifo_buf := fifo_buf s1 + word_of_int space, tx_len := tx_len s1 - word_of_int space\<rparr>)"

definition fill_fifo :: "int \<Rightarrow> env \<Rightarrow> 'z jacdac_scheme \<Rightarrow> 'z jacdac_scheme option" where
  "fill_fifo flen env s =
     (if tx_len s = 0 then Some s
      else do {
        deref (uart_hw s);
        let (c, s1) = ext env (Uart TxfifoCnt) s;
        let s2 = write_tx env (tx_space flen (int (a_val c)) (int (unat (tx_len s1)))) s1;
        let s3 = (if tx_len s2 = 0 then
                    emits env [Uart (TxBreak 14), Uart (IntClr {TX_BRK_DONE}),
                               Uart (IntEnaBit TX_BRK_DONE True)] s2
                  else s2);
        Some (emits env [Uart (IntClr {TXFIFO_EMPTY}), Uart (TxfifoEmptyThrhd 10),
                         Uart (IntEnaBit TXFIFO_EMPTY True)] s3)
      })"

text \<open>The part of \<open>read_fifo\<close> that takes \<open>n\<close> bytes into the buffer.\<close>

definition take_rx :: "env \<Rightarrow> nat \<Rightarrow> 'z jacdac_scheme \<Rightarrow> 'z jacdac_scheme" where
  "take_rx env n s =
     (if n \<noteq> 0 then
        let s1 = s\<lparr>rx_len := rx_len s - of_nat n\<rparr>;
            (r, s2) = ext env (Uart (ReadRxfifo n)) s1
        in s2\<lparr>memory := mem_write (memory s2) (fifo_buf s2) (take n (a_bytes r)),
              fifo_buf := fifo_buf s2 + of_nat n\<rparr>
      else s)"

definition read_fifo :: "bool \<Rightarrow> env \<Rightarrow> 'z jacdac_scheme \<Rightarrow> 'z jacdac_scheme option" where
  "read_fifo force env s = do {
     deref (uart_hw s);
     let (c, s1) = ext env (Uart RxfifoCnt) s;
     let rx_fifo_len = a_val c;
     if \<not> force \<and> fifo_buf s1 = 0 \<and> rx_fifo_len < 120 - 1 then Some s1
     else if rx_fifo_len \<noteq> 0 then
       let needs_rst = (rx_fifo_len > unat (rx_len s1));
           n = (if needs_rst then unat (rx_len s1) else rx_fifo_len);
           s2 = take_rx env n s1
       in Some (if needs_rst then emit env (Uart RxfifoRst) s2 else s2)
     else Some s1
   }"

section \<open>Receive start, interrupt handler\<close>

definition END_RX_FLAGS :: "uart_int set" where
  "END_RX_FLAGS = {RXFIFO_TOUT, BRK_DET, FRM_ERR}"

text \<open>\<open>int_ena.val |= END_RX_FLAGS | UART_RXFIFO_FULL_INT_ENA\<close>: a read and a write.\<close>

definition enable_end_rx :: "env \<Rightarrow> 'z jacdac_scheme \<Rightarrow> 'z jacdac_scheme" where
  "enable_end_rx env s =
     (let (e, s1) = ext env (Uart IntEna) s
      in emit env (Uart (SetIntEna (a_flags e \<union> END_RX_FLAGS \<union> {RXFIFO_FULL}))) s1)"

definition start_bg_rx :: "env \<Rightarrow> 'z jacdac_scheme \<Rightarrow> 'z jacdac_scheme option" where
  "start_bg_rx env s = do {
     jd_assert (\<not> in_tx s);
     s1 \<leftarrow> read_fifo True env s;
     let s2 = s1\<lparr>seen_low := True\<rparr>;
     let s3 = enable_end_rx env s2;
     Some (if fifo_buf s3 = 0 then schedule_timer0 env (s3\<lparr>cb_fall := True\<rparr>) else s3)
   }"

text \<open>The context fields that \<open>uart_disable\<close> clears.\<close>

definition clear_ctx :: "'z jacdac_scheme \<Rightarrow> 'z jacdac_scheme" where
  "clear_ctx s = s\<lparr>seen_low := False, cb_fall := False, rx_len := 0, tx_len := 0,
                   fifo_buf := 0, rx_ended := False\<rparr>"

definition uart_disable :: "env \<Rightarrow> 'z jacdac_scheme \<Rightarrow> 'z jacdac_scheme option" where
  "uart_disable env s = do {
     let s1 = target_disable_irq env s;
     deref (uart_hw s1);
     let (st, s2) = ext env (Uart IntSt) s1;
     let s3 = emits env [Uart (IntClr (a_flags st)), Uart (SetIntEna {BRK_DET})] s2;
     let s4 = clear_ctx s3;
     s5 \<leftarrow> read_fifo True env s4;
     Some (target_enable_irq env (pin_rx env s5))
   }"

text \<open>The branches of the handler, after the status has been read and cleared.\<close>

definition isr_tx_done :: "env \<Rightarrow> 'z jacdac_scheme \<Rightarrow> 'z jacdac_scheme option" where
  "isr_tx_done env s = do {
     let s1 = emit env (Uart (TxdBrk 0)) s;
     let s2 = s1\<lparr>in_tx := False\<rparr>;
     s3 \<leftarrow> uart_disable env s2;
     Some (schedule_timer0 env (s3\<lparr>cb_tx := True\<rparr>))
   }"

definition isr_end_rx :: "env \<Rightarrow> 'z jacdac_scheme \<Rightarrow> 'z jacdac_scheme option" where
  "isr_end_rx env s = do {
     let s1 = s\<lparr>data_left := rx_len s\<rparr>;
     let had_buf = (fifo_buf s1 \<noteq> 0);
     s2 \<leftarrow> uart_disable env s1;
     Some (if had_buf then schedule_timer0 env (s2\<lparr>cb_rx := True\<rparr>) else s2\<lparr>rx_ended := True\<rparr>)
   }"

definition uart_isr :: "int \<Rightarrow> env \<Rightarrow> 'z jacdac_scheme \<Rightarrow> 'z jacdac_scheme option" where
  "uart_isr flen env s =
     (if intr_handle s = 0 then Some s
      else do {
        deref (uart_hw s);
        let (st, s1) = ext env (Uart IntSt) s;
        let s2 = emit env (Uart (IntClr (a_flags st))) s1;
        let (e, s3) = ext env (Uart IntEna) s2;
        let status = a_flags st \<inter> a_flags e;
        s4 \<leftarrow> read_fifo False env s3;
        if \<not> seen_low s4 \<and> BRK_DET \<in> status then start_bg_rx env s4
        else if TX_BRK_DONE \<in> status then isr_tx_done env s4
        else if TXFIFO_EMPTY \<in> status then
          fill_fifo flen env (emit env (Uart (IntEnaBit TXFIFO_EMPTY False)) s4)
        else if status \<inter> END_RX_FLAGS \<noteq> {} then isr_end_rx env s4
        else Some s4
      })"

section \<open>Transmit\<close>

fun wait_line_high :: "nat \<Rightarrow> env \<Rightarrow> 'z jacdac_scheme \<Rightarrow> 'z jacdac_scheme" where
  "wait_line_high 0 env s = s"
| "wait_line_high (Suc timeout) env s =
     (let (l, s1) = ext env (Gpio (GpioGetLevel (pin_num s))) s
      in if a_val l = 0 then wait_line_high timeout env s1 else s1)"

definition tx_race :: "env \<Rightarrow> 'z jacdac_scheme \<Rightarrow> 'z jacdac_scheme option" where
  "tx_race env s =
     (let s1 = wait_line_high 50000 env s; s2 = pin_rx env s1
      in if \<not> seen_low s2 then start_bg_rx env s2 else Some s2)"

definition pin_mask :: "u8 \<Rightarrow> u32" where
  "pin_mask p = push_bit (unat p) 1"

text \<open>\<open>probe_and_set\<close>: drive the pin only if it still reads high.\<close>

definition probe_and_set :: "env \<Rightarrow> u32 \<Rightarrow> 'z jacdac_scheme \<Rightarrow> 'z jacdac_scheme" where
  "probe_and_set env msk s =
     (let (i, s1) = ext env (Gpio GpioInRead) s
      in emit env (Gpio (GpioEnableW1ts (of_nat (a_val i) AND msk))) s1)"

text \<open>From the point where the pin is driven low to the end of the function.\<close>

definition drive_tx ::
    "int \<Rightarrow> env \<Rightarrow> u32 \<Rightarrow> u32 \<Rightarrow> 'z jacdac_scheme \<Rightarrow> (int \<times> 'z jacdac_scheme) option" where
  "drive_tx flen env data numbytes s = do {
     jd_assert (\<not> seen_low s);
     let s1 = s\<lparr>in_tx := True\<rparr>;
     s2 \<leftarrow> target_wait_us env 12 s1;
     let s3 = emit env (Gpio (GpioSetLevel (pin_num s2) 1)) s2;
     s4 \<leftarrow> target_wait_us env 50 s3;
     let s5 = pin_tx env s4;
     let s6 = s5\<lparr>fifo_buf := data, tx_len := ucast numbytes\<rparr>;
     let s7 = emit env (Uart IntClrAll) s6;
     s8 \<leftarrow> fill_fifo flen env s7;
     Some (0, target_enable_irq env s8)
   }"

text \<open>The test of the busy line; the raw break flag is read only if the first two fail.\<close>

definition line_busy :: "env \<Rightarrow> 'z jacdac_scheme \<Rightarrow> bool \<times> 'z jacdac_scheme" where
  "line_busy env s =
     (if intr_handle s = 0 \<or> seen_low s then (True, s)
      else let (r, s1) = ext env (Uart IntRawBrkDet) s in (a_val r \<noteq> 0, s1))"

definition uart_start_tx ::
    "'z jacdac_scheme jd_callout \<Rightarrow> int \<Rightarrow> env \<Rightarrow> u32 \<Rightarrow> u32 \<Rightarrow> 'z jacdac_scheme \<Rightarrow>
     (int \<times> 'z jacdac_scheme) option" where
  "uart_start_tx jd flen env data numbytes s =
     (if uart_hw s = 0 then do { s1 \<leftarrow> jd Jd_tx_completed s; Some (0, s1) }
      else if tx_len s \<noteq> 0 \<or> in_tx s then None
      else do {
        let s1 = target_disable_irq env s;
        let (busy, s2) = line_busy env s1;
        if busy then Some (-1, target_enable_irq env s2)
        else do {
          let s3 = emits env [Gpio MatrixInHigh, Gpio (PinFuncSelectGpio (pin_num s2)),
                              Gpio (GpioSetLevel (pin_num s2) 0)] s2;
          let s4 = probe_and_set env (pin_mask (pin_num s3)) s3;
          let (e, s5) = ext env (Gpio GpioEnableRead) s4;
          if of_nat (a_val e) AND pin_mask (pin_num s5) = 0 then do {
            s6 \<leftarrow> tx_race env s5;
            Some (-1, target_enable_irq env s6)
          }
          else drive_tx flen env data numbytes s5
        }
      })"

section \<open>Receive entry points, set-up\<close>

definition uart_flush_rx :: "env \<Rightarrow> 'z jacdac_scheme \<Rightarrow> 'z jacdac_scheme option" where
  "uart_flush_rx env s = do {
     s1 \<leftarrow> read_fifo True env (target_disable_irq env s);
     Some (target_enable_irq env s1)
   }"

definition uart_start_rx ::
    "'z jacdac_scheme jd_callout \<Rightarrow> env \<Rightarrow> u32 \<Rightarrow> u32 \<Rightarrow> 'z jacdac_scheme \<Rightarrow> 'z jacdac_scheme option" where
  "uart_start_rx jd env data maxbytes s =
     (if rx_len s \<noteq> 0 \<or> tx_len s \<noteq> 0 then None
      else do {
        let s1 = target_disable_irq env s;
        let s2 = s1\<lparr>fifo_buf := data, rx_len := ucast maxbytes\<rparr>;
        let s3 = target_enable_irq env s2;
        s4 \<leftarrow> uart_flush_rx env s3;
        if rx_ended s4 then
          let s5 = target_disable_irq env s4;
              s6 = s5\<lparr>seen_low := False, rx_ended := False, rx_len := 0, fifo_buf := 0\<rparr>;
              s7 = target_enable_irq env s6
          in jd Jd_rx_completed s7
        else Some s4
      })"

definition uart_init :: "nat \<Rightarrow> env \<Rightarrow> 'z jacdac_scheme \<Rightarrow> 'z jacdac_scheme option" where
  "uart_init num_max env s = do {
     let (p, s1) = ext env (Sys (DcfgPin ''jacdac.pin'')) s;
     let pinnum = (of_nat (a_val p) :: u8);
     if pinnum = NO_PIN then Some s1
     else do {
       jd_assert (1 \<le> unat pinnum \<and> unat pinnum < 32);
       let s2 = s1\<lparr>uart_num := of_nat (num_max - 1)\<rparr>;
       let (h, s3) = ext env (Uart (UartHw (unat (uart_num s2)))) s2;
       let s4 = s3\<lparr>uart_hw := a_ptr h, pin_num := pinnum\<rparr>;
       let s5 = emit env (Uart (ModuleEnable (unat (uart_num s4)))) s4;
       let (r, s6) = ext env (Uart (UartParamConfig (unat (uart_num s5)))) s5;
       chk (a_ret r);
       let (r, s7) = ext env (Uart (IntrAlloc (unat (uart_num s6)))) s6;
       chk (a_ret r);
       let s7 = s7\<lparr>intr_handle := a_ptr r\<rparr>;
       let (r, s8) = ext env (Uart (UartIntrConfig (unat (uart_num s7)))) s7;
       chk (a_ret r);
       let s9 = emit env (Gpio (GpioConfigInput (pin_num s8))) s8;
       uart_disable env s9
     }
   }"

definition uart_wait_high :: int where
  "uart_wait_high = 0"

section \<open>What the operations leave alone\<close>

lemma take_rx_frame [simp]:
  "in_tx (take_rx env n s) = in_tx s" "seen_low (take_rx env n s) = seen_low s"
  "tx_len (take_rx env n s) = tx_len s" "rx_ended (take_rx env n s) = rx_ended s"
  "cb_rx (take_rx env n s) = cb_rx s" "cb_tx (take_rx env n s) = cb_tx s"
  "cb_fall (take_rx env n s) = cb_fall s" "int_level (take_rx env n s) = int_level s"
  "uart_hw (take_rx env n s) = uart_hw s" "pin_num (take_rx env n s) = pin_num s"
  "intr_handle (take_rx env n s) = intr_handle s" "timer_cb (take_rx env n s) = timer_cb s"
  by (simp_all add: take_rx_def Let_def emit_def)

lemma read_fifo_frame:
  assumes "read_fifo force env s = Some s'"
  shows "in_tx s' = in_tx s \<and> seen_low s' = seen_low s \<and> tx_len s' = tx_len s \<and>
    rx_ended s' = rx_ended s \<and> cb_rx s' = cb_rx s \<and> cb_tx s' = cb_tx s \<and> cb_fall s' = cb_fall s \<and>
    int_level s' = int_level s \<and> uart_hw s' = uart_hw s \<and> pin_num s' = pin_num s \<and>
    intr_handle s' = intr_handle s \<and> timer_cb s' = timer_cb s"
  using assms by (clarsimp simp: read_fifo_def Let_def split: if_splits)

lemma read_fifo_returns: "uart_hw s \<noteq> 0 \<Longrightarrow> \<exists>s'. read_fifo force env s = Some s'"
  by (simp add: read_fifo_def Let_def)

lemma emits_frame [simp]:
  "in_tx (emits env cs s) = in_tx s" "seen_low (emits env cs s) = seen_low s"
  "tx_len (emits env cs s) = tx_len s" "rx_len (emits env cs s) = rx_len s"
  "rx_ended (emits env cs s) = rx_ended s" "fifo_buf (emits env cs s) = fifo_buf s"
  "cb_rx (emits env cs s) = cb_rx s" "cb_tx (emits env cs s) = cb_tx s"
  "cb_fall (emits env cs s) = cb_fall s" "int_level (emits env cs s) = int_level s"
  "uart_hw (emits env cs s) = uart_hw s" "pin_num (emits env cs s) = pin_num s"
  "intr_handle (emits env cs s) = intr_handle s" "timer_cb (emits env cs s) = timer_cb s"
  "memory (emits env cs s) = memory s"
  by (induction cs arbitrary: s) (simp_all add: emits_Cons)

lemma pin_rx_frame [simp]:
  "in_tx (pin_rx env s) = in_tx s" "seen_low (pin_rx env s) = seen_low s"
  "tx_len (pin_rx env s) = tx_len s" "rx_len (pin_rx env s) = rx_len s"
  "rx_ended (pin_rx env s) = rx_ended s" "fifo_buf (pin_rx env s) = fifo_buf s"
  "cb_rx (pin_rx env s) = cb_rx s" "cb_tx (pin_rx env s) = cb_tx s"
  "cb_fall (pin_rx env s) = cb_fall s" "int_level (pin_rx env s) = int_level s"
  "uart_hw (pin_rx env s) = uart_hw s" "pin_num (pin_rx env s) = pin_num s"
  "intr_handle (pin_rx env s) = intr_handle s" "memory (pin_rx env s) = memory s"
  by (simp_all add: pin_rx_def)

lemma pin_tx_frame [simp]:
  "in_tx (pin_tx env s) = in_tx s" "seen_low (pin_tx env s) = seen_low s"
  "tx_len (pin_tx env s) = tx_len s" "int_level (pin_tx env s) = int_level s"
  "uart_hw (pin_tx env s) = uart_hw s" "memory (pin_tx env s) = memory s"
  by (simp_all add: pin_tx_def)

lemma schedule_timer0_frame [simp]:
  "in_tx (schedule_timer0 env s) = in_tx s" "seen_low (schedule_timer0 env s) = seen_low s"
  "tx_len (schedule_timer0 env s) = tx_len s" "rx_len (schedule_timer0 env s) = rx_len s"
  "rx_ended (schedule_timer0 env s) = rx_ended s" "fifo_buf (schedule_timer0 env s) = fifo_buf s"
  "cb_rx (schedule_timer0 env s) = cb_rx s" "cb_tx (schedule_timer0 env s) = cb_tx s"
  "cb_fall (schedule_timer0 env s) = cb_fall s" "int_level (schedule_timer0 env s) = int_level s"
  "uart_hw (schedule_timer0 env s) = uart_hw s" "memory (schedule_timer0 env s) = memory s"
  by (simp_all add: schedule_timer0_def)

lemma polled_frame [simp]:
  "in_tx (polled env n s) = in_tx s" "seen_low (polled env n s) = seen_low s"
  "tx_len (polled env n s) = tx_len s" "int_level (polled env n s) = int_level s"
  "uart_hw (polled env n s) = uart_hw s" "memory (polled env n s) = memory s"
  by (simp_all add: polled_def)

lemma target_wait_us_result:
  "target_wait_us env us s = Some s' \<Longrightarrow> \<exists>n. s' = polled env n s"
  by (auto simp: target_wait_us_def Let_def dest!: wait_until_result) (metis polled_Suc)

lemma target_wait_us_frame:
  "target_wait_us env us s = Some s' \<Longrightarrow>
   in_tx s' = in_tx s \<and> seen_low s' = seen_low s \<and> tx_len s' = tx_len s \<and> int_level s' = int_level s \<and>
   uart_hw s' = uart_hw s \<and> memory s' = memory s"
  by (auto dest!: target_wait_us_result)

lemma write_tx_frame [simp]:
  "in_tx (write_tx env n s) = in_tx s" "seen_low (write_tx env n s) = seen_low s"
  "rx_len (write_tx env n s) = rx_len s" "rx_ended (write_tx env n s) = rx_ended s"
  "cb_rx (write_tx env n s) = cb_rx s" "cb_tx (write_tx env n s) = cb_tx s"
  "cb_fall (write_tx env n s) = cb_fall s" "int_level (write_tx env n s) = int_level s"
  "uart_hw (write_tx env n s) = uart_hw s" "memory (write_tx env n s) = memory s"
  by (simp_all add: write_tx_def Let_def)

lemma fill_fifo_frame:
  "fill_fifo flen env s = Some s' \<Longrightarrow>
   in_tx s' = in_tx s \<and> seen_low s' = seen_low s \<and> rx_len s' = rx_len s \<and> rx_ended s' = rx_ended s \<and>
   cb_rx s' = cb_rx s \<and> cb_tx s' = cb_tx s \<and> cb_fall s' = cb_fall s \<and> int_level s' = int_level s \<and>
   uart_hw s' = uart_hw s \<and> memory s' = memory s"
  by (clarsimp simp: fill_fifo_def Let_def split: if_splits)

lemma clear_ctx_frame [simp]:
  "in_tx (clear_ctx s) = in_tx s" "\<not> seen_low (clear_ctx s)" "tx_len (clear_ctx s) = 0"
  "rx_len (clear_ctx s) = 0" "\<not> rx_ended (clear_ctx s)" "fifo_buf (clear_ctx s) = 0"
  "cb_rx (clear_ctx s) = cb_rx s" "cb_tx (clear_ctx s) = cb_tx s" "\<not> cb_fall (clear_ctx s)"
  "int_level (clear_ctx s) = int_level s" "uart_hw (clear_ctx s) = uart_hw s"
  "pin_num (clear_ctx s) = pin_num s" "memory (clear_ctx s) = memory s"
  by (simp_all add: clear_ctx_def)

lemma uart_disable_result:
  "uart_disable env s = Some s' \<Longrightarrow>
   in_tx s' = in_tx s \<and> \<not> seen_low s' \<and> \<not> cb_fall s' \<and> tx_len s' = 0 \<and> \<not> rx_ended s' \<and>
   cb_rx s' = cb_rx s \<and> cb_tx s' = cb_tx s \<and> int_level s' = int_level s \<and> uart_hw s' = uart_hw s"
  by (clarsimp simp: uart_disable_def Let_def split: if_splits dest!: read_fifo_frame)

lemma enable_end_rx_frame [simp]:
  "in_tx (enable_end_rx env s) = in_tx s" "seen_low (enable_end_rx env s) = seen_low s"
  "tx_len (enable_end_rx env s) = tx_len s" "rx_len (enable_end_rx env s) = rx_len s"
  "rx_ended (enable_end_rx env s) = rx_ended s" "fifo_buf (enable_end_rx env s) = fifo_buf s"
  "cb_rx (enable_end_rx env s) = cb_rx s" "cb_tx (enable_end_rx env s) = cb_tx s"
  "cb_fall (enable_end_rx env s) = cb_fall s" "int_level (enable_end_rx env s) = int_level s"
  "uart_hw (enable_end_rx env s) = uart_hw s" "memory (enable_end_rx env s) = memory s"
  by (simp_all add: enable_end_rx_def)

lemma start_bg_rx_result:
  "start_bg_rx env s = Some s' \<Longrightarrow>
   \<not> in_tx s \<and> \<not> in_tx s' \<and> seen_low s' \<and> tx_len s' = tx_len s \<and> rx_ended s' = rx_ended s \<and>
   int_level s' = int_level s \<and> uart_hw s' = uart_hw s"
  by (clarsimp simp: start_bg_rx_def Let_def split: if_splits dest!: read_fifo_frame)

lemma wait_line_high_frame [simp]:
  "in_tx (wait_line_high n env s) = in_tx s" "seen_low (wait_line_high n env s) = seen_low s"
  "tx_len (wait_line_high n env s) = tx_len s" "int_level (wait_line_high n env s) = int_level s"
  "uart_hw (wait_line_high n env s) = uart_hw s" "rx_ended (wait_line_high n env s) = rx_ended s"
  by (induction n arbitrary: s) (simp_all add: Let_def)

section \<open>Bytes on the wire\<close>

text \<open>The bytes given to the transmit FIFO so far, oldest first, and the breaks sent.\<close>

fun tx_written :: "io_log \<Rightarrow> u8 list" where
  "tx_written [] = []"
| "tx_written ((Uart (WriteTxfifo bs), a) # l) = tx_written l @ bs"
| "tx_written (_ # l) = tx_written l"

fun tx_breaks :: "io_log \<Rightarrow> nat" where
  "tx_breaks [] = 0"
| "tx_breaks ((Uart (TxBreak n), a) # l) = Suc (tx_breaks l)"
| "tx_breaks (_ # l) = tx_breaks l"

lemma tx_emit [simp]:
  "tx_written (io (emit env (Gpio g) s)) = tx_written (io s)"
  "tx_written (io (emit env (Sys y) s)) = tx_written (io s)"
  "tx_written (io (emit env (Rtos r) s)) = tx_written (io s)"
  "tx_breaks (io (emit env (Gpio g) s)) = tx_breaks (io s)"
  "tx_breaks (io (emit env (Sys y) s)) = tx_breaks (io s)"
  "tx_breaks (io (emit env (Rtos r) s)) = tx_breaks (io s)"
  by (simp_all add: io_emit)

lemma tx_time_polls [simp]:
  "tx_written (time_polls env n l) = tx_written l" "tx_breaks (time_polls env n l) = tx_breaks l"
  by (induction n arbitrary: l) simp_all

lemma tx_polled [simp]:
  "tx_written (io (polled env n s)) = tx_written (io s)"
  "tx_breaks (io (polled env n s)) = tx_breaks (io s)"
  by (simp_all add: polled_def)

lemma tx_irq [simp]:
  "tx_written (io (target_disable_irq env s)) = tx_written (io s)"
  "tx_written (io (target_enable_irq env s)) = tx_written (io s)"
  "tx_breaks (io (target_disable_irq env s)) = tx_breaks (io s)"
  "tx_breaks (io (target_enable_irq env s)) = tx_breaks (io s)"
  by (simp_all add: target_disable_irq_def target_enable_irq_def Let_def io_emit)

lemma tx_pins [simp]:
  "tx_written (io (pin_tx env s)) = tx_written (io s)"
  "tx_breaks (io (pin_tx env s)) = tx_breaks (io s)"
  "tx_written (io (pin_rx env s)) = tx_written (io s)"
  "tx_breaks (io (pin_rx env s)) = tx_breaks (io s)"
  "tx_written (io (probe_and_set env m s)) = tx_written (io s)"
  "tx_breaks (io (probe_and_set env m s)) = tx_breaks (io s)"
  by (simp_all add: pin_tx_def pin_rx_def probe_and_set_def emits_Cons)

lemma tx_wait_line_high [simp]:
  "tx_written (io (wait_line_high n env s)) = tx_written (io s)"
  "tx_breaks (io (wait_line_high n env s)) = tx_breaks (io s)"
  by (induction n arbitrary: s) (simp_all add: Let_def)

lemma tx_read_fifo:
  "read_fifo force env s = Some t \<Longrightarrow>
   tx_written (io t) = tx_written (io s) \<and> tx_breaks (io t) = tx_breaks (io s)"
  by (auto simp: read_fifo_def take_rx_def Let_def io_emit split: if_splits)

lemma tx_start_bg_rx:
  "start_bg_rx env s = Some t \<Longrightarrow>
   tx_written (io t) = tx_written (io s) \<and> tx_breaks (io t) = tx_breaks (io s)"
  by (clarsimp simp: start_bg_rx_def enable_end_rx_def schedule_timer0_def emits_Cons io_emit
      Let_def split: if_splits dest!: tx_read_fifo)

end
