(* ===== verification/JdBus.thy ===== *)
theory JdBus
  imports JdUart
begin

text \<open>
  The bus driver of main/hw-esp32.c as a state machine: every entry point is a step, callbacks
  may re-enter, and the half-duplex invariant with the interrupt-lock discipline holds in
  every reachable state.
\<close>

section \<open>The machine\<close>

text \<open>
  Every entry point of the file as one step. A callback into jacdac-c, and a function pointer
  that the timer calls, may call any entry point again, any number of times, before it comes
  back; other code may write to memory at any time.
\<close>

inductive uart_step :: "int \<Rightarrow> env \<Rightarrow> 'z jacdac_scheme \<Rightarrow> 'z jacdac_scheme \<Rightarrow> bool"
  for flen :: int and env :: env where
  isr: "uart_isr flen env s = Some t \<Longrightarrow> uart_step flen env s t"
| start_tx: "uart_start_tx jd flen env data n s = Some (r, t) \<Longrightarrow>
    (\<forall>c a b. jd c a = Some b \<longrightarrow> (uart_step flen env)\<^sup>*\<^sup>* a b) \<Longrightarrow> uart_step flen env s t"
| start_rx: "uart_start_rx jd env data n s = Some t \<Longrightarrow>
    (\<forall>c a b. jd c a = Some b \<longrightarrow> (uart_step flen env)\<^sup>*\<^sup>* a b) \<Longrightarrow> uart_step flen env s t"
| timer0: "jd_timer0 jd s = Some t \<Longrightarrow>
    (\<forall>c a b. jd c a = Some b \<longrightarrow> (uart_step flen env)\<^sup>*\<^sup>* a b) \<Longrightarrow> uart_step flen env s t"
| timer: "jd_timer exec env s = Some t \<Longrightarrow>
    (\<forall>f x a b. exec f x a = Some b \<longrightarrow> (uart_step flen env)\<^sup>*\<^sup>* a b) \<Longrightarrow> uart_step flen env s t"
| flush_rx: "uart_flush_rx env s = Some t \<Longrightarrow> uart_step flen env s t"
| disable: "uart_disable env s = Some t \<Longrightarrow> uart_step flen env s t"
| set_timer: "uart_step flen env s (tim_set_timer ov env d f s)"
| post: "uart_step flen env s (snd (tim_worker_run env f x s))"
| memory: "uart_step flen env s (s\<lparr>memory := m\<rparr>)"

text \<open>A relation that every operation keeps, callbacks included, holds between the ends of every run.\<close>

locale uart_relation =
  fixes flen :: int
    and env :: env
    and K :: "'z jacdac_scheme \<Rightarrow> 'z jacdac_scheme \<Rightarrow> bool"
  assumes K_refl: "K s s"
    and K_trans: "K s t \<Longrightarrow> K t u \<Longrightarrow> K s u"
    and K_isr: "uart_isr flen env s = Some t \<Longrightarrow> K s t"
    and K_start_tx: "uart_start_tx jd flen env data n s = Some (r, t) \<Longrightarrow>
      (\<And>c a b. jd c a = Some b \<Longrightarrow> K a b) \<Longrightarrow> K s t"
    and K_start_rx: "uart_start_rx jd env data n s = Some t \<Longrightarrow>
      (\<And>c a b. jd c a = Some b \<Longrightarrow> K a b) \<Longrightarrow> K s t"
    and K_timer0: "jd_timer0 jd s = Some t \<Longrightarrow> (\<And>c a b. jd c a = Some b \<Longrightarrow> K a b) \<Longrightarrow> K s t"
    and K_timer: "jd_timer exec env s = Some t \<Longrightarrow>
      (\<And>f x a b. exec f x a = Some b \<Longrightarrow> K a b) \<Longrightarrow> K s t"
    and K_flush_rx: "uart_flush_rx env s = Some t \<Longrightarrow> K s t"
    and K_disable: "uart_disable env s = Some t \<Longrightarrow> K s t"
    and K_set_timer: "K s (tim_set_timer ov env d f s)"
    and K_post: "K s (snd (tim_worker_run env f x s))"
    and K_memory: "K s (s\<lparr>memory := m\<rparr>)"
begin

lemma rtranclp_K: "(\<lambda>a b. P a b \<and> K a b)\<^sup>*\<^sup>* s t \<Longrightarrow> K s t"
  by (induction rule: rtranclp_induct) (blast intro: K_refl K_trans)+

lemma uart_step_K: "uart_step flen env s t \<Longrightarrow> K s t"
proof (induction rule: uart_step.induct)
  case (start_tx jd data n s r t)
  with rtranclp_K show ?case by (blast intro: K_start_tx)
next
  case (start_rx jd data n s t)
  with rtranclp_K show ?case by (blast intro: K_start_rx)
next
  case (timer0 jd s t)
  with rtranclp_K show ?case by (blast intro: K_timer0)
next
  case (timer exec s t)
  with rtranclp_K show ?case by (blast intro: K_timer)
qed (auto intro: K_isr K_flush_rx K_disable K_set_timer K_post K_memory)

lemma uart_steps_K: "(uart_step flen env)\<^sup>*\<^sup>* s t \<Longrightarrow> K s t"
  by (induction rule: rtranclp_induct) (blast intro: K_refl K_trans uart_step_K)+

end

text \<open>
  Half duplex: bytes are waiting to be sent only while the transmitter owns the line, and
  the transmitter never owns a line that another device has pulled low.
\<close>

definition uart_inv :: "'z jacdac_scheme \<Rightarrow> bool" where
  "uart_inv s \<longleftrightarrow>
     (tx_len s \<noteq> 0 \<longrightarrow> in_tx s) \<and> (in_tx s \<longrightarrow> \<not> seen_low s) \<and> (in_tx s \<longrightarrow> uart_hw s \<noteq> 0)"

text \<open>What each operation keeps: the invariant and the depth of the interrupt lock.\<close>

definition keeps :: "'z jacdac_scheme \<Rightarrow> 'z jacdac_scheme \<Rightarrow> bool" where
  "keeps s t \<longleftrightarrow> (uart_inv s \<longrightarrow> uart_inv t) \<and> int_level t = int_level s"

lemma keeps_refl [simp]: "keeps s s"
  and keeps_trans: "keeps s t \<Longrightarrow> keeps t u \<Longrightarrow> keeps s u"
  by (auto simp: keeps_def)

lemma keeps_fields:
  assumes "tx_len t = tx_len s" "in_tx t = in_tx s" "seen_low t = seen_low s" "uart_hw t = uart_hw s"
    "int_level t = int_level s"
  shows "keeps s t"
  using assms by (simp add: keeps_def uart_inv_def)

lemma keeps_read_fifo: "read_fifo force env s = Some t \<Longrightarrow> keeps s t"
  by (drule read_fifo_frame) (simp add: keeps_fields)

lemma keeps_uart_disable: "uart_disable env s = Some t \<Longrightarrow> keeps s t"
  by (drule uart_disable_result) (simp add: keeps_def uart_inv_def)

lemma keeps_start_bg_rx: "start_bg_rx env s = Some t \<Longrightarrow> keeps s t"
  by (drule start_bg_rx_result) (simp add: keeps_def uart_inv_def)

lemma keeps_emit: "keeps s (emit env c s)"
  by (simp add: keeps_fields)

lemma fill_fifo_tx_len: "fill_fifo flen env s = Some t \<Longrightarrow> tx_len t \<noteq> 0 \<Longrightarrow> tx_len s \<noteq> 0"
  by (clarsimp simp: fill_fifo_def)

lemma keeps_fill_fifo: "fill_fifo flen env s = Some t \<Longrightarrow> keeps s t"
  using fill_fifo_frame [of flen env s t] fill_fifo_tx_len [of flen env s t]
  by (simp add: keeps_def uart_inv_def)

lemma keeps_isr_tx_done: "isr_tx_done env s = Some t \<Longrightarrow> keeps s t"
  by (clarsimp simp: isr_tx_done_def dest!: uart_disable_result)
    (simp add: keeps_def uart_inv_def)

lemma keeps_isr_end_rx: "isr_end_rx env s = Some t \<Longrightarrow> keeps s t"
  by (clarsimp simp: isr_end_rx_def Let_def dest!: uart_disable_result)
    (simp add: keeps_def uart_inv_def)

text \<open>The branches of the handler, by the pending causes.\<close>

abbreviation isr_branch ::
  "int \<Rightarrow> env \<Rightarrow> uart_int set \<Rightarrow> 'z jacdac_scheme \<Rightarrow> 'z jacdac_scheme option" where
  "isr_branch flen env status s4 \<equiv>
     (if \<not> seen_low s4 \<and> BRK_DET \<in> status then start_bg_rx env s4
      else if TX_BRK_DONE \<in> status then isr_tx_done env s4
      else if TXFIFO_EMPTY \<in> status then
        fill_fifo flen env (emit env (Uart (IntEnaBit TXFIFO_EMPTY False)) s4)
      else if status \<inter> END_RX_FLAGS \<noteq> {} then isr_end_rx env s4
      else Some s4)"

text \<open>The whole handler, split where it has read the cause and emptied the FIFO.\<close>

lemma uart_isr_split:
  assumes "uart_isr flen env s = Some t" "intr_handle s \<noteq> 0"
  obtains s4 status where
    "read_fifo False env (emit env (Uart IntEna)
       (emit env (Uart (IntClr (a_flags (query env (Uart IntSt) s)))) (emit env (Uart IntSt) s))) = Some s4"
    "isr_branch flen env status s4 = Some t" "status \<subseteq> a_flags (query env (Uart IntSt) s)"
proof -
  define st e where "st = query env (Uart IntSt) s"
    and "e = query env (Uart IntEna) (emit env (Uart (IntClr (a_flags st))) (emit env (Uart IntSt) s))"
  from assms obtain s4 where "read_fifo False env (emit env (Uart IntEna)
       (emit env (Uart (IntClr (a_flags st))) (emit env (Uart IntSt) s))) = Some s4"
    "isr_branch flen env (a_flags st \<inter> a_flags e) s4 = Some t"
    by (clarsimp simp: uart_isr_def st_def e_def Let_def split del: if_split split: if_split_asm)
  then show thesis using Int_lower1 unfolding st_def by (rule that)
qed

lemma keeps_uart_isr:
  assumes isr: "uart_isr flen env s = Some t"
  shows "keeps s t"
proof (cases "intr_handle s = 0")
  case True
  with isr show ?thesis by (simp add: uart_isr_def)
next
  case False
  let ?s3 = "emit env (Uart IntEna)
       (emit env (Uart (IntClr (a_flags (query env (Uart IntSt) s)))) (emit env (Uart IntSt) s))"
  from isr False obtain s4 status where s4: "read_fifo False env ?s3 = Some s4"
    and rest: "isr_branch flen env status s4 = Some t"
    and "status \<subseteq> a_flags (query env (Uart IntSt) s)"
    by (rule uart_isr_split)
  have "keeps s ?s3" by (blast intro: keeps_trans keeps_emit)
  moreover have "keeps ?s3 s4" by (rule keeps_read_fifo [OF s4])
  moreover have "keeps s4 t"
    using rest by (auto split: if_splits
        intro: keeps_start_bg_rx keeps_isr_tx_done keeps_isr_end_rx
          keeps_trans [OF keeps_emit keeps_fill_fifo])
  ultimately show ?thesis by (blast intro: keeps_trans)
qed

lemma keeps_tx_race: "tx_race env s = Some t \<Longrightarrow> keeps s t"
proof -
  assume r: "tx_race env s = Some t"
  let ?u = "pin_rx env (wait_line_high 50000 env s)"
  have "keeps s ?u" by (rule keeps_fields) simp_all
  moreover from r have "keeps ?u t"
    by (auto simp: tx_race_def Let_def split: if_splits intro: keeps_start_bg_rx)
  ultimately show ?thesis by (rule keeps_trans)
qed

text \<open>The interrupt lock is held while the line is driven and released at the end.\<close>

lemma drive_tx_result:
  assumes "drive_tx flen env data n s = Some (r, t)"
  shows "\<not> seen_low s \<and> r = 0 \<and> in_tx t \<and> \<not> seen_low t \<and> uart_hw t = uart_hw s \<and>
    int_level t = int_level s - 1"
  using assms
  by (clarsimp simp: drive_tx_def split: if_splits dest!: target_wait_us_frame fill_fifo_frame)

lemma line_busy_frame:
  "line_busy env s1 = (busy, s2) \<Longrightarrow> in_tx s2 = in_tx s1 \<and> seen_low s2 = seen_low s1 \<and>
    tx_len s2 = tx_len s1 \<and> uart_hw s2 = uart_hw s1 \<and> int_level s2 = int_level s1 \<and>
    memory s2 = memory s1 \<and> tx_written (io s2) = tx_written (io s1) \<and> tx_breaks (io s2) = tx_breaks (io s1)"
  by (auto simp: line_busy_def io_emit split: if_splits)

lemma probe_and_set_frame [simp]:
  "in_tx (probe_and_set env m s) = in_tx s" "seen_low (probe_and_set env m s) = seen_low s"
  "tx_len (probe_and_set env m s) = tx_len s" "uart_hw (probe_and_set env m s) = uart_hw s"
  "int_level (probe_and_set env m s) = int_level s" "memory (probe_and_set env m s) = memory s"
  by (simp_all add: probe_and_set_def)

text \<open>The state in which the line has been driven and probed, and the three ways on from it.\<close>

definition same_line :: "'z jacdac_scheme \<Rightarrow> 'z jacdac_scheme \<Rightarrow> bool" where
  "same_line s t \<longleftrightarrow> in_tx t = in_tx s \<and> seen_low t = seen_low s \<and> tx_len t = tx_len s \<and>
     uart_hw t = uart_hw s \<and> memory t = memory s \<and> tx_written (io t) = tx_written (io s) \<and>
     tx_breaks (io t) = tx_breaks (io s)"

lemma uart_start_tx_split:
  assumes "uart_hw s \<noteq> 0" "tx_len s = 0" "\<not> in_tx s"
  obtains (busy) t where "uart_start_tx jd flen env data n s = Some (-1, t)" "same_line s t"
      "int_level t = int_level s"
  | (driven) s5 where "same_line s s5" "int_level s5 = int_level s + 1" "\<not> seen_low s"
      "uart_start_tx jd flen env data n s =
        do { s6 \<leftarrow> tx_race env s5; Some (-1, target_enable_irq env s6) } \<or>
       uart_start_tx jd flen env data n s = drive_tx flen env data n s5"
proof -
  obtain busy s2 where p: "line_busy env (target_disable_irq env s) = (busy, s2)"
    by (cases "line_busy env (target_disable_irq env s)")
  note f = line_busy_frame [OF p]
  let ?s3 = "emits env [Gpio MatrixInHigh, Gpio (PinFuncSelectGpio (pin_num s2)),
      Gpio (GpioSetLevel (pin_num s2) 0)] s2"
  let ?s4 = "probe_and_set env (pin_mask (pin_num ?s3)) ?s3"
  let ?s5 = "emit env (Gpio GpioEnableRead) ?s4"
  let ?e = "query env (Gpio GpioEnableRead) ?s4"
  have run: "uart_start_tx jd flen env data n s =
     (if busy then Some (-1, target_enable_irq env s2)
      else if of_nat (a_val ?e) AND pin_mask (pin_num ?s5) = 0 then
        do { s6 \<leftarrow> tx_race env ?s5; Some (-1, target_enable_irq env s6) }
      else drive_tx flen env data n ?s5)"
    using assms p by (simp add: uart_start_tx_def Let_def cong: if_cong split del: if_split)
  show ?thesis
  proof (cases busy)
    case True
    from f have "same_line s (target_enable_irq env s2)" "int_level (target_enable_irq env s2) = int_level s"
      by (simp_all add: same_line_def)
    with run True show ?thesis by (intro that(1) [of "target_enable_irq env s2"]) simp_all
  next
    case False
    with p have "\<not> seen_low s" by (auto simp: line_busy_def split: if_splits)
    moreover have "same_line s ?s5" "int_level ?s5 = int_level s + 1"
      using f by (simp_all add: same_line_def emits_Cons)
    ultimately show ?thesis using run False by (intro that(2) [of ?s5]) (simp_all split: if_split)
  qed
qed

lemma keeps_uart_start_tx:
  assumes run: "uart_start_tx jd flen env data n s = Some (r, t)"
    and jd: "\<And>c a b. jd c a = Some b \<Longrightarrow> keeps a b"
  shows "keeps s t"
proof (cases "uart_hw s = 0")
  case True
  with run show ?thesis by (auto simp: uart_start_tx_def intro: jd)
next
  case hw: False
  with run have pre: "tx_len s = 0" "\<not> in_tx s"
    by (auto simp: uart_start_tx_def split: if_splits)
  show ?thesis
    using hw pre
  proof (cases rule: uart_start_tx_split [where jd = jd and flen = flen and env = env and data = data and n = n])
    case (busy t')
    with run show ?thesis by (auto intro!: keeps_fields simp: same_line_def)
  next
    case (driven s5)
    from driven(4) show ?thesis
    proof
      assume "uart_start_tx jd flen env data n s =
        do { s6 \<leftarrow> tx_race env s5; Some (-1, target_enable_irq env s6) }"
      with run obtain s6 where "tx_race env s5 = Some s6" "t = target_enable_irq env s6" by auto
      with keeps_tx_race [of env s5 s6] driven(1,2) show ?thesis
        by (simp add: keeps_def uart_inv_def same_line_def)
    next
      assume "uart_start_tx jd flen env data n s = drive_tx flen env data n s5"
      with run drive_tx_result [of flen env data n s5 r t] driven(1,2) hw show ?thesis
        by (simp add: keeps_def uart_inv_def same_line_def)
    qed
  qed
qed

lemma keeps_uart_flush_rx: "uart_flush_rx env s = Some t \<Longrightarrow> keeps s t"
  by (clarsimp simp: uart_flush_rx_def dest!: read_fifo_frame) (simp add: keeps_fields)

lemma keeps_uart_start_rx:
  assumes "uart_start_rx jd env data n s = Some t"
    and jd: "\<And>c a b. jd c a = Some b \<Longrightarrow> keeps a b"
  shows "keeps s t"
proof -
  let ?s3 = "target_enable_irq env ((target_disable_irq env s)\<lparr>fifo_buf := data, rx_len := ucast n\<rparr>)"
  from assms(1) obtain s4 where tx: "tx_len s = 0" and s4: "uart_flush_rx env ?s3 = Some s4"
    and rest: "(if rx_ended s4 then jd Jd_rx_completed (target_enable_irq env ((target_disable_irq env s4)
        \<lparr>seen_low := False, rx_ended := False, rx_len := 0, fifo_buf := 0\<rparr>)) else Some s4) = Some t"
    by (auto simp: uart_start_rx_def Let_def split: if_splits)
  have "keeps s ?s3" by (intro keeps_fields) simp_all
  moreover note keeps_uart_flush_rx [OF s4]
  moreover have "keeps s4 t"
  proof (cases "rx_ended s4")
    case True
    let ?u = "target_enable_irq env ((target_disable_irq env s4)
        \<lparr>seen_low := False, rx_ended := False, rx_len := 0, fifo_buf := 0\<rparr>)"
    have "keeps s4 ?u" by (simp add: keeps_def uart_inv_def)
    moreover from rest True have "keeps ?u t" by (intro jd) simp
    ultimately show ?thesis by (rule keeps_trans)
  next
    case False
    with rest show ?thesis by simp
  qed
  ultimately show ?thesis by (blast intro: keeps_trans)
qed

lemma keeps_jd_timer0:
  assumes "jd_timer0 jd s = Some t"
    and jd: "\<And>c a b. jd c a = Some b \<Longrightarrow> keeps a b"
  shows "keeps s t"
proof -
  have flag: "keeps a b"
    if "(if p then jd c (f a) else Some a) = Some b" "keeps a (f a)" for p c f a and b :: "'a jacdac_scheme"
    using that by (auto split: if_splits dest!: jd intro: keeps_trans)
  from assms(1) obtain s1 s2 where
    "(if cb_rx s then jd Jd_rx_completed (s\<lparr>cb_rx := False\<rparr>) else Some s) = Some s1"
    "(if cb_tx s1 then jd Jd_tx_completed (s1\<lparr>cb_tx := False\<rparr>) else Some s1) = Some s2"
    "(if cb_fall s2 then jd Jd_line_falling (s2\<lparr>cb_fall := False\<rparr>) else Some s2) = Some t"
    by (auto simp: jd_timer0_def)
  then have "keeps s s1" "keeps s1 s2" "keeps s2 t"
    by (auto elim!: flag [where f = "\<lambda>s. s\<lparr>cb_rx := False\<rparr>"] flag [where f = "\<lambda>s. s\<lparr>cb_tx := False\<rparr>"]
        flag [where f = "\<lambda>s. s\<lparr>cb_fall := False\<rparr>"] intro!: keeps_fields simp del: if_split)
  then show ?thesis by (blast intro: keeps_trans)
qed


lemma keeps_jd_timer:
  assumes "jd_timer exec env s = Some t"
    and exec: "\<And>f x a b. exec f x a = Some b \<Longrightarrow> keeps a b"
  shows "keeps s t"
proof (cases "timer_cb s = Fn_null")
  case True
  with assms(1) show ?thesis by (auto simp: jd_timer_def Let_def intro!: keeps_fields)
next
  case False
  let ?u = "target_enable_irq env ((target_disable_irq env s)\<lparr>timer_cb := Fn_null\<rparr>)"
  have "keeps s ?u" by (intro keeps_fields) simp_all
  moreover from assms(1) False have "keeps ?u t"
    by (intro exec) (simp add: jd_timer_def Let_def)
  ultimately show ?thesis by (rule keeps_trans)
qed

lemma keeps_tim_set_timer: "keeps s (tim_set_timer ov env d f s)"
  by (intro keeps_fields) (simp_all add: tim_set_timer_def Let_def)

lemma keeps_tim_worker_run: "keeps s (snd (tim_worker_run env f x s))"
  by (intro keeps_fields) (simp_all add: tim_worker_run_def worker_run_def Let_def)

interpretation bus: uart_relation flen env keeps for flen env
proof
  show "keeps s t \<Longrightarrow> keeps t u \<Longrightarrow> keeps s u" for s t u :: "'a jacdac_scheme" by (rule keeps_trans)
qed (auto intro: keeps_uart_isr keeps_uart_start_tx keeps_uart_start_rx keeps_jd_timer0 keeps_jd_timer
    keeps_uart_flush_rx keeps_uart_disable keeps_tim_set_timer keeps_tim_worker_run keeps_fields)

text \<open>The start states: nothing in flight.\<close>

definition uart_start :: "'z jacdac_scheme \<Rightarrow> bool" where
  "uart_start s \<longleftrightarrow> tx_len s = 0 \<and> \<not> in_tx s"

interpretation uart_safe: safety uart_start "uart_step flen env" uart_inv for flen env
proof
  fix s t :: "'a jacdac_scheme"
  show "uart_start s \<Longrightarrow> uart_inv s" by (simp add: uart_start_def uart_inv_def)
  show "uart_step flen env s t \<Longrightarrow> uart_inv s \<Longrightarrow> uart_inv t"
    using bus.uart_step_K [of flen env s t] by (simp add: keeps_def)
qed

lemma uart_steps_level: "(uart_step flen env)\<^sup>*\<^sup>* s t \<Longrightarrow> int_level t = int_level s"
  by (induction rule: rtranclp_induct) (auto dest!: bus.uart_step_K simp: keeps_def)

section \<open>Properties\<close>

text \<open>C2: from a state with nothing in flight, whatever interrupts, calls, timers and re-entrant
  callbacks follow: bytes wait to be sent only while the driver owns the line, it never owns a
  line that another device has pulled low, and every path has released the interrupt lock it
  took.\<close>

theorem bus_half_duplex:
  assumes "uart_start s" "(uart_step flen env)\<^sup>*\<^sup>* s t"
  shows "(tx_len t \<noteq> 0 \<longrightarrow> in_tx t) \<and> \<not> (in_tx t \<and> seen_low t) \<and> int_level t = int_level s"
  using uart_safe.inv_reachable [OF assms] uart_steps_level [OF assms(2)]
  by (auto simp: uart_inv_def)

definition boot_uart :: jacdac where [boot_defs]:
  "boot_uart = boot_jacdac\<lparr>pin_num := 5, uart_num := 1, uart_hw := 0x60010000, intr_handle := 1\<rparr>"

text \<open>A line on which a break has been detected.\<close>

definition break_env :: env where
  "break_env c l = (case c of
      Uart IntSt \<Rightarrow> ans0\<lparr>a_flags := {BRK_DET}\<rparr> | Uart IntEna \<Rightarrow> ans0\<lparr>a_flags := {BRK_DET}\<rparr>
    | _ \<Rightarrow> ans0)"

lemma break_isr:
  "\<exists>t. uart_isr 128 break_env boot_uart = Some t \<and> seen_low t \<and> cb_fall t \<and> \<not> in_tx t"
  by (simp add: uart_isr_def start_bg_rx_def read_fifo_def boot_defs break_env_def query_def ans0_def
      Let_def)

theorem bus_half_duplex_witness:
  "\<exists>t. (uart_step 128 break_env)\<^sup>*\<^sup>* boot_uart t \<and> seen_low t \<and> int_level t = 0 \<and> tx_len t = 0"
proof -
  obtain t where t: "uart_isr 128 break_env boot_uart = Some t" "seen_low t" "\<not> in_tx t"
    using break_isr by blast
  then have run: "(uart_step 128 break_env)\<^sup>*\<^sup>* boot_uart t"
    by (intro r_into_rtranclp uart_step.isr)
  have "uart_start boot_uart" by (simp add: uart_start_def boot_defs)
  from bus_half_duplex [OF this run] t run show ?thesis
    by (auto simp: boot_defs)
qed

end
