(* ===== verification/JdTransfer.thy ===== *)
theory JdTransfer
  imports JdBus
begin

text \<open>
  What crosses the Jacdac bus: the bytes of a frame reach the hardware FIFO completely and in
  order, followed by one break; received bytes reach exactly the buffer that was handed in.
\<close>

section \<open>Sending\<close>

definition tx_pending :: "'z jacdac_scheme \<Rightarrow> u8 list" where
  "tx_pending s = mem_read (memory s) (fifo_buf s) (unat (tx_len s))"

lemma tx_space_eq:
  assumes "int cnt \<le> flen"
  shows "tx_space flen (int cnt) (int len) = int (min len (nat (flen - int cnt)))"
  using assms by (auto simp: tx_space_def Let_def min_def)

lemma unat_u16_less: "unat (w :: u16) < 65536"
  using unsigned_less [of w] by simp

lemma unat_int_u16:
  fixes w :: u16
  assumes "n \<le> unat w"
  shows "unat (word_of_int (int n) :: u32) = n" "unat (w - word_of_int (int n)) = unat w - n"
proof -
  have w: "unat w < 2 ^ 16" using unsigned_less [of w] by simp
  then have "n < 2 ^ 32" using assms by simp
  then show "unat (word_of_int (int n) :: u32) = n"
    by (simp add: unat_of_nat take_bit_eq_mod)
  have "unat (word_of_int (int n) :: u16) = n"
    using w assms by (simp add: unat_of_nat take_bit_eq_mod)
  moreover from this have "(word_of_int (int n) :: u16) \<le> w"
    using assms by (simp add: word_le_nat_alt)
  ultimately show "unat (w - word_of_int (int n)) = unat w - n"
    by (simp add: unat_sub)
qed

lemma write_tx_eq:
  assumes "n \<le> unat (tx_len s)"
  shows "io (write_tx env (int n) s) =
      (let c = Uart (WriteTxfifo (mem_read (memory s) (fifo_buf s) n)) in (c, env c (io s)) # io s)"
    and "fifo_buf (write_tx env (int n) s) = fifo_buf s + of_nat n"
    and "unat (tx_len (write_tx env (int n) s)) = unat (tx_len s) - n"
  using unat_int_u16 [OF assms] by (simp_all add: write_tx_def Let_def io_emit)

lemma write_tx_pending:
  assumes "n \<le> unat (tx_len s)"
  shows "tx_written (io (write_tx env (int n) s)) @ tx_pending (write_tx env (int n) s)
      = tx_written (io s) @ tx_pending s"
    and "tx_breaks (io (write_tx env (int n) s)) = tx_breaks (io s)"
  using write_tx_eq [OF assms, of env] mem_read_split [OF assms, of "memory s" "fifo_buf s"]
  by (simp_all add: Let_def tx_pending_def)

text \<open>One refill with at most \<open>flen\<close> bytes in the FIFO.\<close>

lemma fill_fifo_step:
  assumes "uart_hw s \<noteq> 0" "tx_len s \<noteq> 0"
    and cnt: "int (a_val (query env (Uart TxfifoCnt) s)) \<le> flen"
  defines "n \<equiv> min (unat (tx_len s)) (nat (flen - int (a_val (query env (Uart TxfifoCnt) s))))"
  shows "\<exists>t. fill_fifo flen env s = Some t \<and>
    tx_written (io t) @ tx_pending t = tx_written (io s) @ tx_pending s \<and>
    unat (tx_len t) = unat (tx_len s) - n \<and>
    tx_breaks (io t) = tx_breaks (io s) + (if tx_len t = 0 then 1 else 0) \<and> uart_hw t = uart_hw s"
proof -
  let ?s1 = "emit env (Uart TxfifoCnt) s"
  let ?s2 = "write_tx env (int n) ?s1"
  have n: "n \<le> unat (tx_len ?s1)" by (simp add: n_def)
  have sp: "tx_space flen (int (a_val (query env (Uart TxfifoCnt) s))) (int (unat (tx_len ?s1))) = int n"
    unfolding n_def jacdac_emit by (rule tx_space_eq [OF cnt])
  have pend: "tx_pending (emit env c x) = tx_pending x" for c and x :: "'a jacdac_scheme"
    by (simp add: tx_pending_def)
  have fill: "fill_fifo flen env s = Some (emits env
      [Uart (IntClr {TXFIFO_EMPTY}), Uart (TxfifoEmptyThrhd 10), Uart (IntEnaBit TXFIFO_EMPTY True)]
      (if tx_len ?s2 = 0 then emits env [Uart (TxBreak 14), Uart (IntClr {TX_BRK_DONE}),
         Uart (IntEnaBit TX_BRK_DONE True)] ?s2 else ?s2))"
    using assms(1,2) sp by (simp add: fill_fifo_def)
  note w = write_tx_pending [OF n, of env] write_tx_eq(3) [OF n, of env]
  have z: "unat (tx_len s) \<le> n" if "tx_len ?s2 = 0"
    using w(3) that by simp
  show ?thesis
    unfolding fill using w z by (simp add: emits_Cons io_emit pend)
qed

text \<open>The interrupts of a running transmission: only the FIFO-empty cause is pending, the FIFO
  has drained below its length, and nothing is received.\<close>

definition refill_irqs :: "env \<Rightarrow> int \<Rightarrow> bool" where
  "refill_irqs env flen \<longleftrightarrow> (\<forall>l. a_flags (env (Uart IntSt) l) = {TXFIFO_EMPTY} \<and>
     a_flags (env (Uart IntEna) l) = {TXFIFO_EMPTY} \<and> a_val (env (Uart RxfifoCnt) l) = 0 \<and>
     int (a_val (env (Uart TxfifoCnt) l)) < flen)"

text \<open>\<open>k\<close> interrupts in a row.\<close>

fun interrupts :: "nat \<Rightarrow> int \<Rightarrow> env \<Rightarrow> 'z jacdac_scheme \<Rightarrow> 'z jacdac_scheme option" where
  "interrupts 0 flen env s = Some s"
| "interrupts (Suc k) flen env s = do { s1 \<leftarrow> uart_isr flen env s; interrupts k flen env s1 }"

text \<open>What the handler leaves of a transmission when it reaches \<open>fill_fifo\<close>.\<close>

definition same_tx :: "'z jacdac_scheme \<Rightarrow> 'z jacdac_scheme \<Rightarrow> bool" where
  "same_tx s t \<longleftrightarrow> tx_len t = tx_len s \<and> tx_pending t = tx_pending s \<and>
     tx_written (io t) = tx_written (io s) \<and> tx_breaks (io t) = tx_breaks (io s) \<and>
     uart_hw t = uart_hw s \<and> intr_handle t = intr_handle s"

lemma uart_isr_refill:
  assumes "refill_irqs env flen" "uart_hw s \<noteq> 0" "intr_handle s \<noteq> 0"
  shows "\<exists>u. uart_isr flen env s = fill_fifo flen env u \<and> same_tx s u"
proof -
  have pend: "tx_pending (emit env c x) = tx_pending x" for c and x :: "'a jacdac_scheme"
    by (simp add: tx_pending_def)
  let ?s3 = "emit env (Uart IntEna) (emit env (Uart (IntClr {TXFIFO_EMPTY})) (emit env (Uart IntSt) s))"
  let ?u = "emit env (Uart (IntEnaBit TXFIFO_EMPTY False)) (emit env (Uart RxfifoCnt) ?s3)"
  have "uart_isr flen env s = fill_fifo flen env ?u"
    using assms by (simp add: uart_isr_def read_fifo_def refill_irqs_def query_def Let_def)
  moreover have "same_tx s ?u" by (simp add: same_tx_def pend io_emit)
  ultimately show ?thesis by blast
qed

lemma fill_fifo_handle:
  "fill_fifo flen env s = Some t \<Longrightarrow> intr_handle t = intr_handle s"
  by (clarsimp simp: fill_fifo_def write_tx_def Let_def split: if_splits)

text \<open>A refill interrupt of a finished transmission changes nothing.\<close>

lemma interrupts_done:
  assumes "refill_irqs env flen" "uart_hw s \<noteq> 0" "intr_handle s \<noteq> 0" "tx_len s = 0"
  shows "\<exists>t. interrupts k flen env s = Some t \<and> same_tx s t"
  using assms(2-4)
proof (induction k arbitrary: s)
  case 0
  then show ?case by (simp add: same_tx_def)
next
  case (Suc k)
  obtain u where u: "uart_isr flen env s = fill_fifo flen env u" "same_tx s u"
    using uart_isr_refill [OF assms(1) Suc.prems(1,2)] by blast
  then have f: "uart_isr flen env s = Some u" using Suc.prems by (simp add: same_tx_def fill_fifo_def)
  from u Suc.prems obtain t where "interrupts k flen env u = Some t" "same_tx u t"
    using Suc.IH [of u] by (auto simp: same_tx_def)
  with f u show ?case by (simp add: same_tx_def)
qed

lemma interrupts_complete:
  assumes "refill_irqs env flen" "uart_hw s \<noteq> 0" "intr_handle s \<noteq> 0" "tx_len s \<noteq> 0"
    and "unat (tx_len s) \<le> k"
  shows "\<exists>t. interrupts k flen env s = Some t \<and> tx_len t = 0 \<and>
    tx_written (io t) = tx_written (io s) @ tx_pending s \<and> tx_breaks (io t) = Suc (tx_breaks (io s))"
  using assms(2-)
proof (induction k arbitrary: s)
  case 0
  then show ?case by (simp add: unat_0_iff)
next
  case (Suc k)
  obtain u where u: "uart_isr flen env s = fill_fifo flen env u" "same_tx s u"
    using uart_isr_refill [OF assms(1) Suc.prems(1,2)] by blast
  note same = u(2) [unfolded same_tx_def]
  let ?c = "a_val (query env (Uart TxfifoCnt) u)"
  have c: "int ?c < flen" using assms(1) by (simp add: refill_irqs_def query_def)
  obtain t where t: "fill_fifo flen env u = Some t"
      "tx_written (io t) @ tx_pending t = tx_written (io s) @ tx_pending s"
      "unat (tx_len t) = unat (tx_len s) - min (unat (tx_len s)) (nat (flen - int ?c))"
      "tx_breaks (io t) = tx_breaks (io s) + (if tx_len t = 0 then 1 else 0)"
      "uart_hw t = uart_hw s" "intr_handle t = intr_handle s"
    using fill_fifo_step [of u env flen] fill_fifo_handle [of flen env u] same Suc.prems c by auto
  show ?case
  proof (cases "tx_len t = 0")
    case True
    then have "tx_pending t = []" by (simp add: tx_pending_def)
    moreover obtain v where "interrupts k flen env t = Some v" "same_tx t v"
      using interrupts_done [OF assms(1), of t k] True t(5,6) Suc.prems by auto
    ultimately show ?thesis using t True u(1) by (auto simp: same_tx_def)
  next
    case False
    have pos: "0 < unat (tx_len s)" using Suc.prems(3) unat_gt_0 by blast
    have "unat (tx_len t) \<le> k" using t(3) Suc.prems(4) c pos by auto
    from Suc.IH [of t] this t False Suc.prems u(1) show ?thesis by auto
  qed
qed

text \<open>The part of \<open>uart_start_tx\<close> from the driven line on hands the whole frame over.\<close>

lemma drive_tx_data:
  assumes "clock_passes env" "uart_hw s \<noteq> 0" "\<not> seen_low s" "unat n < 2 ^ 16" "n \<noteq> 0"
    and cnt: "\<And>l. int (a_val (env (Uart TxfifoCnt) l)) \<le> flen"
  shows "\<exists>t. drive_tx flen env data n s = Some (0, t) \<and> in_tx t \<and> uart_hw t = uart_hw s \<and>
    tx_written (io t) @ tx_pending t = tx_written (io s) @ mem_read (memory s) data (unat n) \<and>
    tx_breaks (io t) = tx_breaks (io s) + (if tx_len t = 0 then 1 else 0) \<and> unat (tx_len t) \<le> unat n \<and>
    ((\<forall>l. a_val (env (Uart TxfifoCnt) l) = 0) \<and> int (unat n) \<le> flen \<longrightarrow> tx_len t = 0)"
proof -
  have wait: "\<exists>k. target_wait_us env us x = Some (polled env k x)" for us and x :: "'a jacdac_scheme"
    using target_wait_us_polls [OF assms(1)] by blast
  obtain k where k: "target_wait_us env 12 (s\<lparr>in_tx := True\<rparr>) = Some (polled env k (s\<lparr>in_tx := True\<rparr>))"
    using wait by blast
  let ?s3 = "emit env (Gpio (GpioSetLevel (pin_num (polled env k (s\<lparr>in_tx := True\<rparr>))) 1))
      (polled env k (s\<lparr>in_tx := True\<rparr>))"
  obtain m where m: "target_wait_us env 50 ?s3 = Some (polled env m ?s3)"
    using wait by blast
  let ?s7 = "emit env (Uart IntClrAll)
      ((pin_tx env (polled env m ?s3))\<lparr>fifo_buf := data, tx_len := ucast n\<rparr>)"
  have len: "unat (ucast n :: u16) = unat n"
    using assms(4) by (simp add: unsigned_ucast_eq take_bit_eq_mod)
  then have nz: "(ucast n :: u16) \<noteq> 0" using assms(5) by (metis unat_0_iff)
  have s7: "uart_hw ?s7 = uart_hw s" "tx_len ?s7 = ucast n" "in_tx ?s7" "tx_breaks (io ?s7) = tx_breaks (io s)"
      "tx_written (io ?s7) @ tx_pending ?s7 = tx_written (io s) @ mem_read (memory s) data (unat n)"
    by (simp_all add: tx_pending_def len io_emit)
  obtain t where t: "fill_fifo flen env ?s7 = Some t"
      "tx_written (io t) @ tx_pending t = tx_written (io ?s7) @ tx_pending ?s7"
      "tx_breaks (io t) = tx_breaks (io ?s7) + (if tx_len t = 0 then 1 else 0)" "uart_hw t = uart_hw ?s7"
      "unat (tx_len t) = unat (tx_len ?s7) - min (unat (tx_len ?s7))
         (nat (flen - int (a_val (query env (Uart TxfifoCnt) ?s7))))"
    using fill_fifo_step [of ?s7 env flen] s7(1,2) assms(2) nz cnt by (auto simp: query_def)
  have "drive_tx flen env data n s = Some (0, target_enable_irq env t)"
    using assms(3) k m t(1) by (simp add: drive_tx_def)
  moreover have "tx_pending (target_enable_irq env t) = tx_pending t" by (simp add: tx_pending_def)
  moreover have "unat (tx_len t) \<le> unat n" unfolding t(5) s7(2) len by simp
  moreover have "tx_len t = 0" if "\<forall>l. a_val (env (Uart TxfifoCnt) l) = 0" "int (unat n) \<le> flen"
  proof -
    have "unat n \<le> nat flen" using that(2) by linarith
    then have "unat (tx_len t) = 0" unfolding t(5) s7(2) len query_def using that(1) by simp
    then show ?thesis by (simp add: unat_0_iff)
  qed
  ultimately show ?thesis
    using t(1-4) s7 fill_fifo_frame [OF t(1)] by simp
qed


lemma start_bg_rx_returns:
  assumes "\<not> in_tx s" "uart_hw s \<noteq> 0"
  shows "\<exists>t. start_bg_rx env s = Some t"
  using read_fifo_returns [OF assms(2), of True env] assms(1) by (auto simp: start_bg_rx_def Let_def)

lemma tx_race_returns:
  assumes "\<not> in_tx s" "uart_hw s \<noteq> 0"
  shows "\<exists>t. tx_race env s = Some t \<and> \<not> in_tx t \<and> tx_len t = tx_len s \<and>
    tx_written (io t) = tx_written (io s) \<and> tx_breaks (io t) = tx_breaks (io s)"
proof -
  let ?u = "pin_rx env (wait_line_high 50000 env s)"
  obtain t where t: "start_bg_rx env ?u = Some t"
    using start_bg_rx_returns [of ?u env] assms by auto
  show ?thesis
    using t start_bg_rx_result [OF t] tx_start_bg_rx [OF t] assms
    by (auto simp: tx_race_def Let_def)
qed

section \<open>Properties of sending\<close>

text \<open>C3: starting a transmission of a frame of 1 to 65535 bytes on an idle initialised driver
  always returns. It answers 0, owns the line and has handed over a prefix of the frame in
  order with the rest still to come and no break before the last byte; or it answers -1,
  owns nothing and has sent nothing.\<close>

theorem uart_start_tx_outcome:
  assumes "clock_passes env" "\<And>l. int (a_val (env (Uart TxfifoCnt) l)) \<le> flen"
    and "uart_hw s \<noteq> 0" "tx_len s = 0" "\<not> in_tx s" "n \<noteq> 0" "unat n < 2 ^ 16"
  shows "\<exists>r t. uart_start_tx jd flen env data n s = Some (r, t) \<and>
    (r = 0 \<and> in_tx t \<and>
       tx_written (io t) @ tx_pending t = tx_written (io s) @ mem_read (memory s) data (unat n) \<and>
       tx_breaks (io t) = tx_breaks (io s) + (if tx_len t = 0 then 1 else 0) \<or>
     r = -1 \<and> \<not> in_tx t \<and> tx_len t = 0 \<and>
       tx_written (io t) = tx_written (io s) \<and> tx_breaks (io t) = tx_breaks (io s))"
  using assms(3-5)
proof (cases rule: uart_start_tx_split [where jd = jd and flen = flen and env = env and data = data and n = n])
  case (busy t)
  with assms(4,5) show ?thesis by (simp add: same_line_def)
next
  case (driven s5)
  note five = driven(1) [unfolded same_line_def]
  from driven(4) show ?thesis
  proof
    assume run: "uart_start_tx jd flen env data n s =
      do { s6 \<leftarrow> tx_race env s5; Some (-1, target_enable_irq env s6) }"
    obtain t where t: "tx_race env s5 = Some t" "\<not> in_tx t" "tx_len t = tx_len s5"
        "tx_written (io t) = tx_written (io s5)" "tx_breaks (io t) = tx_breaks (io s5)"
      using tx_race_returns [of s5 env] five assms(3,5) by auto
    with run have "uart_start_tx jd flen env data n s = Some (-1, target_enable_irq env t)" by simp
    with t five assms(4) show ?thesis by simp
  next
    assume run: "uart_start_tx jd flen env data n s = drive_tx flen env data n s5"
    moreover obtain t where "drive_tx flen env data n s5 = Some (0, t)" "in_tx t"
        "tx_written (io t) @ tx_pending t = tx_written (io s) @ mem_read (memory s) data (unat n)"
        "tx_breaks (io t) = tx_breaks (io s) + (if tx_len t = 0 then 1 else 0)"
      using drive_tx_data [OF assms(1), of s5 n flen data] five assms driven(3) by auto
    ultimately show ?thesis by simp
  qed
qed

text \<open>A line that reads high, with the clock running and room in an empty FIFO; the only
  interrupts are requests for more bytes.\<close>

definition line_env :: env where
  "line_env c l = (case c of
      Gpio GpioEnableRead \<Rightarrow> ans0\<lparr>a_val := 32\<rparr>
    | Sys GetTime \<Rightarrow> ans0\<lparr>a_val := length l\<rparr>
    | Uart IntSt \<Rightarrow> ans0\<lparr>a_flags := {TXFIFO_EMPTY}\<rparr>
    | Uart IntEna \<Rightarrow> ans0\<lparr>a_flags := {TXFIFO_EMPTY}\<rparr>
    | _ \<Rightarrow> ans0)"

lemma line_env_clock: "clock_passes line_env"
  by (rule clock_passes_length) (simp add: line_env_def ans0_def)

lemma line_env_cnt: "a_val (line_env (Uart TxfifoCnt) l) = 0"
  by (simp add: line_env_def ans0_def)

theorem uart_start_tx_outcome_witness:
  "\<exists>r t. uart_start_tx (\<lambda>_. Some) 128 line_env 0x100 20 boot_uart = Some (r, t) \<and> (r = 0 \<or> r = -1)"
  using uart_start_tx_outcome [OF line_env_clock, of 128 boot_uart 20 "\<lambda>_. Some" "0x100"]
  by (auto simp: line_env_cnt boot_defs)

text \<open>C4: once a frame is under way, as many FIFO-empty interrupts as bytes are left are always
  enough: every byte of the frame has then been written to the FIFO once and in order, and
  exactly one break follows the last one.\<close>

theorem uart_frame_sent:
  assumes "refill_irqs env flen" "uart_hw s \<noteq> 0" "intr_handle s \<noteq> 0" "tx_len s \<noteq> 0"
    and "unat (tx_len s) \<le> k"
  shows "\<exists>t. interrupts k flen env s = Some t \<and> tx_len t = 0 \<and>
    tx_written (io t) = tx_written (io s) @ mem_read (memory s) (fifo_buf s) (unat (tx_len s)) \<and>
    tx_breaks (io t) = tx_breaks (io s) + 1"
  using interrupts_complete [OF assms] by (simp add: tx_pending_def)

theorem uart_frame_sent_witness:
  "\<exists>t. interrupts 300 128 line_env (boot_uart\<lparr>in_tx := True, tx_len := 300\<rparr>) = Some t \<and>
    length (tx_written (io t)) = 300 \<and> tx_breaks (io t) = 1"
proof -
  have "refill_irqs line_env 128" by (simp add: refill_irqs_def line_env_def ans0_def)
  from uart_frame_sent [OF this, of "boot_uart\<lparr>in_tx := True, tx_len := 300\<rparr>" 300]
  show ?thesis by (auto simp: boot_defs)
qed


section \<open>Receiving\<close>

text \<open>The bytes taken out of the receive FIFO so far, oldest first.\<close>

fun rx_taken :: "io_log \<Rightarrow> u8 list" where
  "rx_taken [] = []"
| "rx_taken ((Uart (ReadRxfifo n), a) # l) = rx_taken l @ take n (a_bytes a)"
| "rx_taken (_ # l) = rx_taken l"

text \<open>\<open>uart_ll_read_rxfifo\<close> stores as many bytes as it is asked for.\<close>

definition rxfifo_reads :: "env \<Rightarrow> bool" where
  "rxfifo_reads env \<longleftrightarrow> (\<forall>n l. length (a_bytes (env (Uart (ReadRxfifo n)) l)) = n)"

text \<open>What happens to the receive buffer between two states: some bytes are taken from the FIFO
  and stored where the buffer is free, and the free part shrinks by as many.\<close>

definition rx_step :: "'z jacdac_scheme \<Rightarrow> 'z jacdac_scheme \<Rightarrow> bool" where
  "rx_step s t \<longleftrightarrow> (\<exists>bs. rx_taken (io t) = rx_taken (io s) @ bs \<and>
     memory t = mem_write (memory s) (fifo_buf s) bs \<and>
     length bs + unat (rx_len t) \<le> unat (rx_len s) \<and>
     (rx_len t \<noteq> 0 \<longrightarrow> fifo_buf t = fifo_buf s + of_nat (length bs)))"

lemma rx_step_same:
  assumes "rx_taken (io t) = rx_taken (io s)" "memory t = memory s"
    and "rx_len t = 0 \<or> rx_len t = rx_len s \<and> fifo_buf t = fifo_buf s"
  shows "rx_step s t"
  unfolding rx_step_def using assms by (intro exI [of _ "[]"]) auto

lemma rx_step_trans:
  assumes "rx_step s t" "rx_step t u"
  shows "rx_step s u"
proof -
  obtain bs where bs: "rx_taken (io t) = rx_taken (io s) @ bs"
      "memory t = mem_write (memory s) (fifo_buf s) bs" "length bs + unat (rx_len t) \<le> unat (rx_len s)"
      "rx_len t \<noteq> 0 \<longrightarrow> fifo_buf t = fifo_buf s + of_nat (length bs)"
    using assms(1) unfolding rx_step_def by blast
  obtain cs where cs: "rx_taken (io u) = rx_taken (io t) @ cs"
      "memory u = mem_write (memory t) (fifo_buf t) cs" "length cs + unat (rx_len u) \<le> unat (rx_len t)"
      "rx_len u \<noteq> 0 \<longrightarrow> fifo_buf u = fifo_buf t + of_nat (length cs)"
    using assms(2) unfolding rx_step_def by blast
  have small: "length bs + length cs \<le> 2 ^ 32"
    using bs(3) cs(3) unat_u16_less [of "rx_len s"] by simp
  show ?thesis
  proof (cases "rx_len t = 0")
    case True
    with cs(3) have "cs = []" "rx_len u = 0" by (auto simp: unat_0_iff)
    with bs(1-3) cs(1,2) show ?thesis unfolding rx_step_def by (intro exI [of _ bs]) auto
  next
    case False
    with bs cs mem_write_append [OF small, of "memory s" "fifo_buf s"] show ?thesis
      unfolding rx_step_def by (intro exI [of _ "bs @ cs"]) (auto simp: add.assoc)
  qed
qed

lemma rx_irq [simp]:
  "rx_taken (io (target_disable_irq env s)) = rx_taken (io s)"
  "rx_taken (io (target_enable_irq env s)) = rx_taken (io s)"
  by (simp_all add: target_disable_irq_def target_enable_irq_def Let_def io_emit)

lemma rx_pins [simp]:
  "rx_taken (io (pin_rx env s)) = rx_taken (io s)"
  "rx_taken (io (schedule_timer0 env s)) = rx_taken (io s)"
  "rx_taken (io (enable_end_rx env s)) = rx_taken (io s)"
  by (simp_all add: pin_rx_def schedule_timer0_def enable_end_rx_def emits_Cons io_emit Let_def)

lemma unat_minus_of_nat:
  fixes w :: u16
  assumes "n \<le> unat w"
  shows "unat (w - of_nat n) = unat w - n"
  using unat_int_u16(2) [OF assms] by simp

lemma rx_step_take_rx:
  assumes "rxfifo_reads env" "n \<le> unat (rx_len s)"
  shows "rx_step s (take_rx env n s)"
proof (cases "n = 0")
  case True
  then show ?thesis by (simp add: take_rx_def rx_step_same)
next
  case False
  have "length (a_bytes (env (Uart (ReadRxfifo n)) (io s))) = n"
    using assms(1) by (simp add: rxfifo_reads_def)
  with False assms(2) show ?thesis
    unfolding rx_step_def take_rx_def
    by (intro exI [of _ "a_bytes (env (Uart (ReadRxfifo n)) (io s))"])
      (simp add: Let_def io_emit query_def unat_minus_of_nat)
qed

lemma rx_step_read_fifo:
  assumes "rxfifo_reads env" "read_fifo force env s = Some t"
  shows "rx_step s t"
proof -
  let ?s1 = "emit env (Uart RxfifoCnt) s"
  have s1: "rx_step s ?s1" by (rule rx_step_same) (simp_all add: io_emit)
  have rst: "rx_step u (emit env (Uart RxfifoRst) u)" for u :: "'a jacdac_scheme"
    by (rule rx_step_same) (simp_all add: io_emit)
  have take1: "n \<le> unat (rx_len s) \<Longrightarrow> rx_step s (take_rx env n ?s1)" for n
    using rx_step_take_rx [OF assms(1), of n ?s1] rx_step_trans [OF s1] by simp
  show ?thesis
    using assms(2) by (auto simp: read_fifo_def Let_def split: if_splits
        intro: s1 take1 rx_step_trans [OF take1 rst])
qed


lemma rx_step_uart_disable:
  assumes "rxfifo_reads env" "uart_disable env s = Some t"
  shows "rx_step s t"
proof -
  let ?s4 = "clear_ctx (emits env [Uart (IntClr (a_flags (query env (Uart IntSt) (target_disable_irq env s)))),
      Uart (SetIntEna {BRK_DET})] (emit env (Uart IntSt) (target_disable_irq env s)))"
  obtain s5 where s5: "read_fifo True env ?s4 = Some s5" "t = target_enable_irq env (pin_rx env s5)"
    using assms(2) by (auto simp: uart_disable_def Let_def split: if_splits)
  have "rx_step s ?s4"
    by (rule rx_step_same) (simp_all add: clear_ctx_def emits_Cons io_emit)
  moreover note rx_step_read_fifo [OF assms(1) s5(1)]
  moreover have "rx_step s5 t" unfolding s5(2) by (rule rx_step_same) simp_all
  ultimately show ?thesis by (blast intro: rx_step_trans)
qed

lemma rx_step_start_bg_rx:
  assumes "rxfifo_reads env" "start_bg_rx env s = Some t"
  shows "rx_step s t"
proof -
  obtain s1 where s1: "read_fifo True env s = Some s1"
      "t = (let s3 = enable_end_rx env (s1\<lparr>seen_low := True\<rparr>)
            in if fifo_buf s3 = 0 then schedule_timer0 env (s3\<lparr>cb_fall := True\<rparr>) else s3)"
    using assms(2) by (auto simp: start_bg_rx_def Let_def split: if_splits)
  have "rx_step s1 t" unfolding s1(2) Let_def by (rule rx_step_same) simp_all
  with rx_step_read_fifo [OF assms(1) s1(1)] show ?thesis by (rule rx_step_trans)
qed

lemma rx_step_isr_tx_done:
  assumes "rxfifo_reads env" "isr_tx_done env s = Some t"
  shows "rx_step s t"
proof -
  obtain s3 where s3: "uart_disable env ((emit env (Uart (TxdBrk 0)) s)\<lparr>in_tx := False\<rparr>) = Some s3"
      "t = schedule_timer0 env (s3\<lparr>cb_tx := True\<rparr>)"
    using assms(2) by (auto simp: isr_tx_done_def)
  have "rx_step s ((emit env (Uart (TxdBrk 0)) s)\<lparr>in_tx := False\<rparr>)"
    by (rule rx_step_same) (simp_all add: io_emit)
  moreover note rx_step_uart_disable [OF assms(1) s3(1)]
  moreover have "rx_step s3 t" unfolding s3(2) by (rule rx_step_same) simp_all
  ultimately show ?thesis by (blast intro: rx_step_trans)
qed

lemma rx_step_isr_end_rx:
  assumes "rxfifo_reads env" "isr_end_rx env s = Some t"
  shows "rx_step s t"
proof -
  obtain s2 where s2: "uart_disable env (s\<lparr>data_left := rx_len s\<rparr>) = Some s2"
      "t = (if fifo_buf s \<noteq> 0 then schedule_timer0 env (s2\<lparr>cb_rx := True\<rparr>) else s2\<lparr>rx_ended := True\<rparr>)"
    using assms(2) by (auto simp: isr_end_rx_def Let_def split: if_splits)
  have "rx_step s (s\<lparr>data_left := rx_len s\<rparr>)" by (rule rx_step_same) simp_all
  moreover note rx_step_uart_disable [OF assms(1) s2(1)]
  moreover have "rx_step s2 t" unfolding s2(2) by (rule rx_step_same) simp_all
  ultimately show ?thesis by (blast intro: rx_step_trans)
qed

lemma rx_step_uart_isr:
  assumes env: "rxfifo_reads env" and isr: "uart_isr flen env s = Some t" and "tx_len s = 0"
  shows "rx_step s t \<and> tx_len t = 0"
proof (cases "intr_handle s = 0")
  case True
  with isr assms(3) show ?thesis by (simp add: uart_isr_def rx_step_same)
next
  case False
  let ?s3 = "emit env (Uart IntEna)
       (emit env (Uart (IntClr (a_flags (query env (Uart IntSt) s)))) (emit env (Uart IntSt) s))"
  from isr False obtain s4 status where s4: "read_fifo False env ?s3 = Some s4"
    and rest: "isr_branch flen env status s4 = Some t"
    and "status \<subseteq> a_flags (query env (Uart IntSt) s)"
    by (rule uart_isr_split)
  have tx: "tx_len s4 = 0" using read_fifo_frame [OF s4] assms(3) by simp
  have "rx_step s ?s3" by (rule rx_step_same) (simp_all add: io_emit)
  moreover note rx_step_read_fifo [OF env s4]
  moreover have "rx_step s4 t"
    using rest tx by (auto simp: fill_fifo_def split: if_splits
        intro: rx_step_start_bg_rx [OF env] rx_step_isr_tx_done [OF env] rx_step_isr_end_rx [OF env])
      (auto intro!: rx_step_same simp: io_emit)
  moreover have "tx_len t = 0"
    using rest tx by (auto simp: fill_fifo_def isr_tx_done_def isr_end_rx_def Let_def split: if_splits
        dest!: start_bg_rx_result uart_disable_result)
  ultimately show ?thesis by (blast intro: rx_step_trans)
qed

lemma rx_step_interrupts:
  assumes "rxfifo_reads env" "interrupts k flen env s = Some t" "tx_len s = 0"
  shows "rx_step s t"
  using assms(2,3)
proof (induction k arbitrary: s)
  case 0
  then show ?case by (simp add: rx_step_same)
next
  case (Suc k)
  then obtain s1 where s1: "uart_isr flen env s = Some s1" "interrupts k flen env s1 = Some t" by auto
  with rx_step_uart_isr [OF assms(1) s1(1) Suc.prems(2)] Suc.IH [of s1] show ?case
    by (blast intro: rx_step_trans)
qed

text \<open>C7: whatever interrupts follow while nothing is being sent, the only memory that changes is
  the receive buffer handed in: exactly the bytes taken from the FIFO since are stored at its
  start, consecutively and in order, never more than the buffer holds.\<close>

theorem uart_receive_in_buffer:
  assumes "rxfifo_reads env" "interrupts k flen env s = Some t" "tx_len s = 0"
  shows "\<exists>bs. rx_taken (io t) = rx_taken (io s) @ bs \<and> length bs \<le> unat (rx_len s) \<and>
    memory t = mem_write (memory s) (fifo_buf s) bs"
  using rx_step_interrupts [OF assms] unfolding rx_step_def by auto

text \<open>A line on which five bytes are waiting.\<close>

definition five_env :: env where
  "five_env c l = (case c of
      Uart RxfifoCnt \<Rightarrow> ans0\<lparr>a_val := 5\<rparr>
    | Uart (ReadRxfifo n) \<Rightarrow> ans0\<lparr>a_bytes := replicate n 0xAA\<rparr>
    | _ \<Rightarrow> ans0)"

theorem uart_receive_in_buffer_witness:
  "\<exists>t bs. interrupts 1 128 five_env (boot_uart\<lparr>fifo_buf := 0x2000, rx_len := 252\<rparr>) = Some t \<and>
    length bs \<le> 252 \<and> memory t = mem_write (\<lambda>_. 0) 0x2000 bs"
proof -
  have env: "rxfifo_reads five_env" by (simp add: rxfifo_reads_def five_env_def ans0_def)
  have "\<exists>t. interrupts 1 128 five_env (boot_uart\<lparr>fifo_buf := 0x2000, rx_len := 252\<rparr>) = Some t"
    by (simp add: uart_isr_def read_fifo_def boot_defs five_env_def ans0_def query_def Let_def)
  then obtain t where t: "interrupts 1 128 five_env (boot_uart\<lparr>fifo_buf := 0x2000, rx_len := 252\<rparr>) = Some t"
    by blast
  from uart_receive_in_buffer [OF env t] t show ?thesis by (auto simp: boot_defs)
qed


section \<open>The end of a frame\<close>

lemma uart_disable_returns: "uart_hw s \<noteq> 0 \<Longrightarrow> \<exists>t. uart_disable env s = Some t"
  by (simp add: uart_disable_def read_fifo_def Let_def clear_ctx_def emits_Cons)

lemma uart_disable_rx:
  "uart_disable env s = Some t \<Longrightarrow> rx_len t = 0 \<and> fifo_buf t = 0"
  by (auto simp: uart_disable_def read_fifo_def take_rx_def Let_def split: if_splits)

text \<open>The state in which the cause of an interrupt has been read: nothing waits in the FIFO.\<close>

definition end_irqs :: "env \<Rightarrow> uart_int set \<Rightarrow> bool" where
  "end_irqs env fl \<longleftrightarrow> fl \<inter> END_RX_FLAGS \<noteq> {} \<and> TX_BRK_DONE \<notin> fl \<and> TXFIFO_EMPTY \<notin> fl \<and>
     (\<forall>l. a_flags (env (Uart IntSt) l) = fl \<and> a_flags (env (Uart IntEna) l) = fl \<and>
        a_val (env (Uart RxfifoCnt) l) = 0)"

lemma uart_isr_end:
  assumes "end_irqs env fl" "uart_hw s \<noteq> 0" "intr_handle s \<noteq> 0" "seen_low s"
  shows "\<exists>u. uart_isr flen env s = isr_end_rx env u \<and> fifo_buf u = fifo_buf s \<and> cb_rx u = cb_rx s \<and>
    uart_hw u = uart_hw s \<and> rx_len u = rx_len s"
proof -
  let ?u = "emit env (Uart RxfifoCnt) (emit env (Uart IntEna) (emit env (Uart (IntClr fl))
      (emit env (Uart IntSt) s)))"
  have "uart_isr flen env s = isr_end_rx env ?u"
    using assms by (simp add: uart_isr_def read_fifo_def end_irqs_def query_def Let_def)
  then show ?thesis by (intro exI [of _ ?u]) simp
qed

text \<open>An end-of-frame interrupt ends the reception whatever came before. With a buffer handed
  in, the receive callback is pending; without one the end is remembered, the falling-line
  callback is no longer pending and nothing has been scheduled.\<close>

theorem end_of_frame_interrupt:
  assumes "end_irqs env fl" "uart_hw s \<noteq> 0" "intr_handle s \<noteq> 0" "seen_low s"
  shows "\<exists>t. uart_isr flen env s = Some t \<and> \<not> seen_low t \<and> \<not> cb_fall t \<and> rx_len t = 0 \<and>
    fifo_buf t = 0 \<and> data_left t = rx_len s \<and>
    (if fifo_buf s \<noteq> 0 then cb_rx t \<and> \<not> rx_ended t else rx_ended t \<and> cb_rx t = cb_rx s)"
proof -
  obtain u where u: "uart_isr flen env s = isr_end_rx env u" "fifo_buf u = fifo_buf s"
      "cb_rx u = cb_rx s" "uart_hw u = uart_hw s" "rx_len u = rx_len s"
    using uart_isr_end [OF assms] by blast
  obtain v where v: "uart_disable env (u\<lparr>data_left := rx_len u\<rparr>) = Some v"
    using uart_disable_returns [of "u\<lparr>data_left := rx_len u\<rparr>" env] u(4) assms(2) by auto
  have left: "data_left v = rx_len u"
    using v by (auto simp: uart_disable_def read_fifo_def take_rx_def clear_ctx_def emits_Cons pin_rx_def
        target_disable_irq_def target_enable_irq_def Let_def split: if_splits)
  show ?thesis
    using u v left uart_disable_result [OF v] uart_disable_rx [OF v]
    by (simp add: isr_end_rx_def Let_def) (simp add: schedule_timer0_def emits_Cons)
qed

text \<open>The break that opens a frame and the timeout that closes it.\<close>

definition tout_env :: env where
  "tout_env c l = (case c of
      Uart IntSt \<Rightarrow> ans0\<lparr>a_flags := {RXFIFO_TOUT}\<rparr> | Uart IntEna \<Rightarrow> ans0\<lparr>a_flags := {RXFIFO_TOUT}\<rparr>
    | _ \<Rightarrow> ans0)"

lemma end_irqs_tout: "end_irqs tout_env {RXFIFO_TOUT}"
  by (simp add: end_irqs_def tout_env_def END_RX_FLAGS_def ans0_def)

theorem end_of_frame_interrupt_witness:
  "\<exists>t. uart_isr 128 tout_env (boot_uart\<lparr>seen_low := True, cb_fall := True\<rparr>) = Some t \<and>
    rx_ended t \<and> \<not> cb_fall t"
  using end_of_frame_interrupt [OF end_irqs_tout, of "boot_uart\<lparr>seen_low := True, cb_fall := True\<rparr>" 128]
  by (auto simp: boot_defs)

text \<open>A reception that is set up after the end of a frame has been remembered completes at once:
  the receive callback runs with the buffer already withdrawn, and no byte reaches memory
  outside that buffer.\<close>

theorem late_reception_completes:
  assumes "rx_ended s" "rx_len s = 0" "tx_len s = 0" "uart_hw s \<noteq> 0" "rxfifo_reads env"
  shows "\<exists>t bs. uart_start_rx jd env data n s = jd Jd_rx_completed t \<and>
    \<not> rx_ended t \<and> \<not> seen_low t \<and> rx_len t = 0 \<and> fifo_buf t = 0 \<and> int_level t = int_level s \<and>
    memory t = mem_write (memory s) data bs \<and> length bs \<le> unat (ucast n :: u16)"
proof -
  let ?s3 = "target_enable_irq env ((target_disable_irq env s)\<lparr>fifo_buf := data, rx_len := ucast n\<rparr>)"
  obtain s4 where s4: "read_fifo True env (target_disable_irq env ?s3) = Some s4"
    using read_fifo_returns [of "target_disable_irq env ?s3" True env] assms(4) by auto
  let ?t = "target_enable_irq env ((target_disable_irq env (target_enable_irq env s4))
    \<lparr>seen_low := False, rx_ended := False, rx_len := 0, fifo_buf := 0\<rparr>)"
  note fr = read_fifo_frame [OF s4]
  have "uart_start_rx jd env data n s = jd Jd_rx_completed ?t"
    using assms fr s4 by (simp add: uart_start_rx_def uart_flush_rx_def Let_def)
  moreover have "rx_step (target_disable_irq env ?s3) s4" by (rule rx_step_read_fifo [OF assms(5) s4])
  then obtain bs where "memory s4 = mem_write (memory s) data bs"
      "length bs + unat (rx_len s4) \<le> unat (ucast n :: u16)"
    unfolding rx_step_def by auto
  ultimately show ?thesis using fr by (intro exI [of _ ?t] exI [of _ bs]) simp
qed

theorem late_reception_completes_witness:
  "\<exists>t. uart_start_rx (\<lambda>_. Some) five_env 0x2000 252 (boot_uart\<lparr>rx_ended := True\<rparr>) = Some t \<and>
    \<not> rx_ended t \<and> fifo_buf t = 0"
proof -
  have "rxfifo_reads five_env" by (simp add: rxfifo_reads_def five_env_def ans0_def)
  from late_reception_completes [OF _ _ _ _ this, of "boot_uart\<lparr>rx_ended := True\<rparr>" "\<lambda>_. Some" "0x2000" 252]
  show ?thesis by (auto simp: boot_defs)
qed

end
