(* ===== verification/JdLine.thy ===== *)
theory JdLine
  imports JdTransfer
begin

text \<open>
  What the bus driver of main/hw-esp32.c promises, as an abstract machine of the line, and the proof
  that the interrupt handler and the start of a transmission refine it.
\<close>

section \<open>The abstract line\<close>

text \<open>The line is quiet, another device holds it, or this driver sends and these bytes remain.\<close>

datatype line = Quiet | Hearing | Sending "u8 list"

text \<open>An interrupt moves from one line state to another, puts bytes on the wire and maybe the break that
  ends a frame. A quiet line may be taken by another device; a frame of another device may end;
  while sending, a part of the remaining bytes goes out, followed by the break exactly when it is
  the last part; and the line becomes quiet again only when nothing remains.\<close>

fun line_irq :: "line \<Rightarrow> u8 list \<Rightarrow> nat \<Rightarrow> line \<Rightarrow> bool" where
  "line_irq Quiet out brk l \<longleftrightarrow> out = [] \<and> brk = 0 \<and> (l = Quiet \<or> l = Hearing)"
| "line_irq Hearing out brk l \<longleftrightarrow> out = [] \<and> brk = 0 \<and> (l = Quiet \<or> l = Hearing)"
| "line_irq (Sending rest) out brk l \<longleftrightarrow>
     (\<exists>rest'. rest = out @ rest' \<and> l = Sending rest' \<and> brk = (if rest \<noteq> [] \<and> rest' = [] then 1 else 0)) \<or>
     rest = [] \<and> out = [] \<and> brk = 0 \<and> l = Quiet"

text \<open>Starting a frame: it is refused on a line that another device holds or takes at the same time;
  otherwise it is under way, a first part of it already sent.\<close>

fun line_start :: "line \<Rightarrow> u8 list \<Rightarrow> bool \<Rightarrow> u8 list \<Rightarrow> nat \<Rightarrow> line \<Rightarrow> bool" where
  "line_start l frame True out brk l' \<longleftrightarrow>
     l = Quiet \<and> (\<exists>rest. frame = out @ rest \<and> l' = Sending rest \<and> brk = (if rest = [] then 1 else 0))"
| "line_start l frame False out brk l' \<longleftrightarrow> out = [] \<and> brk = 0 \<and> (l' = l \<or> l = Quiet \<and> l' = Hearing)"

section \<open>The abstraction\<close>

definition line_of :: "'z jacdac_scheme \<Rightarrow> line" where
  "line_of s = (if in_tx s then Sending (tx_pending s) else if seen_low s then Hearing else Quiet)"

text \<open>What the hardware guarantees while the driver sends: the pin's input is cut off, so that only the two
  transmit causes occur, the second only after the break; and no receive buffer is set up while bytes
  remain.\<close>

definition sending_hw :: "env \<Rightarrow> 'z jacdac_scheme \<Rightarrow> bool" where
  "sending_hw env s \<longleftrightarrow> (in_tx s \<longrightarrow> (tx_len s = 0 \<or> rx_len s = 0) \<and>
     a_flags (query env (Uart IntSt) s) \<subseteq> {TXFIFO_EMPTY, TX_BRK_DONE} \<and>
     (TX_BRK_DONE \<in> a_flags (query env (Uart IntSt) s) \<longrightarrow> tx_len s = 0))"

lemma tx_pending_emit [simp]: "tx_pending (emit env c s) = tx_pending s"
  by (simp add: tx_pending_def)

lemma tx_pending_Nil: "tx_pending s = [] \<longleftrightarrow> tx_len s = 0"
  by (metis length_0_conv length_mem_read tx_pending_def unat_0_iff)

lemma if_casesE:
  "(if b then x else y) = z \<Longrightarrow> (b \<Longrightarrow> x = z \<Longrightarrow> P) \<Longrightarrow> (\<not> b \<Longrightarrow> y = z \<Longrightarrow> P) \<Longrightarrow> P"
  by (cases b) simp_all

lemma append_split:
  assumes "xs @ ys = us @ vs" "length ys \<le> length vs"
  shows "\<exists>out. xs = us @ out \<and> vs = out @ ys"
  using assms by (fastforce simp: append_eq_append_conv2)

text \<open>A refill puts the next part of the frame on the wire.\<close>

lemma fill_fifo_part:
  assumes "fill_fifo flen env s = Some t" "tx_len s \<noteq> 0"
    and "int (a_val (query env (Uart TxfifoCnt) s)) \<le> flen"
  shows "\<exists>out. tx_written (io t) = tx_written (io s) @ out \<and> tx_pending s = out @ tx_pending t \<and>
    tx_breaks (io t) = tx_breaks (io s) + (if tx_len t = 0 then 1 else 0)"
proof -
  have hw: "uart_hw s \<noteq> 0" using assms(1,2) by (auto simp: fill_fifo_def)
  from fill_fifo_step [OF hw assms(2,3)] assms(1)
  have eq: "tx_written (io t) @ tx_pending t = tx_written (io s) @ tx_pending s"
    and brk: "tx_breaks (io t) = tx_breaks (io s) + (if tx_len t = 0 then 1 else 0)"
    and len: "unat (tx_len t) \<le> unat (tx_len s)" by auto
  have "length (tx_pending t) \<le> length (tx_pending s)" using len by (simp add: tx_pending_def)
  from append_split [OF eq this] brk show ?thesis by blast
qed

text \<open>Emptying the receive FIFO leaves a transmission alone.\<close>

lemma read_fifo_pending:
  assumes rd: "read_fifo b env s = Some t" and free: "tx_len s = 0 \<or> rx_len s = 0"
  shows "tx_pending t = tx_pending s"
proof (cases "tx_len s = 0")
  case True
  with read_fifo_frame [OF rd] show ?thesis by (simp add: tx_pending_def)
next
  case False
  with free have "rx_len s = 0" by simp
  with rd show ?thesis by (auto simp: read_fifo_def take_rx_def tx_pending_def Let_def split: if_splits)
qed

lemma uart_disable_tx:
  assumes "uart_disable env s = Some t"
  shows "tx_written (io t) = tx_written (io s) \<and> tx_breaks (io t) = tx_breaks (io s)"
  using assms
  by (clarsimp simp: uart_disable_def emits_Cons io_emit clear_ctx_def Let_def split: if_splits
      dest!: tx_read_fifo)


text \<open>The state the branches of the handler start from: it stands for the same line.\<close>

definition same_state :: "'z jacdac_scheme \<Rightarrow> 'z jacdac_scheme \<Rightarrow> bool" where
  "same_state s u \<longleftrightarrow> in_tx u = in_tx s \<and> seen_low u = seen_low s \<and> tx_len u = tx_len s \<and>
     tx_pending u = tx_pending s \<and> tx_written (io u) = tx_written (io s) \<and>
     tx_breaks (io u) = tx_breaks (io s) \<and> uart_hw u = uart_hw s"

lemma same_state_read_fifo:
  assumes "read_fifo b env s = Some t" "in_tx s \<Longrightarrow> tx_len s = 0 \<or> rx_len s = 0" "\<not> in_tx s \<Longrightarrow> tx_len s = 0"
  shows "same_state s t"
  using read_fifo_frame [OF assms(1)] tx_read_fifo [OF assms(1)] read_fifo_pending [OF assms(1)] assms(2,3)
  by (auto simp: same_state_def)

text \<open>The step of the line that leads from one driver state to another.\<close>

definition line_step :: "'z jacdac_scheme \<Rightarrow> 'z jacdac_scheme \<Rightarrow> bool" where
  "line_step s t \<longleftrightarrow> (\<exists>out brk. tx_written (io t) = tx_written (io s) @ out \<and>
     tx_breaks (io t) = tx_breaks (io s) + brk \<and> line_irq (line_of s) out brk (line_of t))"

lemma line_of_same: "same_state s u \<Longrightarrow> line_of u = line_of s"
  by (simp add: same_state_def line_of_def)

lemma line_step_same: "same_state s u \<Longrightarrow> line_step u t \<Longrightarrow> line_step s t"
  by (simp add: line_step_def line_of_same) (simp add: same_state_def)

lemma line_step_refl: "line_step s s"
  by (auto simp: line_step_def line_of_def)

lemma line_step_rx:
  assumes "\<not> in_tx s" "\<not> in_tx t" "tx_written (io t) = tx_written (io s)" "tx_breaks (io t) = tx_breaks (io s)"
  shows "line_step s t"
  using assms by (auto simp: line_step_def line_of_def)

lemma line_step_fill:
  assumes "fill_fifo flen env s = Some t" "\<not> in_tx s \<Longrightarrow> tx_len s = 0"
    and "\<And>l. int (a_val (env (Uart TxfifoCnt) l)) \<le> flen"
  shows "line_step s t"
proof (cases "tx_len s = 0")
  case True
  with assms(1) show ?thesis by (simp add: fill_fifo_def line_step_refl)
next
  case False
  from fill_fifo_part [OF assms(1) False] assms(3) obtain out where
    "tx_written (io t) = tx_written (io s) @ out" "tx_pending s = out @ tx_pending t"
    "tx_breaks (io t) = tx_breaks (io s) + (if tx_pending t = [] then 1 else 0)"
    by (auto simp: query_def tx_pending_Nil)
  moreover have "line_of s = Sending (tx_pending s)" "line_of t = Sending (tx_pending t)" "tx_pending s \<noteq> []"
    using False assms(2) fill_fifo_frame [OF assms(1)] by (auto simp: line_of_def tx_pending_Nil)
  ultimately show ?thesis by (fastforce simp: line_step_def)
qed

lemma line_step_tx_done:
  assumes "isr_tx_done env s = Some t" "in_tx s \<Longrightarrow> tx_len s = 0"
  shows "line_step s t"
proof -
  let ?s2 = "(emit env (Uart (TxdBrk 0)) s)\<lparr>in_tx := False\<rparr>"
  obtain s3 where s3: "uart_disable env ?s2 = Some s3" and t: "t = schedule_timer0 env (s3\<lparr>cb_tx := True\<rparr>)"
    using assms(1) by (auto simp: isr_tx_done_def Let_def split: if_splits)
  from assms(2) have "in_tx s \<Longrightarrow> tx_pending s = []" by (simp add: tx_pending_Nil)
  moreover have "line_of t = Quiet" "tx_written (io t) = tx_written (io s)"
      "tx_breaks (io t) = tx_breaks (io s)"
    using uart_disable_result [OF s3] uart_disable_tx [OF s3]
    by (simp_all add: t line_of_def schedule_timer0_def emits_Cons io_emit)
  ultimately show ?thesis by (auto simp: line_step_def line_of_def)
qed

lemma line_step_end_rx:
  assumes "isr_end_rx env s = Some t" "\<not> in_tx s"
  shows "line_step s t"
proof -
  obtain s2 where s2: "uart_disable env (s\<lparr>data_left := rx_len s\<rparr>) = Some s2"
      and t: "t = (if fifo_buf s \<noteq> 0 then schedule_timer0 env (s2\<lparr>cb_rx := True\<rparr>) else s2\<lparr>rx_ended := True\<rparr>)"
    using assms(1) by (auto simp: isr_end_rx_def Let_def split: if_splits)
  show ?thesis
    using uart_disable_result [OF s2] uart_disable_tx [OF s2] assms(2)
    by (intro line_step_rx) (simp_all add: t schedule_timer0_def emits_Cons io_emit)
qed

lemma line_step_start_bg_rx:
  assumes "start_bg_rx env s = Some t"
  shows "line_step s t"
  using start_bg_rx_result [OF assms] tx_start_bg_rx [OF assms] by (intro line_step_rx) simp_all

lemma same_state_emits:
  "same_state s (emit env (Uart IntEna) (emit env (Uart (IntClr f)) (emit env (Uart IntSt) s)))"
  "same_state s (emit env (Uart (IntEnaBit i b)) s)"
  by (simp_all add: same_state_def io_emit)

lemma same_state_trans: "same_state s t \<Longrightarrow> same_state t u \<Longrightarrow> same_state s u"
  by (simp add: same_state_def)

section \<open>The handler refines the line\<close>

lemma uart_isr_line_step:
  assumes inv: "uart_inv s" and hw: "sending_hw env s" and isr: "uart_isr flen env s = Some t"
    and cnt: "\<And>l. int (a_val (env (Uart TxfifoCnt) l)) \<le> flen"
  shows "line_step s t"
proof (cases "intr_handle s = 0")
  case True
  with isr show ?thesis by (simp add: uart_isr_def line_step_refl)
next
  case False
  let ?s3 = "emit env (Uart IntEna)
       (emit env (Uart (IntClr (a_flags (query env (Uart IntSt) s)))) (emit env (Uart IntSt) s))"
  from isr False obtain s4 status where s4: "read_fifo False env ?s3 = Some s4"
    and rest: "isr_branch flen env status s4 = Some t"
    and status: "status \<subseteq> a_flags (query env (Uart IntSt) s)"
    by (rule uart_isr_split)
  have idle: "\<not> in_tx s \<Longrightarrow> tx_len s = 0" using inv by (auto simp: uart_inv_def)
  have "same_state ?s3 s4"
    using s4 hw idle by (intro same_state_read_fifo) (auto simp: sending_hw_def)
  then have same: "same_state s s4" by (rule same_state_trans [OF same_state_emits(1)])
  have idle4: "\<not> in_tx s4 \<Longrightarrow> tx_len s4 = 0"
    and tx4: "in_tx s4 \<Longrightarrow> status \<inter> END_RX_FLAGS = {} \<and> BRK_DET \<notin> status"
    and done4: "in_tx s4 \<Longrightarrow> TX_BRK_DONE \<in> status \<Longrightarrow> tx_len s4 = 0"
    using same idle hw status by (auto simp: same_state_def sending_hw_def END_RX_FLAGS_def)
  consider "start_bg_rx env s4 = Some t" | "TX_BRK_DONE \<in> status" "isr_tx_done env s4 = Some t"
    | "fill_fifo flen env (emit env (Uart (IntEnaBit TXFIFO_EMPTY False)) s4) = Some t"
    | "status \<inter> END_RX_FLAGS \<noteq> {}" "isr_end_rx env s4 = Some t" | "t = s4"
    using rest by (elim if_casesE) (blast, blast, blast, blast, blast)
  then have "line_step s4 t"
  proof cases
    case 3
    have "line_step (emit env (Uart (IntEnaBit TXFIFO_EMPTY False)) s4) t"
      using idle4 by (intro line_step_fill [OF 3 _ cnt]) simp
    then show ?thesis by (rule line_step_same [OF same_state_emits(2)])
  next
    case 1
    then show ?thesis by (rule line_step_start_bg_rx)
  next
    case 2
    from done4 [OF _ 2(1)] show ?thesis by (rule line_step_tx_done [OF 2(2)])
  next
    case 4
    from 4(1) tx4 have "\<not> in_tx s4" by blast
    with 4(2) show ?thesis by (rule line_step_end_rx)
  next
    case 5
    then show ?thesis by (simp add: line_step_refl)
  qed
  with same show ?thesis by (rule line_step_same)
qed

text \<open>The start of a transmission refines the start on the line.\<close>

lemma uart_start_line:
  assumes "clock_passes env" "\<And>l. int (a_val (env (Uart TxfifoCnt) l)) \<le> flen"
    and "uart_hw s \<noteq> 0" "tx_len s = 0" "\<not> in_tx s" "n \<noteq> 0" "unat n < 2 ^ 16"
  shows "\<exists>r t out brk. uart_start_tx jd flen env data n s = Some (r, t) \<and> (r = 0 \<or> r = -1) \<and>
    tx_written (io t) = tx_written (io s) @ out \<and> tx_breaks (io t) = tx_breaks (io s) + brk \<and>
    line_start (line_of s) (mem_read (memory s) data (unat n)) (r = 0) out brk (line_of t)"
  using assms(3-5)
proof (cases rule: uart_start_tx_split [where jd = jd and flen = flen and env = env and data = data and n = n])
  case (busy t)
  with assms(5) show ?thesis by (simp add: same_line_def line_of_def)
next
  case (driven s5)
  note five = driven(1) [unfolded same_line_def]
  have quiet: "line_of s = Quiet" using driven(3) assms(5) by (simp add: line_of_def)
  from driven(4) show ?thesis
  proof
    assume run: "uart_start_tx jd flen env data n s =
      do { s6 \<leftarrow> tx_race env s5; Some (-1, target_enable_irq env s6) }"
    obtain t where "tx_race env s5 = Some t" "\<not> in_tx t"
        "tx_written (io t) = tx_written (io s5)" "tx_breaks (io t) = tx_breaks (io s5)"
      using tx_race_returns [of s5 env] five assms(3,5) by auto
    with run five quiet show ?thesis by (simp add: line_of_def)
  next
    assume run: "uart_start_tx jd flen env data n s = drive_tx flen env data n s5"
    obtain t where t: "drive_tx flen env data n s5 = Some (0, t)" "in_tx t"
        "tx_written (io t) @ tx_pending t = tx_written (io s) @ mem_read (memory s) data (unat n)"
        "tx_breaks (io t) = tx_breaks (io s) + (if tx_len t = 0 then 1 else 0)"
        "unat (tx_len t) \<le> unat n"
      using drive_tx_data [OF assms(1), of s5 n flen data] five assms driven(3) by auto
    have "length (tx_pending t) \<le> length (mem_read (memory s) data (unat n))"
      using t(5) by (simp add: tx_pending_def)
    from append_split [OF t(3) this] obtain out where "tx_written (io t) = tx_written (io s) @ out"
        "mem_read (memory s) data (unat n) = out @ tx_pending t" by blast
    with run t quiet show ?thesis by (auto simp: line_of_def tx_pending_Nil)
  qed
qed

text \<open>The handler never panics under the same assumptions.\<close>

lemma fill_fifo_returns: "uart_hw s \<noteq> 0 \<Longrightarrow> \<exists>t. fill_fifo flen env s = Some t"
  by (simp add: fill_fifo_def Let_def)

lemma isr_branch_returns:
  assumes "uart_hw s4 \<noteq> 0" "in_tx s4 \<Longrightarrow> BRK_DET \<notin> status"
  shows "\<exists>t. isr_branch flen env status s4 = Some t"
proof -
  have "\<exists>t. start_bg_rx env s4 = Some t" if "BRK_DET \<in> status"
    using start_bg_rx_returns [of s4 env] assms that by blast
  moreover have "\<exists>t. isr_tx_done env s4 = Some t"
    using uart_disable_returns [of "(emit env (Uart (TxdBrk 0)) s4)\<lparr>in_tx := False\<rparr>" env] assms(1)
    by (auto simp: isr_tx_done_def)
  moreover have "\<exists>t. isr_end_rx env s4 = Some t"
    using uart_disable_returns [of "s4\<lparr>data_left := rx_len s4\<rparr>" env] assms(1)
    by (auto simp: isr_end_rx_def)
  moreover have "\<exists>t. fill_fifo flen env (emit env (Uart (IntEnaBit TXFIFO_EMPTY False)) s4) = Some t"
    using assms(1) by (intro fill_fifo_returns) simp
  ultimately show ?thesis by simp
qed

lemma uart_isr_returns:
  assumes "uart_hw s \<noteq> 0" "in_tx s \<Longrightarrow> BRK_DET \<notin> a_flags (query env (Uart IntSt) s)"
  shows "\<exists>t. uart_isr flen env s = Some t"
proof -
  define st e where "st = query env (Uart IntSt) s"
    and "e = query env (Uart IntEna) (emit env (Uart (IntClr (a_flags st))) (emit env (Uart IntSt) s))"
  obtain s4 where s4: "read_fifo False env (emit env (Uart IntEna)
       (emit env (Uart (IntClr (a_flags st))) (emit env (Uart IntSt) s))) = Some s4"
    using read_fifo_returns [of "emit env (Uart IntEna) (emit env (Uart (IntClr (a_flags st)))
       (emit env (Uart IntSt) s))"] assms(1) by auto
  have "\<exists>t. isr_branch flen env (a_flags st \<inter> a_flags e) s4 = Some t"
    using read_fifo_frame [OF s4] assms by (intro isr_branch_returns) (auto simp: st_def)
  then obtain t where "isr_branch flen env (a_flags st \<inter> a_flags e) s4 = Some t" ..
  with s4 assms(1) have "uart_isr flen env s = (if intr_handle s = 0 then Some s else Some t)"
    unfolding uart_isr_def st_def e_def by (simp add: Let_def split del: if_split cong: if_cong)
  then show ?thesis by simp
qed

section \<open>Whole transmissions\<close>

text \<open>Interrupts in a row, each in a state the hardware allows.\<close>

inductive isr_run :: "int \<Rightarrow> env \<Rightarrow> 'z jacdac_scheme \<Rightarrow> 'z jacdac_scheme \<Rightarrow> bool" for flen env where
  stop: "isr_run flen env s s"
| irq: "sending_hw env s \<Longrightarrow> uart_isr flen env s = Some u \<Longrightarrow> isr_run flen env u t \<Longrightarrow> isr_run flen env s t"

text \<open>The line's own runs: what it sends from one state to another.\<close>

inductive line_run :: "line \<Rightarrow> u8 list \<Rightarrow> nat \<Rightarrow> line \<Rightarrow> bool" where
  stop: "line_run l [] 0 l"
| irq: "line_irq l out brk l' \<Longrightarrow> line_run l' outs brks l'' \<Longrightarrow> line_run l (out @ outs) (brk + brks) l''"

text \<open>A line that does not send stays so and carries nothing.\<close>

lemma line_run_idle:
  "line_run l out brk l' \<Longrightarrow> (\<And>r. l \<noteq> Sending r) \<Longrightarrow> out = [] \<and> brk = 0 \<and> (\<forall>r. l' \<noteq> Sending r)"
proof (induction rule: line_run.induct)
  case (irq l out brk l' outs brks l'')
  then show ?case by (cases l) auto
qed simp

text \<open>A frame that was begun and is no longer being sent is out in full, followed by one break.\<close>

lemma line_run_sends:
  assumes "line_run l out brk l'" "l = Sending rest"
  shows "(case l' of
      Sending rest' \<Rightarrow> rest = out @ rest' \<and> brk = (if rest \<noteq> [] \<and> rest' = [] then 1 else 0)
    | _ \<Rightarrow> out = rest \<and> brk = (if rest \<noteq> [] then 1 else 0))"
  using assms
proof (induction arbitrary: rest rule: line_run.induct)
  case (irq l out brk l' outs brks l'')
  from irq.hyps(1) irq.prems consider
      rest' where "rest = out @ rest'" "l' = Sending rest'" "brk = (if rest \<noteq> [] \<and> rest' = [] then 1 else 0)"
    | "rest = []" "out = []" "brk = 0" "l' = Quiet" by auto
  then show ?case
  proof cases
    case 1
    with irq.IH [OF 1(2)] show ?thesis by (auto split: line.splits)
  next
    case 2
    with line_run_idle [OF irq.hyps(2)] show ?thesis by (auto split: line.splits)
  qed
qed simp

lemma isr_run_line_run:
  assumes "isr_run flen env s t" "uart_inv s" "\<And>l. int (a_val (env (Uart TxfifoCnt) l)) \<le> flen"
  shows "\<exists>out brk. tx_written (io t) = tx_written (io s) @ out \<and> tx_breaks (io t) = tx_breaks (io s) + brk \<and>
    line_run (line_of s) out brk (line_of t)"
  using assms(1,2)
proof induction
  case (stop s)
  show ?case by (auto intro: line_run.stop)
next
  case (irq s u t)
  from keeps_uart_isr [OF irq.hyps(2)] irq.prems have "uart_inv u" by (simp add: keeps_def)
  from irq.IH [OF this] obtain o2 b2 where 2: "tx_written (io t) = tx_written (io u) @ o2"
    "tx_breaks (io t) = tx_breaks (io u) + b2" "line_run (line_of u) o2 b2 (line_of t)" by blast
  from uart_isr_line_step [OF irq.prems irq.hyps(1,2) assms(3)] obtain o1 b1 where
    "tx_written (io u) = tx_written (io s) @ o1" "tx_breaks (io u) = tx_breaks (io s) + b1"
    "line_irq (line_of s) o1 b1 (line_of u)" by (auto simp: line_step_def)
  with 2 line_run.irq show ?case by (intro exI [of _ "o1 @ o2"] exI [of _ "b1 + b2"]) simp
qed

section \<open>Properties\<close>


text \<open>A line that asks for more bytes until the break has been sent, and then reports its end.\<close>

definition frame_env :: env where
  "frame_env c l = (case c of
      Gpio GpioEnableRead \<Rightarrow> ans0\<lparr>a_val := 32\<rparr>
    | Sys GetTime \<Rightarrow> ans0\<lparr>a_val := length l\<rparr>
    | Uart IntSt \<Rightarrow> ans0\<lparr>a_flags := if tx_breaks l = 0 then {TXFIFO_EMPTY} else {TX_BRK_DONE}\<rparr>
    | Uart IntEna \<Rightarrow> ans0\<lparr>a_flags := {TXFIFO_EMPTY, TX_BRK_DONE}\<rparr>
    | _ \<Rightarrow> ans0)"

lemma frame_env_cnt: "a_val (frame_env (Uart TxfifoCnt) l) = 0"
  by (simp add: frame_env_def ans0_def)

lemma sending_hw_frame_env:
  "tx_breaks (io s) = 0 \<or> tx_len s = 0 \<Longrightarrow> rx_len s = 0 \<Longrightarrow> sending_hw frame_env s"
  by (auto simp: sending_hw_def query_def frame_env_def ans0_def)


lemma uart_start_inv:
  assumes "uart_hw s \<noteq> 0" "uart_inv s" "uart_start_tx jd flen env data n s = Some (r, u)"
  shows "uart_inv u"
proof -
  have "uart_start_tx (\<lambda>_ _. None) flen env data n s = Some (r, u)"
    using assms(1,3) by (simp add: uart_start_tx_def)
  from keeps_uart_start_tx [OF this] assms(2) show ?thesis by (simp add: keeps_def)
qed


lemma frame_env_clock: "clock_passes frame_env"
  by (rule clock_passes_length) (simp add: frame_env_def ans0_def)

lemma drive_tx_handle:
  "drive_tx flen env data n s = Some (r, t) \<Longrightarrow> intr_handle t = intr_handle s"
  by (auto simp: drive_tx_def polled_def pin_tx_def split: if_splits
      dest!: target_wait_us_result fill_fifo_handle)

text \<open>A driver at rest on the idle line starts a frame, which fits the FIFO; the first interrupt
  releases the line.\<close>

lemma frame_starts:
  "\<exists>u. uart_start_tx jd 128 frame_env 0x100 20 boot_uart = Some (0, u) \<and> in_tx u \<and> tx_len u = 0 \<and>
    uart_hw u \<noteq> 0 \<and> intr_handle u \<noteq> 0 \<and> tx_breaks (io u) = 1"
proof -
  obtain v where v: "uart_start_tx jd 128 frame_env 0x100 20 boot_uart = drive_tx 128 frame_env 0x100 20 v"
      "uart_hw v \<noteq> 0" "\<not> seen_low v" "intr_handle v \<noteq> 0" "tx_breaks (io v) = 0"
    by (simp add: uart_start_tx_def line_busy_def probe_and_set_def pin_mask_def emits_Cons boot_defs
        query_def frame_env_def ans0_def io_emit)
  obtain u where u: "drive_tx 128 frame_env 0x100 20 v = Some (0, u)" "in_tx u" "uart_hw u = uart_hw v"
      "tx_len u = 0" "tx_breaks (io u) = 1"
    using drive_tx_data [OF frame_env_clock v(2,3), of 20 128 "0x100"] v(5) by (auto simp: frame_env_cnt)
  with v drive_tx_handle [OF u(1)] show ?thesis by auto
qed

lemma frame_env_releases:
  assumes "tx_breaks (io u) = 1" "uart_hw u \<noteq> 0" "intr_handle u \<noteq> 0"
  shows "\<exists>t. uart_isr 128 frame_env u = Some t \<and> \<not> in_tx t"
proof -
  have "\<exists>v. uart_isr 128 frame_env u = isr_tx_done frame_env v \<and> uart_hw v \<noteq> 0"
    using assms by (intro exI [of _ "emit frame_env (Uart RxfifoCnt) (emit frame_env (Uart IntEna)
        (emit frame_env (Uart (IntClr {TX_BRK_DONE})) (emit frame_env (Uart IntSt) u)))"])
      (simp add: uart_isr_def read_fifo_def query_def frame_env_def ans0_def io_emit Let_def)
  then obtain v where v: "uart_isr 128 frame_env u = isr_tx_done frame_env v" "uart_hw v \<noteq> 0" by blast
  obtain w where w: "uart_disable frame_env ((emit frame_env (Uart (TxdBrk 0)) v)\<lparr>in_tx := False\<rparr>) = Some w"
    using uart_disable_returns [of "(emit frame_env (Uart (TxdBrk 0)) v)\<lparr>in_tx := False\<rparr>" frame_env] v(2)
    by auto
  with v uart_disable_result [OF w] show ?thesis by (simp add: isr_tx_done_def)
qed


end
