(* ===== verification/JdCalls.thy ===== *)
theory JdCalls
  imports JdBus
begin

text \<open>
  How a relation that every single call and every single update of the bus driver of main/hw-esp32.c
  keeps is lifted to its operations, and so, by \<open>uart_relation\<close>, to its runs.
\<close>

section \<open>The calls of the driver\<close>

text \<open>All of them but those that set the timer of the deferred callbacks going.\<close>

fun uart_call :: "call \<Rightarrow> bool" where
  "uart_call (Uart u) = True"
| "uart_call (Gpio g) = True"
| "uart_call (Rtos EnterCriticalISR) = True"
| "uart_call (Rtos ExitCriticalISR) = True"
| "uart_call (Rtos (QSendFromISR q (Job f a))) = True"
| "uart_call (Sys GetTime) = True"
| "uart_call (Sys (TimerStop x)) = (x = T_timer \<or> x = T_worker)"
| "uart_call (Sys (TimerStartOnce x d)) = (x = T_timer \<or> x = T_worker)"
| "uart_call _ = False"

locale uart_calls =
  fixes env :: env
    and K :: "'z jacdac_scheme \<Rightarrow> 'z jacdac_scheme \<Rightarrow> bool"
  assumes u_refl: "K s s"
    and u_trans: "K s t \<Longrightarrow> K t u \<Longrightarrow> K s u"
    and u_call: "uart_call c \<Longrightarrow> K s (emit env c s)"
    and u_fields: "K s (s\<lparr>seen_low := b\<rparr>)" "K s (s\<lparr>rx_ended := b\<rparr>)" "K s (s\<lparr>in_tx := b\<rparr>)"
      "K s (s\<lparr>tx_len := n\<rparr>)" "K s (s\<lparr>rx_len := n\<rparr>)" "K s (s\<lparr>data_left := n\<rparr>)" "K s (s\<lparr>fifo_buf := p\<rparr>)"
      "K s (s\<lparr>timer_cb := f\<rparr>)" "K s (s\<lparr>memory := m\<rparr>)" "K s (s\<lparr>int_level := i\<rparr>)"
      "K s (s\<lparr>cb_rx := False\<rparr>)" "K s (s\<lparr>cb_tx := False\<rparr>)" "K s (s\<lparr>cb_fall := False\<rparr>)"
    and u_schedule: "K s (schedule_timer0 env (s\<lparr>cb_rx := b\<rparr>))" "K s (schedule_timer0 env (s\<lparr>cb_tx := b\<rparr>))"
      "K s (schedule_timer0 env (s\<lparr>cb_fall := b\<rparr>))"
begin

lemmas base [simp] = u_refl u_fields [THEN u_trans [rotated]] u_schedule [THEN u_trans [rotated]]

lemma call [simp]: "K s t \<Longrightarrow> uart_call c \<Longrightarrow> K s (emit env c t)"
  by (rule u_trans [OF _ u_call])

lemma calls [simp]: "K s t \<Longrightarrow> list_all uart_call cs \<Longrightarrow> K s (emits env cs t)"
  by (induction cs arbitrary: t) (simp_all add: emits_Cons)

lemma irq [simp]: "K s t \<Longrightarrow> K s (target_disable_irq env t)" "K s t \<Longrightarrow> K s (target_enable_irq env t)"
  by (simp_all add: target_disable_irq_def target_enable_irq_def Let_def)

lemma polling [simp]: "K s t \<Longrightarrow> K s (polled env n t)"
  by (induction n arbitrary: t) (simp_all add: polled_Suc)

text \<open>The operations.\<close>

lemma pins [simp]:
  "K s t \<Longrightarrow> K s (pin_rx env t)" "K s t \<Longrightarrow> K s (pin_tx env t)" "K s t \<Longrightarrow> K s (enable_end_rx env t)"
  "K s t \<Longrightarrow> K s (probe_and_set env msk t)" "K s t \<Longrightarrow> K s (take_rx env n t)" "K s t \<Longrightarrow> K s (write_tx env k t)"
  by (simp_all add: pin_rx_def pin_tx_def enable_end_rx_def probe_and_set_def take_rx_def write_tx_def Let_def)

lemma clear [simp]: "K s t \<Longrightarrow> K s (clear_ctx t)"
proof -
  have "clear_ctx t = t\<lparr>seen_low := False\<rparr>\<lparr>cb_fall := False\<rparr>\<lparr>rx_len := 0\<rparr>\<lparr>tx_len := 0\<rparr>\<lparr>fifo_buf := 0\<rparr>\<lparr>rx_ended := False\<rparr>"
    by (simp add: clear_ctx_def)
  then show "K s t \<Longrightarrow> K s (clear_ctx t)" by (simp only: base)
qed

lemma line_high [simp]: "K s t \<Longrightarrow> K s (wait_line_high n env t)"
  by (induction n arbitrary: t) (simp_all add: Let_def)

lemma k_read_fifo: "K s t \<Longrightarrow> returns (read_fifo force env t) (K s)"
  unfolding read_fifo_def by (intro walk) simp_all

lemma k_fill_fifo: "K s t \<Longrightarrow> returns (fill_fifo flen env t) (K s)"
  unfolding fill_fifo_def by (intro walk) simp_all

lemma k_disable: "K s t \<Longrightarrow> returns (uart_disable env t) (K s)"
  unfolding uart_disable_def by (intro walk k_read_fifo [where s = s, THEN returns_weaken]) simp_all

lemma k_start_bg_rx: "K s t \<Longrightarrow> returns (start_bg_rx env t) (K s)"
  unfolding start_bg_rx_def by (intro walk k_read_fifo [where s = s, THEN returns_weaken]) simp_all

lemma k_isr_tx_done: "K s t \<Longrightarrow> returns (isr_tx_done env t) (K s)"
  unfolding isr_tx_done_def by (intro walk k_disable [where s = s, THEN returns_weaken]) simp_all

lemma k_isr_end_rx: "K s t \<Longrightarrow> returns (isr_end_rx env t) (K s)"
  unfolding isr_end_rx_def by (intro walk k_disable [where s = s, THEN returns_weaken]) auto

lemma k_isr: "K s t \<Longrightarrow> returns (uart_isr flen env t) (K s)"
  unfolding uart_isr_def
  by (intro walk k_read_fifo [where s = s, THEN returns_weaken] k_start_bg_rx k_isr_tx_done k_fill_fifo k_isr_end_rx)
    simp_all

lemma k_wait_us: "K s t \<Longrightarrow> returns (target_wait_us env n t) (K s)"
  by (auto simp: returns_def dest!: target_wait_us_result)

lemma k_callback:
  assumes "\<And>c a b. jd c a = Some b \<Longrightarrow> K a b" "K s t"
  shows "returns (jd c t) (K s)"
  unfolding returns_def using assms u_trans by blast

lemma k_line_busy: "K s t \<Longrightarrow> K s (snd (line_busy env t))"
  by (simp add: line_busy_def Let_def)

lemma k_drive_tx: "K s t \<Longrightarrow> returns (drive_tx flen env data n t) (\<lambda>p. K s (snd p))"
  unfolding drive_tx_def
  by (intro walk k_wait_us [where s = s, THEN returns_weaken] k_fill_fifo [where s = s, THEN returns_weaken])
    simp_all

lemma k_tx_race: "K s t \<Longrightarrow> returns (tx_race env t) (K s)"
  unfolding tx_race_def by (intro walk k_start_bg_rx [where s = s, THEN returns_weaken]) simp_all

lemma k_start_tx:
  assumes jd: "\<And>c a b. jd c a = Some b \<Longrightarrow> K a b"
  shows "returns (uart_start_tx jd flen env data n s) (\<lambda>p. K s (snd p))"
  unfolding uart_start_tx_def
  by (intro walk k_callback [where s = s, OF jd, THEN returns_weaken]
      k_tx_race [where s = s, THEN returns_weaken] k_drive_tx)
    (simp_all add: k_line_busy)

lemma k_flush_rx: "K s t \<Longrightarrow> returns (uart_flush_rx env t) (K s)"
  unfolding uart_flush_rx_def by (intro walk k_read_fifo [where s = s, THEN returns_weaken]) simp_all

lemma k_start_rx:
  assumes jd: "\<And>c a b. jd c a = Some b \<Longrightarrow> K a b"
  shows "returns (uart_start_rx jd env data n s) (K s)"
  unfolding uart_start_rx_def
  by (intro walk k_flush_rx [where s = s, THEN returns_weaken] k_callback [where s = s, OF jd]) simp_all

lemma k_timer0:
  assumes jd: "\<And>c a b. jd c a = Some b \<Longrightarrow> K a b" and run: "jd_timer0 jd s = Some t"
  shows "K s t"
proof -
  have flag: "K s b" if "(if p then jd c a' else Some a) = Some b" "K s a" "K s a \<Longrightarrow> K s a'" for p c a a' b
    using that jd u_trans by (auto split: if_splits)
  obtain s1 s2 where
      "(if cb_rx s then jd Jd_rx_completed (s\<lparr>cb_rx := False\<rparr>) else Some s) = Some s1"
      "(if cb_tx s1 then jd Jd_tx_completed (s1\<lparr>cb_tx := False\<rparr>) else Some s1) = Some s2"
      "(if cb_fall s2 then jd Jd_line_falling (s2\<lparr>cb_fall := False\<rparr>) else Some s2) = Some t"
    using run by (auto simp: jd_timer0_def)
  from flag [OF this(1)] flag [OF this(2)] flag [OF this(3)] show ?thesis by simp
qed

lemma k_timer:
  assumes exec: "\<And>f x a b. exec f x a = Some b \<Longrightarrow> K a b"
  shows "returns (jd_timer exec env s) (K s)"
proof -
  have "returns (exec f x t) (K s)" if "K s t" for f x t
    unfolding returns_def using exec that u_trans by blast
  then show ?thesis unfolding jd_timer_def by (intro walk) simp_all
qed

lemma k_set_timer: "K s (tim_set_timer ov env d f s)"
  by (simp add: tim_set_timer_def Let_def)

lemma k_post: "K s (snd (tim_worker_run env f x s))"
  by (simp add: tim_worker_run_def worker_run_def Let_def)

end

sublocale uart_calls \<subseteq> uart_relation flen env K for flen
proof unfold_locales
  fix s t u
  show "K s t \<Longrightarrow> K t u \<Longrightarrow> K s u" by (rule u_trans)
  show "uart_isr flen env s = Some t \<Longrightarrow> K s t" by (rule returnsD [OF k_isr]) simp_all
  show "uart_flush_rx env s = Some t \<Longrightarrow> K s t" by (rule returnsD [OF k_flush_rx]) simp_all
  show "uart_disable env s = Some t \<Longrightarrow> K s t" by (rule returnsD [OF k_disable]) simp_all
  fix jd exec data n r
  show "uart_start_tx jd flen env data n s = Some (r, t) \<Longrightarrow> (\<And>c a b. jd c a = Some b \<Longrightarrow> K a b) \<Longrightarrow> K s t"
    using returnsD [OF k_start_tx] by fastforce
  show "uart_start_rx jd env data n s = Some t \<Longrightarrow> (\<And>c a b. jd c a = Some b \<Longrightarrow> K a b) \<Longrightarrow> K s t"
    using returnsD [OF k_start_rx] by blast
  show "jd_timer0 jd s = Some t \<Longrightarrow> (\<And>c a b. jd c a = Some b \<Longrightarrow> K a b) \<Longrightarrow> K s t"
    using k_timer0 by blast
  show "jd_timer exec env s = Some t \<Longrightarrow> (\<And>f x a b. exec f x a = Some b \<Longrightarrow> K a b) \<Longrightarrow> K s t"
    using returnsD [OF k_timer] by blast
qed (simp_all add: k_set_timer k_post)

end
