(* ===== verification/JdCallbacks.thy ===== *)
theory JdCallbacks
  imports JdCalls
begin

text \<open>
  The deferred callbacks of main/hw-esp32.c. Interrupts may not call jacdac-c: they set one of the
  flags \<open>cb_rx\<close>, \<open>cb_tx\<close> and \<open>cb_fall\<close> and start a timer with no delay, whose handler \<open>jd_timer0\<close>
  makes the calls. No flag is ever left set without the timer to deliver it.
\<close>

section \<open>The timer, read off the history\<close>

text \<open>How often it was stopped or started, and whether the last of these left it running.\<close>

fun timer0_ops :: "io_log \<Rightarrow> nat" where
  "timer0_ops [] = 0"
| "timer0_ops ((Sys (TimerStop x), a) # l) = (if x = T_timer0 then Suc (timer0_ops l) else timer0_ops l)"
| "timer0_ops ((Sys (TimerStartOnce x d), a) # l) =
     (if x = T_timer0 then Suc (timer0_ops l) else timer0_ops l)"
| "timer0_ops (_ # l) = timer0_ops l"

fun timer0_on :: "io_log \<Rightarrow> bool" where
  "timer0_on [] = False"
| "timer0_on ((Sys (TimerStop x), a) # l) = (x \<noteq> T_timer0 \<and> timer0_on l)"
| "timer0_on ((Sys (TimerStartOnce x d), a) # l) = (x = T_timer0 \<and> a_ret a = 0 \<or> timer0_on l)"
| "timer0_on (_ # l) = timer0_on l"

text \<open>A timer that was just stopped can be started.\<close>

definition starts_timer0 :: "env \<Rightarrow> bool" where
  "starts_timer0 env \<longleftrightarrow> (\<forall>l. a_ret (env (Sys (TimerStartOnce T_timer0 0)) l) = 0)"

definition callback_pending :: "'z jacdac_scheme \<Rightarrow> bool" where
  "callback_pending s \<longleftrightarrow> cb_rx s \<or> cb_tx s \<or> cb_fall s"

section \<open>What every operation keeps\<close>

text \<open>Either the timer is not touched and no flag becomes set, or the timer is left running.\<close>

definition rearms :: "'z jacdac_scheme \<Rightarrow> 'z jacdac_scheme \<Rightarrow> bool" where
  "rearms s t \<longleftrightarrow> timer0_ops (io s) \<le> timer0_ops (io t) \<and>
     (if timer0_ops (io t) = timer0_ops (io s)
      then timer0_on (io t) = timer0_on (io s) \<and>
        (cb_rx t \<longrightarrow> cb_rx s) \<and> (cb_tx t \<longrightarrow> cb_tx s) \<and> (cb_fall t \<longrightarrow> cb_fall s)
      else timer0_on (io t))"

lemma rearms_refl [simp]: "rearms s s"
  by (simp add: rearms_def)

lemma rearms_trans: "rearms s t \<Longrightarrow> rearms t u \<Longrightarrow> rearms s u"
  by (auto simp: rearms_def split: if_splits)

text \<open>Calls that do not concern the timer keep it, and so does setting a flag and starting the timer.\<close>

lemma timer0_other:
  "uart_call c \<Longrightarrow> timer0_ops ((c, a) # l) = timer0_ops l \<and> timer0_on ((c, a) # l) = timer0_on l"
  by (cases c rule: uart_call.cases) auto

interpretation callbacks: uart_calls env "\<lambda>s t. starts_timer0 env \<longrightarrow> rearms s t" for env
proof
  fix s t u :: "'a jacdac_scheme"
  assume "starts_timer0 env \<longrightarrow> rearms s t" "starts_timer0 env \<longrightarrow> rearms t u"
  then show "starts_timer0 env \<longrightarrow> rearms s u" using rearms_trans by blast
qed (auto simp: rearms_def io_emit timer0_other schedule_timer0_def starts_timer0_def emits_Cons)

text \<open>The handler clears each flag before it makes the call, so afterwards none is set unless the timer
  has been started again meanwhile.\<close>

lemma rearms_timer0:
  assumes jd: "\<And>c a b. jd c a = Some b \<Longrightarrow> rearms a b" and "jd_timer0 jd s = Some t"
  shows "rearms s t \<and> (timer0_ops (io t) = timer0_ops (io s) \<longrightarrow> \<not> callback_pending t)"
proof -
  obtain s1 s2 where
      1: "(if cb_rx s then jd Jd_rx_completed (s\<lparr>cb_rx := False\<rparr>) else Some s) = Some s1"
    and 2: "(if cb_tx s1 then jd Jd_tx_completed (s1\<lparr>cb_tx := False\<rparr>) else Some s1) = Some s2"
    and 3: "(if cb_fall s2 then jd Jd_line_falling (s2\<lparr>cb_fall := False\<rparr>) else Some s2) = Some t"
    using assms(2) by (auto simp: jd_timer0_def)
  have r: "rearms (s\<lparr>cb_rx := False\<rparr>) s1" "rearms (s1\<lparr>cb_tx := False\<rparr>) s2" "rearms (s2\<lparr>cb_fall := False\<rparr>) t"
    using 1 2 3 jd by (auto split: if_splits) (simp_all add: rearms_def)
  then have "rearms s s1" "rearms s1 s2" "rearms s2 t" by (auto simp: rearms_def split: if_splits)
  with r show ?thesis
    by (auto simp: rearms_def callback_pending_def split: if_splits)
qed

section \<open>Property\<close>

text \<open>The driver with its timer: the operations start and stop it as the history says, and when it fires
  it runs \<open>jd_timer0\<close> and is no longer running, unless it is started again during the calls.\<close>

definition running_after :: "bool \<Rightarrow> io_log \<Rightarrow> io_log \<Rightarrow> bool" where
  "running_after a l l' = (if timer0_ops l' = timer0_ops l then a else timer0_on l')"

inductive callback_step ::
    "int \<Rightarrow> env \<Rightarrow> bool \<times> 'z jacdac_scheme \<Rightarrow> bool \<times> 'z jacdac_scheme \<Rightarrow> bool"
  for flen :: int and env :: env where
  call: "uart_step flen env s t \<Longrightarrow> callback_step flen env (a, s) (running_after a (io s) (io t), t)"
| fire: "jd_timer0 jd s = Some t \<Longrightarrow>
    (\<forall>c a b. jd c a = Some b \<longrightarrow> (uart_step flen env)\<^sup>*\<^sup>* a b) \<Longrightarrow>
    callback_step flen env (True, s) (running_after False (io s) (io t), t)"

lemma fire_callbacks:
  assumes "starts_timer0 env" "jd_timer0 jd s = Some t" "\<forall>c a b. jd c a = Some b \<longrightarrow> (uart_step flen env)\<^sup>*\<^sup>* a b"
  shows "rearms s t \<and> (timer0_ops (io t) = timer0_ops (io s) \<longrightarrow> \<not> callback_pending t)"
proof (rule rearms_timer0 [OF _ assms(2)])
  show "rearms a b" if "jd c a = Some b" for c a b
    using that assms(1,3) callbacks.uart_steps_K by blast
qed

definition served :: "bool \<times> 'z jacdac_scheme \<Rightarrow> bool" where
  "served p \<longleftrightarrow> (callback_pending (snd p) \<longrightarrow> fst p)"

interpretation deferred: safety "\<lambda>p. starts_timer0 env \<and> \<not> callback_pending (snd p)" "callback_step flen env"
  "\<lambda>p. starts_timer0 env \<and> served p" for flen env
proof
  show "starts_timer0 env \<and> served q"
    if "callback_step flen env p q" "starts_timer0 env \<and> served p" for p q :: "bool \<times> 'a jacdac_scheme"
    using that(1)
  proof cases
    case (call s t a)
    with callbacks.uart_step_K [OF call(3)] that(2) show ?thesis
      by (auto simp: served_def rearms_def running_after_def callback_pending_def split: if_splits)
  next
    case (fire jd s t)
    with fire_callbacks [OF _ fire(3,4)] that(2) show ?thesis
      by (auto simp: served_def rearms_def running_after_def split: if_splits)
  qed
qed (simp add: served_def)

text \<open>C8: from a state without pending callbacks, whatever interrupts, calls, timers and re-entrant
  callbacks follow: as long as a callback is pending the timer that delivers it is running; and when
  it fires, it leaves nothing pending unless it has been started again meanwhile. No deferred
  callback is ever stuck.\<close>

theorem deferred_callbacks_served:
  assumes "starts_timer0 env" "\<not> callback_pending s"
    and "(callback_step flen env)\<^sup>*\<^sup>* (a, s) (b, t)"
  shows "(cb_rx t \<or> cb_tx t \<or> cb_fall t \<longrightarrow> b) \<and>
    (\<forall>jd u. jd_timer0 jd t = Some u \<and> (\<forall>c x y. jd c x = Some y \<longrightarrow> (uart_step flen env)\<^sup>*\<^sup>* x y) \<longrightarrow>
      timer0_on (io u) \<or> \<not> callback_pending u)"
proof -
  have "served (b, t)" using deferred.inv_reachable [OF _ assms(3)] assms(1,2) by simp
  moreover have "timer0_on (io u) \<or> \<not> callback_pending u"
    if "jd_timer0 jd t = Some u" "\<forall>c x y. jd c x = Some y \<longrightarrow> (uart_step flen env)\<^sup>*\<^sup>* x y" for jd u
    using fire_callbacks [OF assms(1) that] by (auto simp: rearms_def split: if_splits)
  ultimately show ?thesis by (simp add: served_def callback_pending_def) blast
qed

theorem deferred_callbacks_served_witness:
  "\<exists>t. (callback_step 128 break_env)\<^sup>*\<^sup>* (False, boot_uart) (True, t) \<and> cb_fall t"
proof -
  obtain t where t: "uart_isr 128 break_env boot_uart = Some t" "cb_fall t" using break_isr by blast
  define b where "b = running_after False (io boot_uart) (io t)"
  have run: "(callback_step 128 break_env)\<^sup>*\<^sup>* (False, boot_uart) (b, t)"
    unfolding b_def by (intro r_into_rtranclp callback_step.call uart_step.isr t(1))
  have "starts_timer0 break_env" "\<not> callback_pending boot_uart"
    by (simp_all add: starts_timer0_def break_env_def ans0_def callback_pending_def boot_defs)
  from deferred_callbacks_served [OF this run] t(2) run show ?thesis by auto
qed

end
