(* ===== verification/Sock.thy ===== *)
theory Sock
  imports JdTimers
begin

text \<open>
  main/sock.c: the TCP and TLS client. The main loop posts commands (open, write) to a queue
  that a second task executes, and polls for events and received data; both share one
  connection. The operations are modelled as they run to completion; the callback
  \<open>jd_tcpsock_on_event\<close> of jacdac-c may call them again.
\<close>

section \<open>State\<close>

text \<open>The statics of sock.c: the two queues, \<open>sock_fd\<close> (0 is closed) and the part of \<open>_tls\<close> that
  the file itself reads.\<close>

record sock = jacdac +
  sock_cmds :: queue
  sock_events :: queue
  sock_fd :: int
  is_tls :: bool
  is_connected :: bool
  server_fd :: int

text \<open>Error codes of mbedTLS, and \<open>errno\<close> of a socket that has nothing to read.\<close>

definition MBEDTLS_ERR_SSL_WANT_READ :: int where "MBEDTLS_ERR_SSL_WANT_READ = -0x6900"
definition MBEDTLS_ERR_SSL_WANT_WRITE :: int where "MBEDTLS_ERR_SSL_WANT_WRITE = -0x6880"
definition MBEDTLS_ERR_SSL_PEER_CLOSE_NOTIFY :: int where "MBEDTLS_ERR_SSL_PEER_CLOSE_NOTIFY = -0x7880"
definition EAGAIN :: nat where "EAGAIN = 11"

type_synonym 's sock_callout = "jd_call \<Rightarrow> 's \<Rightarrow> 's option"

section \<open>Events and errors\<close>

text \<open>Every event of this file carries a string literal, or nothing (the empty list).\<close>

definition push_event :: "env \<Rightarrow> conn_ev \<Rightarrow> string \<Rightarrow> 'z sock_scheme \<Rightarrow> 'z sock_scheme" where
  "push_event env event msg s = emit env (Rtos (QSend (sock_events s) (Sock_event event msg) 20)) s"

definition needs_io :: "int \<Rightarrow> bool" where
  "needs_io ret \<longleftrightarrow> ret = MBEDTLS_ERR_SSL_WANT_READ \<or> ret = MBEDTLS_ERR_SSL_WANT_WRITE"

definition push_error :: "env \<Rightarrow> string \<Rightarrow> 'z sock_scheme \<Rightarrow> 'z sock_scheme" where
  "push_error env msg s = push_event env Ev_error msg s"

definition jd_tcpsock_close :: "env \<Rightarrow> 'z sock_scheme \<Rightarrow> 'z sock_scheme" where
  "jd_tcpsock_close env s =
     (let s1 = (if sock_fd s \<noteq> 0 then (emit env (Net (CloseFd (sock_fd s))) s)\<lparr>sock_fd := 0\<rparr> else s);
          s2 = s1\<lparr>is_connected := False\<rparr>
      in if is_tls s2 then
           (emits env [Net (TlsFree Entropy), Net (TlsFree Ssl_config), Net (TlsFree Ctr_drbg),
                       Net (TlsFree Ssl)] s2)\<lparr>is_tls := False\<rparr>
         else s2)"

text \<open>\<open>raise_error(NULL)\<close> is \<open>raise_error env None\<close>.\<close>

definition raise_error :: "env \<Rightarrow> string option \<Rightarrow> 'z sock_scheme \<Rightarrow> 'z sock_scheme" where
  "raise_error env msg s =
     (if sock_fd s \<noteq> 0 then
        let s1 = jd_tcpsock_close env s;
            s2 = (case msg of Some m \<Rightarrow> push_error env m s1 | None \<Rightarrow> s1)
        in push_event env Ev_close [] s2
      else s)"

definition mbedtls_print_error_msg ::
    "env \<Rightarrow> string \<Rightarrow> int \<Rightarrow> 'z sock_scheme \<Rightarrow> int \<times> 'z sock_scheme" where
  "mbedtls_print_error_msg env f error s = (-1, raise_error env (Some f) s)"

section \<open>Connecting\<close>

text \<open>The loop over the addresses that \<open>getaddrinfo\<close> returned.\<close>

fun connect_loop :: "env \<Rightarrow> nat list \<Rightarrow> 'z sock_scheme \<Rightarrow> int \<times> 'z sock_scheme" where
  "connect_loop env [] s = (-1, s)"
| "connect_loop env (rp # rps) s =
     (let (sfd, s1) = ext env (Net (Socket rp)) s in
      if a_ret sfd = -1 then connect_loop env rps s1
      else
        let (r, s2) = ext env (Net (Connect (a_ret sfd) rp)) s1 in
        if a_ret r \<noteq> -1 then (a_ret sfd, s2)
        else
          let s3 = (if rps = [] then push_error env ''can't connect'' s2 else s2);
              s4 = emit env (Net (CloseFd (a_ret sfd))) s3
          in connect_loop env rps s4)"

partial_function (option) handshake_loop ::
    "env \<Rightarrow> 'z sock_scheme \<Rightarrow> (int \<times> 'z sock_scheme) option" where
  "handshake_loop env s =
     (let (r, s1) = ext env (Net SslHandshake) s; ret = a_ret r in
      if ret = 0 then Some (0, s1)
      else if \<not> needs_io ret then Some (mbedtls_print_error_msg env ''mbedtls_ssl_handshake'' ret s1)
      else handshake_loop env (emit env (Rtos (TaskDelay 10)) s1))"

text \<open>A call of mbedTLS that must answer 0.\<close>

definition tls_call ::
    "env \<Rightarrow> net_call \<Rightarrow> string \<Rightarrow> ('z sock_scheme \<Rightarrow> (int \<times> 'z sock_scheme) option) \<Rightarrow>
     'z sock_scheme \<Rightarrow> (int \<times> 'z sock_scheme) option" where
  "tls_call env c name rest s =
     (let (r, s1) = ext env (Net c) s in
      if a_ret r \<noteq> 0 then Some (mbedtls_print_error_msg env name (a_ret r) s1) else rest s1)"

text \<open>From \<open>mbedtls_ssl_init\<close> to the end of \<open>sock_create_and_connect\<close>.\<close>

definition tls_start ::
    "env \<Rightarrow> string \<Rightarrow> int \<Rightarrow> 'z sock_scheme \<Rightarrow> (int \<times> 'z sock_scheme) option" where
  "tls_start env hostname sockfd s =
     (let s1 = (emits env [Net (TlsInit Ssl), Net (TlsInit Ctr_drbg), Net (TlsInit Ssl_config),
                           Net (TlsInit Entropy)] s)\<lparr>is_tls := True, server_fd := sockfd\<rparr>
      in tls_call env (SslSetHostname hostname) ''mbedtls_ssl_set_hostname''
        (tls_call env SslConfigDefaults ''mbedtls_ssl_config_defaults''
          (\<lambda>s2. let s3 = emits env [Net SslConfAuthmode, Net CrtBundleAttach] s2 in
            tls_call env CtrDrbgSeed ''mbedtls_ctr_drbg_seed''
              (\<lambda>s4. let s5 = emit env (Net SslConfRng) s4 in
                tls_call env SslSetup ''mbedtls_ssl_setup''
                  (\<lambda>s6. do {
                    (ret, s8) \<leftarrow> handshake_loop env (emit env (Net (SslSetBio (server_fd s6))) s6);
                    if ret \<noteq> 0 then Some (ret, s8)
                    else Some (0, emit env (Net SslSetNonblock) s8)
                  }) s5) s3)) s1)"

definition sock_create_and_connect ::
    "env \<Rightarrow> string \<Rightarrow> int \<Rightarrow> 'z sock_scheme \<Rightarrow> (int \<times> 'z sock_scheme) option" where
  "sock_create_and_connect env hostname port s =
     (let tls = port < 0; port = (if tls then - port else port);
          (pb, s1) = ext env (Net (PrintPort port)) s;
          (g, s2) = ext env (Net (GetAddrInfo hostname (a_bytes pb))) s1
      in if a_ret g \<noteq> 0 then Some (-1, push_error env ''can't resolve host'' s2)
         else
           let (sockfd, s3) = connect_loop env (a_list g) s2;
               s4 = emit env (Net FreeAddrInfo) s3
           in if sockfd < 0 then Some (sockfd, s4)
              else
                let s5 = s4\<lparr>sock_fd := sockfd\<rparr>
                in if \<not> tls then Some (0, s5) else tls_start env hostname sockfd s5)"

definition process_open ::
    "env \<Rightarrow> u32 \<Rightarrow> string \<Rightarrow> int \<Rightarrow> 'z sock_scheme \<Rightarrow> 'z sock_scheme option" where
  "process_open env p hostname port s = do {
     (r, s1) \<leftarrow> sock_create_and_connect env hostname port (jd_tcpsock_close env s);
     let s2 = jd_free env p s1;
     Some (if r = 0 then push_event env Ev_open [] (s2\<lparr>is_connected := True\<rparr>) else s2)
   }"

section \<open>Writing\<close>

text \<open>\<open>n\<close> is the local \<open>numread\<close>.\<close>

function forced_write_from ::
    "env \<Rightarrow> int \<Rightarrow> u8 list \<Rightarrow> int \<Rightarrow> 'z sock_scheme \<Rightarrow> int \<times> 'z sock_scheme" where
  "forced_write_from env fd buf n s =
     (if n < int (length buf) then
        let (r, s1) = ext env (Net (WriteFd fd (drop (nat n) buf))) s in
        if a_ret r \<le> 0 then (a_ret r, s1) else forced_write_from env fd buf (n + a_ret r) s1
      else (n, s))"
  by auto
termination
  by (relation "measure (\<lambda>(env, fd, buf, n, s). nat (int (length buf) - n))") auto

declare forced_write_from.simps [simp del]

definition forced_write :: "env \<Rightarrow> int \<Rightarrow> u8 list \<Rightarrow> 'z sock_scheme \<Rightarrow> int \<times> 'z sock_scheme" where
  "forced_write env fd buf s = forced_write_from env fd buf 0 s"

text \<open>\<open>written\<close> and \<open>write_len\<close> are \<open>size_t\<close>, so adding a negative return code wraps.\<close>

partial_function (option) tls_write_loop ::
    "env \<Rightarrow> u8 list \<Rightarrow> u32 \<Rightarrow> u32 \<Rightarrow> 'z sock_scheme \<Rightarrow> (int \<times> 'z sock_scheme) option" where
  "tls_write_loop env data written write_len s =
     (if unat written < length data then
        let (r, s1) = ext env (Net (SslWrite (take (unat write_len) (drop (unat written) data)))) s;
            ret = a_ret r in
        if ret \<le> 0 \<and> ret \<noteq> 0 \<and> \<not> needs_io ret
        then Some (mbedtls_print_error_msg env ''mbedtls_ssl_write'' ret s1)
        else
          let s2 = (if ret \<le> 0 then emit env (Rtos (TaskDelay 5)) s1 else s1);
              written' = written + word_of_int ret;
              write_len' = of_nat (length data) - written'
          in tls_write_loop env data written' write_len' s2
      else Some (sint written, s))"

text \<open>\<open>out_len\<close> is \<open>MBEDTLS_SSL_OUT_CONTENT_LEN\<close>.\<close>

definition sock_mbedtls_write ::
    "nat \<Rightarrow> env \<Rightarrow> u8 list \<Rightarrow> 'z sock_scheme \<Rightarrow> (int \<times> 'z sock_scheme) option" where
  "sock_mbedtls_write out_len env data s = do {
     jd_assert (length data < out_len);
     tls_write_loop env data 0 (of_nat (length data)) s
   }"

definition process_write ::
    "nat \<Rightarrow> env \<Rightarrow> u32 \<Rightarrow> u8 list \<Rightarrow> 'z sock_scheme \<Rightarrow> 'z sock_scheme option" where
  "process_write out_len env p buf s = do {
     s1 \<leftarrow> (if is_tls s then map_option snd (sock_mbedtls_write out_len env buf s)
           else if sock_fd s \<noteq> 0 then
             let (r, t) = forced_write env (sock_fd s) buf s
             in Some (if r \<noteq> int (length buf) then raise_error env (Some ''write error'') t else t)
           else Some s);
     Some (jd_free env p s1)
   }"

section \<open>Entry points\<close>

definition jd_tcpsock_new :: "env \<Rightarrow> string \<Rightarrow> int \<Rightarrow> 'z sock_scheme \<Rightarrow> int \<times> 'z sock_scheme" where
  "jd_tcpsock_new env hostname port s =
     (let (d, s1) = ext env (Net (Strdup hostname)) s;
          (r, s2) = ext env (Rtos (QSend (sock_cmds s1) (Cmd_open (a_ptr d) hostname port) 20)) s1
      in if a_ret r = pdPASS then (0, s2) else (-1, jd_free env (a_ptr d) s2))"

definition jd_tcpsock_write ::
    "env \<Rightarrow> u8 list \<Rightarrow> 'z sock_scheme \<Rightarrow> (int \<times> 'z sock_scheme) option" where
  "jd_tcpsock_write env buf s =
     (if sock_fd s = 0 then Some (-10, s)
      else do {
        (copy, s1) \<leftarrow> jd_alloc env (of_nat (length buf)) s;
        let (r, s2) = ext env (Rtos (QSend (sock_cmds s1) (Cmd_write copy buf) 0)) s1;
        Some (if a_ret r = pdPASS then (0, s2) else (-1, jd_free env copy s2))
      })"

text \<open>One turn of \<open>worker_main\<close>.\<close>

definition sock_worker_turn :: "nat \<Rightarrow> env \<Rightarrow> 'z sock_scheme \<Rightarrow> 'z sock_scheme option" where
  "sock_worker_turn out_len env s =
     (let (r, s1) = ext env (Rtos (QReceive (sock_cmds s) 20)) s in
      case a_item r of
        None \<Rightarrow> Some s1
      | Some (Cmd_open p hostname port) \<Rightarrow> process_open env p hostname port s1
      | Some (Cmd_write p data) \<Rightarrow> process_write out_len env p data s1
      | Some _ \<Rightarrow> None)"

definition jd_tcpsock_init :: "env \<Rightarrow> 'z sock_scheme \<Rightarrow> 'z sock_scheme" where
  "jd_tcpsock_init env s =
     (let (q, s1) = ext env (Rtos (QCreate 50)) s;
          s2 = s1\<lparr>sock_cmds := a_ptr q\<rparr>;
          (e, s3) = ext env (Rtos (QCreate 10)) s2;
          s4 = s3\<lparr>sock_events := a_ptr e\<rparr>
      in emit env (Rtos (TaskCreate ''tcpsock'' 4096)) s4)"

text \<open>The two loops of \<open>jd_tcpsock_process\<close>.\<close>

partial_function (option) event_loop ::
    "'z sock_scheme sock_callout \<Rightarrow> env \<Rightarrow> 'z sock_scheme \<Rightarrow> 'z sock_scheme option" where
  "event_loop jd env s =
     (let (r, s1) = ext env (Rtos (QReceive (sock_events s) 0)) s in
      case a_item r of
        Some (Sock_event ev msg) \<Rightarrow>
          do { s2 \<leftarrow> jd (Jd_tcpsock_on_event ev msg []) s1; event_loop jd env s2 }
      | None \<Rightarrow> Some s1
      | _ \<Rightarrow> None)"

partial_function (option) read_loop ::
    "'z sock_scheme sock_callout \<Rightarrow> env \<Rightarrow> 'z sock_scheme \<Rightarrow> 'z sock_scheme option" where
  "read_loop jd env s =
     (if is_tls s then
        let (r, s1) = ext env (Net (SslRead 1024)) s; ret = a_ret r in
        if needs_io ret then Some s1
        else if ret = MBEDTLS_ERR_SSL_PEER_CLOSE_NOTIFY \<or> ret = 0 then Some (raise_error env None s1)
        else if ret < 0 then Some (snd (mbedtls_print_error_msg env ''mbedtls_ssl_read'' ret s1))
        else do { s2 \<leftarrow> jd (Jd_tcpsock_on_event Ev_message [] (take (nat ret) (a_bytes r))) s1;
                  read_loop jd env s2 }
      else
        let (r, s1) = ext env (Net (RecvFd (sock_fd s) 1024)) s in
        if a_ret r = 0 then Some (raise_error env None s1)
        else if a_ret r > 0 then
          do { s2 \<leftarrow> jd (Jd_tcpsock_on_event Ev_message [] (take (nat (a_ret r)) (a_bytes r))) s1;
               read_loop jd env s2 }
        else if a_val r = EAGAIN then Some s1
        else Some (raise_error env (Some ''recv error'') s1))"

definition jd_tcpsock_process ::
    "'z sock_scheme sock_callout \<Rightarrow> env \<Rightarrow> 'z sock_scheme \<Rightarrow> 'z sock_scheme option" where
  "jd_tcpsock_process jd env s = do {
     s1 \<leftarrow> event_loop jd env s;
     if \<not> is_connected s1 then Some s1 else read_loop jd env s1
   }"

text \<open>The state at boot.\<close>

definition boot_sock :: sock where [boot_defs]:
  "boot_sock = jacdac.extend boot_jacdac (sock.fields 1 2 0 False False 0)"

declare sock.defs [boot_defs]

end
