(* ===== verification/SockConn.thy ===== *)
theory SockConn
  imports Sock
begin

text \<open>
  The resources of sock.c: which descriptors are open and which mbedTLS objects are live,
  the invariant that ties both to the state, and opening a connection.
\<close>

section \<open>What is open\<close>

text \<open>The sockets that are open and the mbedTLS objects that are live, read off the history.\<close>

fun open_fds :: "io_log \<Rightarrow> int list" where
  "open_fds [] = []"
| "open_fds ((Net (Socket a), r) # l) =
     (if a_ret r = -1 then open_fds l else a_ret r # open_fds l)"
| "open_fds ((Net (CloseFd fd), r) # l) = remove1 fd (open_fds l)"
| "open_fds (_ # l) = open_fds l"

text \<open>No descriptor is closed that is not open.\<close>

fun closes_ok :: "io_log \<Rightarrow> bool" where
  "closes_ok [] = True"
| "closes_ok ((Net (CloseFd fd), r) # l) \<longleftrightarrow> fd \<in> set (open_fds l) \<and> closes_ok l"
| "closes_ok (_ # l) = closes_ok l"

fun tls_live :: "tls_obj \<Rightarrow> io_log \<Rightarrow> int" where
  "tls_live x [] = 0"
| "tls_live x ((Net (TlsInit y), r) # l) = tls_live x l + (if x = y then 1 else 0)"
| "tls_live x ((Net (TlsFree y), r) # l) = tls_live x l - (if x = y then 1 else 0)"
| "tls_live x (_ # l) = tls_live x l"

definition log_inv :: "int list \<Rightarrow> int \<Rightarrow> io_log \<Rightarrow> bool" where
  "log_inv fds n l \<longleftrightarrow> open_fds l = fds \<and> closes_ok l \<and> (\<forall>x. tls_live x l = n)"

definition inert :: "call \<Rightarrow> bool" where
  "inert c = (case c of
     Net n \<Rightarrow> (case n of Socket _ \<Rightarrow> False | CloseFd _ \<Rightarrow> False | TlsInit _ \<Rightarrow> False | TlsFree _ \<Rightarrow> False
       | _ \<Rightarrow> True)
   | _ \<Rightarrow> True)"

lemma log_inv_inert:
  assumes "inert c"
  shows "log_inv fds n (io (emit env c s)) \<longleftrightarrow> log_inv fds n (io s)"
proof -
  have "open_fds ((c, a) # l) = open_fds l" "closes_ok ((c, a) # l) = closes_ok l"
      "tls_live x ((c, a) # l) = tls_live x l" for a l x
    using assms by (auto simp: inert_def split: call.splits net_call.splits)
  then show ?thesis by (simp add: log_inv_def io_emit)
qed

lemma log_inv_simps [simp]:
  "log_inv fds n (io (emit env (Rtos c1) s)) \<longleftrightarrow> log_inv fds n (io s)"
  "log_inv fds n (io (emit env (Jd c2) s)) \<longleftrightarrow> log_inv fds n (io s)"
  "inert (Net cn) \<Longrightarrow> log_inv fds n (io (emit env (Net cn) s)) \<longleftrightarrow> log_inv fds n (io s)"
  by (simp_all add: log_inv_inert inert_def)

lemma sock_emit [simp]:
  "sock_cmds (emit env c s) = sock_cmds s" "sock_events (emit env c s) = sock_events s"
  "sock_fd (emit env c s) = sock_fd s" "is_tls (emit env c s) = is_tls s"
  "is_connected (emit env c s) = is_connected s" "server_fd (emit env c s) = server_fd s"
  by (simp_all add: emit_def)

text \<open>The invariant: the one descriptor that \<open>sock_fd\<close> names is the only one open, the objects of
  \<open>_tls\<close> are live exactly while \<open>is_tls\<close> is set, and neither flag outlives the descriptor.\<close>

definition sock_inv :: "'z sock_scheme \<Rightarrow> bool" where
  "sock_inv s \<longleftrightarrow>
     log_inv (if sock_fd s = 0 then [] else [sock_fd s]) (if is_tls s then 1 else 0) (io s) \<and>
     (is_tls s \<or> is_connected s \<longrightarrow> sock_fd s \<noteq> 0)"

text \<open>A closed connection, as every operation finds or leaves it.\<close>

definition sock_closed :: "'z sock_scheme \<Rightarrow> bool" where
  "sock_closed s \<longleftrightarrow> log_inv [] 0 (io s) \<and> sock_fd s = 0 \<and> \<not> is_tls s \<and> \<not> is_connected s"

lemma sock_inv_emit [simp]:
  "inert (Net cn) \<Longrightarrow> sock_inv (emit env (Net cn) s) = sock_inv s"
  "sock_inv (emit env (Rtos c1) s) = sock_inv s"
  by (simp_all add: sock_inv_def)

lemma sock_closed_inv: "sock_closed s \<Longrightarrow> sock_inv s"
  by (simp add: sock_closed_def sock_inv_def)

lemma log_inv_close_fd:
  "log_inv [fd] n (io s) \<Longrightarrow> log_inv [] n (io (emit env (Net (CloseFd fd)) s))"
  by (simp add: log_inv_def io_emit)

lemma log_inv_free_tls:
  "log_inv fds n (io s) \<Longrightarrow> log_inv fds (n - 1) (io (emits env [Net (TlsFree Entropy),
     Net (TlsFree Ssl_config), Net (TlsFree Ctr_drbg), Net (TlsFree Ssl)] s))"
  by (auto simp: log_inv_def io_emit emits_Cons split: if_splits) (metis tls_obj.exhaust)

lemma log_inv_init_tls:
  "log_inv fds n (io s) \<Longrightarrow> log_inv fds (n + 1) (io (emits env [Net (TlsInit Ssl),
     Net (TlsInit Ctr_drbg), Net (TlsInit Ssl_config), Net (TlsInit Entropy)] s))"
  by (auto simp: log_inv_def io_emit emits_Cons split: if_splits) (metis tls_obj.exhaust)

lemma emits_sock [simp]:
  "sock_fd (emits env cs s) = sock_fd s" "is_tls (emits env cs s) = is_tls s"
  "is_connected (emits env cs s) = is_connected s" "sock_events (emits env cs s) = sock_events s"
  by (induction cs arbitrary: s) (simp_all add: emits_Cons)

lemma jd_tcpsock_close_closes:
  assumes "sock_inv s"
  shows "sock_closed (jd_tcpsock_close env s)"
proof -
  let ?s1 = "(if sock_fd s \<noteq> 0 then (emit env (Net (CloseFd (sock_fd s))) s)\<lparr>sock_fd := 0\<rparr> else s)"
  let ?s2 = "?s1\<lparr>is_connected := False\<rparr>"
  have s2: "log_inv [] (if is_tls s then 1 else 0) (io ?s2)" "sock_fd ?s2 = 0"
    using assms log_inv_close_fd [of "sock_fd s" _ s env] by (auto simp: sock_inv_def)
  show ?thesis
    using s2 log_inv_free_tls [of "[]" 1 ?s2 env]
    by (simp add: jd_tcpsock_close_def sock_closed_def Let_def split: if_splits)
qed

lemma push_event_frame [simp]:
  "log_inv fds n (io (push_event env ev m s)) \<longleftrightarrow> log_inv fds n (io s)"
  "sock_fd (push_event env ev m s) = sock_fd s" "is_tls (push_event env ev m s) = is_tls s"
  "is_connected (push_event env ev m s) = is_connected s"
  by (simp_all add: push_event_def)

lemma raise_error_inv: "sock_inv s \<Longrightarrow> sock_inv (raise_error env m s)"
  using jd_tcpsock_close_closes [of s env]
  by (auto simp: raise_error_def push_error_def Let_def sock_closed_def sock_inv_def split: option.split)

section \<open>Opening a connection\<close>

text \<open>The events pushed so far, oldest first.\<close>

fun pushed :: "io_log \<Rightarrow> (conn_ev \<times> string) list" where
  "pushed [] = []"
| "pushed ((Rtos (QSend q (Sock_event ev m) t), a) # l) = pushed l @ [(ev, m)]"
| "pushed (_ # l) = pushed l"

lemma pushed_push_event [simp]: "pushed (io (push_event env ev m s)) = pushed (io s) @ [(ev, m)]"
  by (simp add: push_event_def io_emit)

lemma pushed_emit [simp]:
  "pushed (io (emit env (Net c) s)) = pushed (io s)"
  "pushed (io (emit env (Rtos (TaskDelay n)) s)) = pushed (io s)"
  "pushed (io (emit env (Rtos (Free_mem p)) s)) = pushed (io s)"
  "pushed (io (emit env (Rtos (QReceive q n)) s)) = pushed (io s)"
  by (simp_all add: io_emit)

lemma pushed_close [simp]: "pushed (io (jd_tcpsock_close env s)) = pushed (io s)"
  by (simp add: jd_tcpsock_close_def emits_Cons Let_def)

text \<open>lwIP descriptors are positive: 0, 1 and 2 are the console.\<close>

definition sockets_positive :: "env \<Rightarrow> bool" where
  "sockets_positive env \<longleftrightarrow>
     (\<forall>a l. a_ret (env (Net (Socket a)) l) = -1 \<or> 0 < a_ret (env (Net (Socket a)) l))"

lemma inert_net [simp]:
  "inert (Net (PrintPort i))" "inert (Net (Strdup h))" "inert (Net (GetAddrInfo h b))"
  "inert (Net FreeAddrInfo)" "inert (Net (Connect fd n))" "inert (Net (WriteFd fd b))"
  "inert (Net (RecvFd fd n))" "inert (Net (SslSetHostname h))" "inert (Net SslConfigDefaults)"
  "inert (Net SslConfAuthmode)" "inert (Net CrtBundleAttach)" "inert (Net CtrDrbgSeed)"
  "inert (Net SslConfRng)" "inert (Net SslSetup)" "inert (Net (SslSetBio fd))"
  "inert (Net SslHandshake)" "inert (Net SslSetNonblock)" "inert (Net (SslWrite b))"
  "inert (Net (SslRead n))"
  by (simp_all add: inert_def)

text \<open>The loop over the addresses: exactly the descriptor it returns is open.\<close>

lemma connect_loop_result:
  assumes "sockets_positive env" "log_inv [] n (io s)" "connect_loop env rps s = (r, t)"
  shows "(r = -1 \<and> log_inv [] n (io t) \<or> 0 < r \<and> log_inv [r] n (io t)) \<and>
    sock_fd t = sock_fd s \<and> is_tls t = is_tls s \<and> is_connected t = is_connected s"
  using assms(2,3)
proof (induction rps arbitrary: s)
  case Nil
  then show ?case by auto
next
  case (Cons rp rps)
  let ?sfd = "a_ret (query env (Net (Socket rp)) s)"
  let ?s1 = "emit env (Net (Socket rp)) s"
  let ?s2 = "emit env (Net (Connect ?sfd rp)) ?s1"
  have pos: "?sfd = -1 \<or> 0 < ?sfd" using assms(1) by (simp add: sockets_positive_def query_def)
  show ?case
  proof (cases "?sfd = -1")
    case True
    then have "log_inv [] n (io ?s1)"
      using Cons.prems(1) by (simp add: log_inv_def io_emit query_def)
    with Cons.IH [of ?s1] Cons.prems(2) True show ?thesis by simp
  next
    case False
    have s2: "log_inv [?sfd] n (io ?s2)"
      using Cons.prems(1) False by (simp add: log_inv_def io_emit query_def)
    show ?thesis
    proof (cases "a_ret (query env (Net (Connect ?sfd rp)) ?s1) = -1")
      case True
      let ?s3 = "if rps = [] then push_error env ''can't connect'' ?s2 else ?s2"
      let ?s4 = "emit env (Net (CloseFd ?sfd)) ?s3"
      have "log_inv [?sfd] n (io ?s3)" using s2 by (simp add: push_error_def)
      then have "log_inv [] n (io ?s4)" by (rule log_inv_close_fd)
      moreover have "connect_loop env rps ?s4 = (r, t)" using Cons.prems(2) False True by simp
      ultimately show ?thesis using Cons.IH [of ?s4] by (simp add: push_error_def)
    next
      case connected: False
      then have "r = ?sfd" "t = ?s2" using Cons.prems(2) False by auto
      with s2 pos False show ?thesis by simp
    qed
  qed
qed

text \<open>A connection that is being set up, and the two ways the set-up ends.\<close>

definition setting_up :: "'z sock_scheme \<Rightarrow> bool" where
  "setting_up s \<longleftrightarrow> sock_inv s \<and> sock_fd s \<noteq> 0 \<and> \<not> is_connected s"

definition set_up :: "'z sock_scheme \<Rightarrow> int \<times> 'z sock_scheme \<Rightarrow> bool" where
  "set_up s = (\<lambda>(r, t). r = 0 \<and> setting_up t \<and> pushed (io t) = pushed (io s) \<or>
     r = -1 \<and> sock_closed t \<and> (\<exists>m. pushed (io t) = pushed (io s) @ [(Ev_error, m), (Ev_close, [])]))"

lemma setting_up_emit [simp]:
  "inert (Net c) \<Longrightarrow> setting_up (emit env (Net c) s) = setting_up s"
  "setting_up (emit env (Rtos c1) s) = setting_up s"
  by (simp_all add: setting_up_def sock_inv_def)

lemma set_up_failed:
  assumes "setting_up s" "pushed (io s) = pushed (io s0)"
  shows "set_up s0 (mbedtls_print_error_msg env m e s)"
  using assms jd_tcpsock_close_closes [of s env]
  by (simp add: set_up_def setting_up_def mbedtls_print_error_msg_def raise_error_def push_error_def
      Let_def sock_closed_def)

lemma set_up_tls_call:
  assumes "tls_call env c name rest s = Some x" "setting_up s" "pushed (io s) = pushed (io s0)"
    and "inert (Net c)"
    and rest: "\<And>s1. rest s1 = Some x \<Longrightarrow> setting_up s1 \<Longrightarrow> pushed (io s1) = pushed (io s0) \<Longrightarrow> set_up s0 x"
  shows "set_up s0 x"
  using assms(1-4) rest [of "emit env (Net c) s"] set_up_failed [of "emit env (Net c) s" s0 env name]
  by (auto simp: tls_call_def split: if_splits)

lemma set_up_handshake:
  assumes "handshake_loop env s = Some x" "setting_up s"
  shows "set_up s x"
proof (rule handshake_loop.raw_induct
    [where P = "\<lambda>env s x. setting_up s \<longrightarrow> set_up s x", OF _ assms(1), rule_format, OF _ assms(2)])
  fix f env s x
  assume IH: "\<And>env s x. f env s = Some x \<Longrightarrow> setting_up s \<Longrightarrow> set_up s x"
    and eq: "(let (r, s1) = ext env (Net SslHandshake) s; ret = a_ret r in
      if ret = 0 then Some (0, s1)
      else if \<not> needs_io ret then Some (mbedtls_print_error_msg env ''mbedtls_ssl_handshake'' ret s1)
      else f env (emit env (Rtos (TaskDelay 10)) s1)) = Some x"
    and up: "setting_up (s :: 'a sock_scheme)"
  let ?s1 = "emit env (Net SslHandshake) s"
  have "set_up ?s1 x" if "f env (emit env (Rtos (TaskDelay 10)) ?s1) = Some x"
    using IH [OF that] up by (simp add: set_up_def)
  moreover have "set_up s (mbedtls_print_error_msg env m e ?s1)" for m e
    using up by (intro set_up_failed) simp_all
  moreover have "set_up s (0, ?s1)" using up by (simp add: set_up_def)
  moreover have "set_up s = set_up ?s1" by (simp add: set_up_def)
  ultimately show "set_up s x"
    using eq by (auto simp: Let_def split: if_splits)
qed

lemma set_up_tls_start:
  assumes "tls_start env h fd s = Some x" "log_inv [fd] 0 (io s)" "sock_fd s = fd" "fd \<noteq> 0"
    and "\<not> is_connected s"
  shows "set_up s x"
proof -
  let ?s1 = "(emits env [Net (TlsInit Ssl), Net (TlsInit Ctr_drbg), Net (TlsInit Ssl_config),
      Net (TlsInit Entropy)] s)\<lparr>is_tls := True, server_fd := fd\<rparr>"
  have up: "setting_up ?s1" "pushed (io ?s1) = pushed (io s)"
    using assms(2-5) log_inv_init_tls [of "[fd]" 0 s env]
    by (simp_all add: setting_up_def sock_inv_def emits_Cons)
  have finish: "set_up s x"
    if "do { (ret, s8) \<leftarrow> handshake_loop env s6;
          if ret \<noteq> 0 then Some (ret, s8) else Some (0, emit env (Net SslSetNonblock) s8) } = Some x"
      "setting_up s6" "pushed (io s6) = pushed (io s)" for s6
  proof -
    note run = that
    obtain y where y: "handshake_loop env s6 = Some y"
      using run(1) by (cases "handshake_loop env s6") simp_all
    obtain ret s8 where r: "y = (ret, s8)" by (cases y)
    from set_up_handshake [OF y that(2)] have "set_up s (ret, s8)"
      using that(3) by (simp add: set_up_def r)
    with that(1) y r show ?thesis by (auto simp: set_up_def split: if_splits)
  qed
  from assms(1) show ?thesis
    unfolding tls_start_def Let_def
    apply (rule set_up_tls_call, use up in simp, use up in simp, simp)
    apply (erule set_up_tls_call, (simp add: emits_Cons)+)+
    apply (erule finish, simp_all)
    done
qed


text \<open>\<open>sock_create_and_connect\<close> from a closed connection: a failure before the TLS stage leaves
  it closed and pushes errors only.\<close>

lemma pushed_connect_loop:
  assumes "connect_loop env rps s = (r, t)" "sockets_positive env"
  shows "\<exists>n. pushed (io t) = pushed (io s) @ replicate n (Ev_error, ''can't connect'') \<and> n \<le> 1 \<and>
    (0 < r \<longrightarrow> n = 0)"
  using assms(1)
proof (induction rps arbitrary: s)
  case Nil
  then show ?case by (intro exI [of _ 0]) auto
next
  case (Cons rp rps)
  let ?sfd = "a_ret (query env (Net (Socket rp)) s)"
  let ?s1 = "emit env (Net (Socket rp)) s"
  let ?s2 = "emit env (Net (Connect ?sfd rp)) ?s1"
  have [simp]: "pushed (io ?s1) = pushed (io s)" "pushed (io ?s2) = pushed (io s)" by simp_all
  consider "?sfd = -1" | "?sfd \<noteq> -1" "a_ret (query env (Net (Connect ?sfd rp)) ?s1) = -1"
    | "?sfd \<noteq> -1" "a_ret (query env (Net (Connect ?sfd rp)) ?s1) \<noteq> -1" by blast
  then show ?case
  proof cases
    case 1
    with Cons.IH [of ?s1] Cons.prems show ?thesis by simp
  next
    case 2
    show ?thesis
    proof (cases "rps = []")
      case True
      with 2 Cons.prems show ?thesis
        by (intro exI [of _ 1]) (auto simp: push_error_def)
    next
      case False
      with 2 Cons.prems Cons.IH [of "emit env (Net (CloseFd ?sfd)) ?s2"] show ?thesis by simp
    qed
  next
    case 3
    with Cons.prems show ?thesis by (intro exI [of _ 0]) auto
  qed
qed

definition open_failed :: "'z sock_scheme \<Rightarrow> 'z sock_scheme \<Rightarrow> bool" where
  "open_failed s t \<longleftrightarrow> sock_closed t \<and>
     (\<exists>evs. pushed (io t) = pushed (io s) @ evs \<and> map fst evs \<in> {[], [Ev_error], [Ev_error, Ev_close]})"

lemma sock_create_and_connect_result:
  assumes "sock_create_and_connect env h port s = Some (r, t)" "sock_closed s" "sockets_positive env"
  shows "r = 0 \<and> setting_up t \<and> pushed (io t) = pushed (io s) \<or> r \<noteq> 0 \<and> open_failed s t"
proof -
  define pt where "pt = (if port < 0 then - port else port)"
  let ?s1 = "emit env (Net (PrintPort pt)) s"
  let ?g = "GetAddrInfo h (a_bytes (query env (Net (PrintPort pt)) s))"
  let ?s2 = "emit env (Net ?g) ?s1"
  have s2: "sock_closed ?s2" "pushed (io ?s2) = pushed (io s)"
    using assms(2) by (simp_all add: sock_closed_def)
  show ?thesis
  proof (cases "a_ret (query env (Net ?g) ?s1) = 0")
    case False
    then have "(r, t) = (-1, push_error env ''can't resolve host'' ?s2)"
      using assms(1) by (simp add: sock_create_and_connect_def Let_def pt_def)
    with s2 show ?thesis by (auto simp: open_failed_def sock_closed_def push_error_def)
  next
    case True
    obtain fd s3 where c: "connect_loop env (a_list (query env (Net ?g) ?s1)) ?s2 = (fd, s3)"
      by (cases "connect_loop env (a_list (query env (Net ?g) ?s1)) ?s2")
    let ?s4 = "emit env (Net FreeAddrInfo) s3"
    have run: "(if fd < 0 then Some (fd, ?s4) else
        if \<not> port < 0 then Some (0, ?s4\<lparr>sock_fd := fd\<rparr>) else tls_start env h fd (?s4\<lparr>sock_fd := fd\<rparr>))
        = Some (r, t)"
      using assms(1) True c
      by (simp add: sock_create_and_connect_def Let_def pt_def [symmetric] cong: if_cong split del: if_split)
    have l: "log_inv [] 0 (io ?s2)" using s2 by (simp add: sock_closed_def)
    note res = connect_loop_result [OF assms(3) l c]
    obtain n where n: "pushed (io s3) = pushed (io ?s2) @ replicate n (Ev_error, ''can't connect'')"
        "0 < fd \<longrightarrow> n = 0" "n = 0 \<or> n = 1"
      using pushed_connect_loop [OF c assms(3)] by force
    show ?thesis
    proof (cases "fd < 0")
      case True
      then have "r = fd" "t = ?s4" using run by simp_all
      with True res n s2 show ?thesis
        by (auto simp: open_failed_def sock_closed_def)
    next
      case fd: False
      let ?s5 = "?s4\<lparr>sock_fd := fd\<rparr>"
      have s5: "log_inv [fd] 0 (io ?s5)" "sock_fd ?s5 = fd" "fd \<noteq> 0" "\<not> is_connected ?s5"
          "\<not> is_tls ?s5" "pushed (io ?s5) = pushed (io s)"
        using fd res n s2 by (auto simp: sock_closed_def)
      show ?thesis
      proof (cases "port < 0")
        case True
        with run fd have "set_up ?s5 (r, t)" by (intro set_up_tls_start [OF _ s5(1-4)]) simp
        with s5(6) show ?thesis by (auto simp: set_up_def open_failed_def)
      next
        case False
        with run fd have "r = 0" "t = ?s5" by simp_all
        with s5 show ?thesis by (simp add: setting_up_def sock_inv_def)
      qed
    qed
  qed
qed

lemma process_open_result:
  assumes "process_open env p h port s = Some t" "sock_inv s" "sockets_positive env"
  shows "sock_inv t \<and> (is_connected t \<and> sock_fd t \<noteq> 0 \<and> pushed (io t) = pushed (io s) @ [(Ev_open, [])] \<or>
    open_failed s t)"
proof -
  obtain r s1 where c: "sock_create_and_connect env h port (jd_tcpsock_close env s) = Some (r, s1)"
    and t: "t = (let s2 = jd_free env p s1
      in if r = 0 then push_event env Ev_open [] (s2\<lparr>is_connected := True\<rparr>) else s2)"
    using assms(1) by (auto simp: process_open_def Let_def split: if_splits)
  from sock_create_and_connect_result [OF c jd_tcpsock_close_closes [OF assms(2)] assms(3)]
  show ?thesis
    unfolding t Let_def
    by (auto simp: setting_up_def sock_inv_def jd_free_def open_failed_def sock_closed_def)
qed

end
