(* ===== verification/SockMachine.thy ===== *)
theory SockMachine
  imports SockConn
begin

text \<open>
  The entry points of main/sock.c as one state machine, and how a relation that all of them keep is
  lifted to whole runs: through the loops of \<open>jd_tcpsock_process\<close> and through callbacks that call the
  entry points again (locale \<open>sock_relation\<close>), through the loops of writing (\<open>sock_writes\<close>), and,
  where every single call keeps it, through all operations but closing and opening (\<open>sock_plain\<close>) or
  through all of them (\<open>sock_calls\<close>).
\<close>

section \<open>The machine\<close>

text \<open>The worker is about to execute an open command.\<close>

definition opens_next :: "env \<Rightarrow> 'z sock_scheme \<Rightarrow> bool" where
  "opens_next env s \<longleftrightarrow>
     (case a_item (query env (Rtos (QReceive (sock_cmds s) 20)) s) of Some (Cmd_open p h port) \<Rightarrow> True | _ \<Rightarrow> False)"

text \<open>Every entry point as one step; the event callback may call any of them again. With \<open>own\<close> unset the
  client does not end the connection of its own accord: it neither closes it nor has an open
  command, which begins by closing, executed.\<close>

inductive client_step :: "bool \<Rightarrow> nat \<Rightarrow> env \<Rightarrow> 'z sock_scheme \<Rightarrow> 'z sock_scheme \<Rightarrow> bool"
  for own :: bool and out_len :: nat and env :: env where
  sock_new: "client_step own out_len env s (snd (jd_tcpsock_new env h p s))"
| sock_write: "jd_tcpsock_write env b s = Some (r, t) \<Longrightarrow> client_step own out_len env s t"
| sock_close: "own \<Longrightarrow> client_step own out_len env s (jd_tcpsock_close env s)"
| sock_worker: "sock_worker_turn out_len env s = Some t \<Longrightarrow> own \<or> \<not> opens_next env s \<Longrightarrow>
    client_step own out_len env s t"
| sock_process: "jd_tcpsock_process jd env s = Some t \<Longrightarrow>
    (\<forall>c a b. jd c a = Some b \<longrightarrow> (client_step own out_len env)\<^sup>*\<^sup>* a b) \<Longrightarrow> client_step own out_len env s t"

abbreviation sock_step :: "nat \<Rightarrow> env \<Rightarrow> 'z sock_scheme \<Rightarrow> 'z sock_scheme \<Rightarrow> bool" where
  "sock_step \<equiv> client_step True"

lemma sock_step_worker: "sock_worker_turn out_len env s = Some t \<Longrightarrow> sock_step out_len env s t"
  by (rule client_step.sock_worker) simp_all

section \<open>Relations that every operation keeps\<close>

text \<open>What the poll needs.\<close>

locale sock_polls =
  fixes env :: env
    and K :: "'z sock_scheme \<Rightarrow> 'z sock_scheme \<Rightarrow> bool"
  assumes K_refl: "K s s"
    and K_trans: "K s t \<Longrightarrow> K t u \<Longrightarrow> K s u"
    and K_event: "K s (emit env (Rtos (QReceive (sock_events s) 0)) s)"
    and K_read_tls: "K s (emit env (Net (SslRead 1024)) s)"
    and K_read: "K s (emit env (Net (RecvFd (sock_fd s) 1024)) s)"
    and K_error: "K s (raise_error env m s)"
begin

lemma event_loop_K:
  assumes "event_loop jd env s = Some t" and jd: "\<And>c a b. jd c a = Some b \<Longrightarrow> K a b"
  shows "K s t"
proof -
  have "(\<forall>c a b. jd c a = Some b \<longrightarrow> K a b) \<longrightarrow> env' = env \<longrightarrow> K s t"
    if "event_loop jd env' s = Some t" for jd env' s t
  proof (rule event_loop.raw_induct [where P = "\<lambda>jd env' s t.
      (\<forall>c a b. jd c a = Some b \<longrightarrow> K a b) \<longrightarrow> env' = env \<longrightarrow> K s t", OF _ that], intro impI)
    fix f jd env' s t
    assume IH: "\<And>jd env' s t. f jd env' s = Some t \<Longrightarrow>
        (\<forall>c a b. jd c a = Some b \<longrightarrow> K a b) \<longrightarrow> env' = env \<longrightarrow> K s t"
      and eq: "(let (r, s1) = ext env' (Rtos (QReceive (sock_events s) 0)) s in
        case a_item r of
          Some (Sock_event ev msg) \<Rightarrow>
            do { s2 \<leftarrow> jd (Jd_tcpsock_on_event ev msg []) s1; f jd env' s2 }
        | None \<Rightarrow> Some s1
        | _ \<Rightarrow> None) = Some t"
      and jd: "\<forall>c a b. jd c a = Some b \<longrightarrow> K a b" and env: "env' = env"
    have more: "K a t" if "jd c a = Some z" "f jd env z = Some t" for c a z
      using that jd IH env K_trans by blast
    have "K (emit env (Rtos (QReceive (sock_events s) 0)) s) t"
      using eq env by (auto split: option.splits q_item.splits intro: K_refl more)
    with K_event show "K s t" by (rule K_trans)
  qed
  with assms show ?thesis by blast
qed

lemma read_loop_K:
  assumes "read_loop jd env s = Some t" and jd: "\<And>c a b. jd c a = Some b \<Longrightarrow> K a b"
  shows "K s t"
proof -
  have "(\<forall>c a b. jd c a = Some b \<longrightarrow> K a b) \<longrightarrow> env' = env \<longrightarrow> K s t"
    if "read_loop jd env' s = Some t" for jd env' s t
  proof (rule read_loop.raw_induct [where P = "\<lambda>jd env' s t.
      (\<forall>c a b. jd c a = Some b \<longrightarrow> K a b) \<longrightarrow> env' = env \<longrightarrow> K s t", OF _ that], intro impI)
    fix f jd env' s t
    assume IH: "\<And>jd env' s t. f jd env' s = Some t \<Longrightarrow>
        (\<forall>c a b. jd c a = Some b \<longrightarrow> K a b) \<longrightarrow> env' = env \<longrightarrow> K s t"
      and eq: "(if is_tls s then
          let (r, s1) = ext env' (Net (SslRead 1024)) s; ret = a_ret r in
          if needs_io ret then Some s1
          else if ret = MBEDTLS_ERR_SSL_PEER_CLOSE_NOTIFY \<or> ret = 0 then Some (raise_error env' None s1)
          else if ret < 0 then Some (snd (mbedtls_print_error_msg env' ''mbedtls_ssl_read'' ret s1))
          else do { s2 \<leftarrow> jd (Jd_tcpsock_on_event Ev_message [] (take (nat ret) (a_bytes r))) s1;
                    f jd env' s2 }
        else
          let (r, s1) = ext env' (Net (RecvFd (sock_fd s) 1024)) s in
          if a_ret r = 0 then Some (raise_error env' None s1)
          else if a_ret r > 0 then
            do { s2 \<leftarrow> jd (Jd_tcpsock_on_event Ev_message [] (take (nat (a_ret r)) (a_bytes r))) s1;
                 f jd env' s2 }
          else if a_val r = EAGAIN then Some s1
          else Some (raise_error env' (Some ''recv error'') s1)) = Some t"
      and jd: "\<forall>c a b. jd c a = Some b \<longrightarrow> K a b" and env: "env' = env"
    have more: "K a t" if "jd c a = Some z" "f jd env z = Some t" for c a z
      using that jd IH env K_trans by blast
    show "K s t"
    proof (cases "is_tls s")
      case True
      have "K (emit env (Net (SslRead 1024)) s) t"
        using eq env True by (auto simp: mbedtls_print_error_msg_def Let_def split: if_splits
            intro: more K_refl K_error)
      with K_read_tls show ?thesis by (rule K_trans)
    next
      case False
      have "K (emit env (Net (RecvFd (sock_fd s) 1024)) s) t"
        using eq env False by (auto simp: Let_def split: if_splits intro: more K_refl K_error)
      with K_read show ?thesis by (rule K_trans)
    qed
  qed
  with assms show ?thesis by blast
qed

lemma process_K:
  assumes "jd_tcpsock_process jd env s = Some t" and jd: "\<And>c a b. jd c a = Some b \<Longrightarrow> K a b"
  shows "K s t"
proof -
  obtain s1 where s1: "event_loop jd env s = Some s1"
      "(if \<not> is_connected s1 then Some s1 else read_loop jd env s1) = Some t"
    using assms(1) by (auto simp: jd_tcpsock_process_def)
  have "K s s1" by (rule event_loop_K [OF s1(1) jd])
  moreover have "K s1 t" using s1(2) by (auto split: if_splits intro: K_refl read_loop_K [OF _ jd])
  ultimately show ?thesis by (rule K_trans)
qed

end

text \<open>What the machine needs.\<close>

locale sock_relation = sock_polls env K for env :: env and K :: "'z sock_scheme \<Rightarrow> 'z sock_scheme \<Rightarrow> bool" +
  fixes out_len :: nat
    and own :: bool
  assumes K_new: "K s (snd (jd_tcpsock_new env h p s))"
    and K_write: "jd_tcpsock_write env b s = Some (r, t) \<Longrightarrow> K s t"
    and K_close: "own \<Longrightarrow> K s (jd_tcpsock_close env s)"
    and K_worker: "sock_worker_turn out_len env s = Some t \<Longrightarrow> own \<or> \<not> opens_next env s \<Longrightarrow> K s t"
begin

lemma rtranclp_K: "(\<lambda>a b. P a b \<and> K a b)\<^sup>*\<^sup>* s t \<Longrightarrow> K s t"
  by (induction rule: rtranclp_induct) (blast intro: K_refl K_trans)+

lemma sock_step_K: "client_step own out_len env s t \<Longrightarrow> K s t"
proof (induction rule: client_step.induct)
  case (sock_process jd s t)
  have "K a b" if "jd c a = Some b" for c a b
    using sock_process(2) that rtranclp_K by blast
  with sock_process(1) show ?case by (rule process_K)
qed (auto intro: K_new K_write K_close K_worker)

lemma sock_steps_K: "(client_step own out_len env)\<^sup>*\<^sup>* s t \<Longrightarrow> K s t"
  by (induction rule: rtranclp_induct) (blast intro: K_refl K_trans sock_step_K)+

end

section \<open>Relations that every call keeps\<close>

text \<open>Calls that neither open nor close anything nor report an event.\<close>

definition plain_call :: "call \<Rightarrow> bool" where
  "plain_call c \<longleftrightarrow> (case c of
      Rtos r \<Rightarrow> (case r of QSend q x t \<Rightarrow> (case x of Sock_event e m \<Rightarrow> False | _ \<Rightarrow> True) | _ \<Rightarrow> True)
    | Net n \<Rightarrow> inert (Net n)
    | _ \<Rightarrow> False)"

lemma plain_call_simps [simp]:
  "plain_call (Rtos (QReceive q n))" "plain_call (Rtos (TaskDelay n))" "plain_call (Rtos (Free_mem a))"
  "plain_call (Rtos (Calloc n))" "plain_call (Rtos (QSend q (Cmd_open a h p) n))"
  "plain_call (Rtos (QSend q (Cmd_write a bs) n))" "plain_call (Net n') \<longleftrightarrow> inert (Net n')"
  by (simp_all add: plain_call_def)

text \<open>The calls of writing.\<close>

fun write_call :: "call \<Rightarrow> bool" where
  "write_call (Net (WriteFd fd b)) = True"
| "write_call (Net (SslWrite b)) = True"
| "write_call (Rtos (TaskDelay n)) = True"
| "write_call (Rtos (Free_mem p)) = True"
| "write_call _ = False"

lemma write_call_plain: "write_call c \<Longrightarrow> plain_call c"
  by (cases c rule: write_call.cases) simp_all

locale sock_writes =
  fixes env :: env
    and K :: "'z sock_scheme \<Rightarrow> 'z sock_scheme \<Rightarrow> bool"
  assumes w_refl: "K s s"
    and w_trans: "K s t \<Longrightarrow> K t u \<Longrightarrow> K s u"
    and w_call: "write_call c \<Longrightarrow> K s (emit env c s)"
    and w_error: "K s (raise_error env m s)"
begin

lemma w_step: "write_call c \<Longrightarrow> K (emit env c s) t \<Longrightarrow> K s t"
  by (rule w_trans [OF w_call])

lemma forced_write_K: "forced_write_from env' fd buf n s = (r, t) \<Longrightarrow> env' = env \<Longrightarrow> K s t"
proof (induction env' fd buf n s rule: forced_write_from.induct)
  case (1 env' fd buf n s)
  show ?case
  proof (cases "n < int (length buf) \<and> \<not> a_ret (query env (Net (WriteFd fd (drop (nat n) buf))) s) \<le> 0")
    case True
    have "K (emit env (Net (WriteFd fd (drop (nat n) buf))) s) t"
      using "1.IH" [OF _ refl] "1.prems" True
      by (simp add: forced_write_from.simps [of env fd buf n s])
    then show ?thesis by (rule w_step [rotated]) simp
  next
    case False
    then show ?thesis
      using "1.prems" w_refl w_call by (auto simp: forced_write_from.simps [of env fd buf n s] split: if_splits)
  qed
qed

lemma tls_write_loop_K:
  assumes "tls_write_loop env data w wl s = Some x"
  shows "K s (snd x)"
proof -
  have "env' = env \<longrightarrow> K s (snd x)" if "tls_write_loop env' data w wl s = Some x" for env' data w wl s x
  proof (rule tls_write_loop.raw_induct
      [where P = "\<lambda>env' data w wl s x. env' = env \<longrightarrow> K s (snd x)", OF _ that], intro impI)
    fix f env' data w wl s x
    assume IH: "\<And>env' data w wl s x. f env' data w wl s = Some x \<Longrightarrow> env' = env \<longrightarrow> K s (snd x)"
      and eq: "(if unat w < length data then
          let (r, s1) = ext env' (Net (SslWrite (take (unat wl) (drop (unat w) data)))) s;
              ret = a_ret r in
          if ret \<le> 0 \<and> ret \<noteq> 0 \<and> \<not> needs_io ret
          then Some (mbedtls_print_error_msg env' ''mbedtls_ssl_write'' ret s1)
          else
            let s2 = (if ret \<le> 0 then emit env' (Rtos (TaskDelay 5)) s1 else s1);
                written' = w + word_of_int ret;
                write_len' = of_nat (length data) - written'
            in f env' data written' write_len' s2
        else Some (sint w, s)) = Some x"
      and env: "env' = env"
    let ?s1 = "emit env (Net (SslWrite (take (unat wl) (drop (unat w) data)))) s"
    have more: "K a (snd x)" if "f env d v vl a = Some x" for d v vl a
      using IH [OF that] by simp
    have delayed: "K a (snd x)" if "f env d v vl (emit env (Rtos (TaskDelay 5)) a) = Some x" for d v vl a
      using more [OF that] by (rule w_step [rotated]) simp
    show "K s (snd x)"
    proof (cases "unat w < length data")
      case True
      have "K ?s1 (snd x)"
        using eq env True by (auto simp: Let_def mbedtls_print_error_msg_def split: if_splits
            intro: more delayed w_error)
      then show ?thesis by (rule w_step [rotated]) simp
    next
      case False
      with eq w_refl show ?thesis by auto
    qed
  qed
  with assms show ?thesis by blast
qed

lemma process_write_K:
  assumes "process_write out_len env p data s = Some t"
  shows "K s t"
proof -
  obtain u where u: "t = jd_free env p u" and run: "(if is_tls s then map_option snd (sock_mbedtls_write out_len env data s)
      else if sock_fd s \<noteq> 0 then
        let (r, t) = forced_write env (sock_fd s) data s
        in Some (if r \<noteq> int (length data) then raise_error env (Some ''write error'') t else t)
      else Some s) = Some u"
    using assms by (auto simp: process_write_def)
  have "K s u"
  proof (cases "is_tls s")
    case True
    with run show ?thesis by (auto simp: sock_mbedtls_write_def split: if_splits dest: tls_write_loop_K)
  next
    case False
    obtain r v where w: "forced_write env (sock_fd s) data s = (r, v)"
      by (cases "forced_write env (sock_fd s) data s")
    then have "K s v" by (intro forced_write_K) (simp_all add: forced_write_def)
    with False run w show ?thesis by (auto split: if_splits intro: w_refl w_trans [OF _ w_error])
  qed
  moreover have "K u t" unfolding u jd_free_def by (rule w_call) simp
  ultimately show ?thesis by (rule w_trans)
qed

end

locale sock_plain =
  fixes env :: env
    and K :: "'z sock_scheme \<Rightarrow> 'z sock_scheme \<Rightarrow> bool"
    and out_len :: nat
  assumes call_refl: "K s s"
    and call_trans: "K s t \<Longrightarrow> K t u \<Longrightarrow> K s u"
    and call_plain: "plain_call c \<Longrightarrow> K s (emit env c s)"
    and call_error: "K s (raise_error env m s)"

sublocale sock_plain \<subseteq> sock_polls env K
  by unfold_locales (rule call_refl call_error | erule (1) call_trans | rule call_plain; simp)+

sublocale sock_plain \<subseteq> sock_writes env K
proof unfold_locales
  show "write_call c \<Longrightarrow> K s (emit env c s)" for c s by (intro call_plain write_call_plain)
qed (rule call_refl call_error | erule (1) call_trans)+

context sock_plain begin

lemma call_step: "plain_call c \<Longrightarrow> K (emit env c s) t \<Longrightarrow> K s t"
  by (rule call_trans [OF call_plain])

lemma call_plain2:
  assumes "plain_call c" "plain_call d"
  shows "K s (emit env d (emit env c s))"
  by (rule call_trans [OF call_plain call_plain]) (fact assms)+

lemma tcpsock_new_K: "K s (snd (jd_tcpsock_new env h p s))"
proof -
  let ?s1 = "emit env (Net (Strdup h)) s"
  let ?send = "Rtos (QSend (sock_cmds ?s1) (Cmd_open (a_ptr (query env (Net (Strdup h)) s)) h p) 20)"
  have "K s (emit env ?send ?s1)" by (rule call_plain2) simp_all
  moreover from this have "K s (jd_free env q (emit env ?send ?s1))" for q
    unfolding jd_free_def by (rule call_trans) (rule call_plain, simp)
  ultimately show ?thesis by (simp add: jd_tcpsock_new_def)
qed

lemma tcpsock_write_K:
  assumes "jd_tcpsock_write env b s = Some (r, t)"
  shows "K s t"
proof (cases "sock_fd s = 0")
  case True
  with assms call_refl show ?thesis by (simp add: jd_tcpsock_write_def)
next
  case False
  let ?c = "Rtos (Calloc (unat (of_nat (length b) :: u32)))"
  let ?s1 = "emit env ?c s"
  let ?send = "Rtos (QSend (sock_cmds ?s1) (Cmd_write (a_ptr (query env ?c s)) b) 0)"
  have "K s (emit env ?send ?s1)" by (rule call_plain2) simp_all
  moreover from this have "K s (jd_free env q (emit env ?send ?s1))" for q
    unfolding jd_free_def by (rule call_trans) (rule call_plain, simp)
  ultimately show ?thesis
    using assms False by (auto simp: jd_tcpsock_write_def jd_alloc_def Let_def split: if_splits)
qed

text \<open>A turn of the worker that does not execute an open command.\<close>

lemma serve_turn_K:
  assumes "sock_worker_turn out_len env s = Some t" "\<not> opens_next env s"
  shows "K s t"
proof -
  have "K (emit env (Rtos (QReceive (sock_cmds s) 20)) s) t"
    using assms by (auto simp: sock_worker_turn_def opens_next_def split: option.splits q_item.splits
        intro: call_refl process_write_K)
  then show ?thesis by (rule call_step [rotated]) simp
qed

end

sublocale sock_plain \<subseteq> serve: sock_relation env K out_len False
proof unfold_locales
  fix s t b r
  show "jd_tcpsock_write env b s = Some (r, t) \<Longrightarrow> K s t" by (rule tcpsock_write_K)
  show "sock_worker_turn out_len env s = Some t \<Longrightarrow> False \<or> \<not> opens_next env s \<Longrightarrow> K s t"
    using serve_turn_K by blast
qed (rule call_refl call_error tcpsock_new_K | erule (1) call_trans | rule call_plain; simp | simp)+

text \<open>Where closing and opening keep it too, every operation does.\<close>

locale sock_calls = sock_plain +
  assumes call_close: "K s (jd_tcpsock_close env s)"
    and call_open: "process_open env p h port s = Some t \<Longrightarrow> K s t"
begin

lemma worker_turn_K:
  assumes "sock_worker_turn out_len env s = Some t"
  shows "K s t"
proof -
  have "K (emit env (Rtos (QReceive (sock_cmds s) 20)) s) t"
    using assms by (auto simp: sock_worker_turn_def split: option.splits q_item.splits
        intro: call_refl call_open process_write_K)
  then show ?thesis by (rule call_step [rotated]) simp
qed

end

sublocale sock_calls \<subseteq> sock_relation env K out_len own for own
proof unfold_locales
  fix s t b r
  show "jd_tcpsock_write env b s = Some (r, t) \<Longrightarrow> K s t" by (rule tcpsock_write_K)
  show "sock_worker_turn out_len env s = Some t \<Longrightarrow> K s t" by (rule worker_turn_K)
qed (rule call_refl call_error call_close tcpsock_new_K | erule (1) call_trans | rule call_plain; simp)+

section \<open>Relations that leave events and fields to the client\<close>

text \<open>Where every call of the network and of FreeRTOS that sends nothing, every event and every update of
  the fields of sock.c keeps a relation, closing and opening keep it.\<close>

fun no_send :: "call \<Rightarrow> bool" where
  "no_send (Rtos (QSend q x t)) = False"
| "no_send (Rtos (QSendFromISR q x)) = False"
| "no_send (Rtos r) = True"
| "no_send (Net n) = True"
| "no_send _ = False"

locale sock_fields =
  fixes env :: env
    and K :: "'z sock_scheme \<Rightarrow> 'z sock_scheme \<Rightarrow> bool"
  assumes f_refl: "K s s"
    and f_trans: "K s t \<Longrightarrow> K t u \<Longrightarrow> K s u"
    and f_call: "no_send c \<Longrightarrow> K s (emit env c s)"
    and f_push: "K s (push_event env e m s)"
    and f_fields: "K s (s\<lparr>sock_fd := fd\<rparr>)" "K s (s\<lparr>is_tls := b\<rparr>)" "K s (s\<lparr>is_connected := b\<rparr>)"
      "K s (s\<lparr>server_fd := fd\<rparr>)"
begin

lemmas fields [simp] = f_refl f_fields [THEN f_trans [rotated]]

lemma call [simp]: "K s t \<Longrightarrow> no_send c \<Longrightarrow> K s (emit env c t)"
  by (rule f_trans [OF _ f_call])

lemma calls [simp]: "K s t \<Longrightarrow> list_all no_send cs \<Longrightarrow> K s (emits env cs t)"
  by (induction cs arbitrary: t) (simp_all add: emits_Cons)

lemma push [simp]: "K s t \<Longrightarrow> K s (push_event env e m t)"
  by (rule f_trans [OF _ f_push])

lemma free [simp]: "K s t \<Longrightarrow> K s (jd_free env p t)"
  by (simp add: jd_free_def)

lemma closing [simp]: "K s t \<Longrightarrow> K s (jd_tcpsock_close env t)"
  by (simp add: jd_tcpsock_close_def Let_def)

lemma failing [simp]: "K s t \<Longrightarrow> K s (raise_error env m t)" "K s t \<Longrightarrow> K s (push_error env x t)"
  by (simp_all add: raise_error_def push_error_def Let_def split: option.split)

lemma connecting [simp]: "K s t \<Longrightarrow> K s (snd (connect_loop env rps t))"
  by (induction rps arbitrary: t) (simp_all add: Let_def)

lemma handshake:
  assumes "K s t"
  shows "returns (handshake_loop env t) (\<lambda>x. K s (snd x))"
proof -
  have "env' = env \<longrightarrow> K s t \<longrightarrow> K s (snd x)" if "handshake_loop env' t = Some x" for env' t x
  proof (rule handshake_loop.raw_induct
      [where P = "\<lambda>env' t x. env' = env \<longrightarrow> K s t \<longrightarrow> K s (snd x)", OF _ that], intro impI)
    fix f env' t x
    assume IH: "\<And>env' t x. f env' t = Some x \<Longrightarrow> env' = env \<longrightarrow> K s t \<longrightarrow> K s (snd x)"
      and eq: "(let (r, s1) = ext env' (Net SslHandshake) t; ret = a_ret r in
        if ret = 0 then Some (0, s1)
        else if \<not> needs_io ret then Some (mbedtls_print_error_msg env' ''mbedtls_ssl_handshake'' ret s1)
        else f env' (emit env' (Rtos (TaskDelay 10)) s1)) = Some x"
      and "env' = env" "K s t"
    then show "K s (snd x)"
      using IH [of env "emit env (Rtos (TaskDelay 10)) (emit env (Net SslHandshake) t)" x]
      by (auto simp: mbedtls_print_error_msg_def Let_def split: if_splits)
  qed
  with assms show ?thesis by (auto simp: returns_def)
qed

lemma tls_calling:
  assumes rest: "\<And>u. K s u \<Longrightarrow> returns (rest u) (\<lambda>x. K s (snd x))" and t: "K s t"
  shows "returns (tls_call env c name rest t) (\<lambda>x. K s (snd x))"
proof -
  have "K s (emit env (Net c) t)" using t by simp
  with rest [OF this] show ?thesis
    by (auto simp: tls_call_def mbedtls_print_error_msg_def returns_def)
qed

lemma tls_starting: "K s t \<Longrightarrow> returns (tls_start env h fd t) (\<lambda>x. K s (snd x))"
  unfolding tls_start_def Let_def
  by (intro tls_calling walk returns_weaken [OF handshake]) auto

lemma open_K:
  assumes "process_open env p h port s = Some t"
  shows "K s t"
proof -
  let ?s = "jd_tcpsock_close env s"
  have r: "returns (sock_create_and_connect env h port ?s) (\<lambda>x. K s (snd x))"
    unfolding sock_create_and_connect_def by (intro walk tls_starting) simp_all
  obtain x where x: "sock_create_and_connect env h port ?s = Some x"
      "t = (if fst x = 0 then push_event env Ev_open [] ((jd_free env p (snd x))\<lparr>is_connected := True\<rparr>)
        else jd_free env p (snd x))"
    using assms by (auto simp: process_open_def Let_def)
  from returnsD [OF r x(1)] x(2) show ?thesis by simp
qed

end

sublocale sock_fields \<subseteq> sock_writes env K
proof unfold_locales
  show "K s (emit env c s)" if "write_call c" for c s
    using that by (cases c rule: write_call.cases) simp_all
qed (simp, erule (1) f_trans, simp)

text \<open>Where the calls of queueing keep it too, every operation does.\<close>

locale sock_all = sock_fields +
  assumes f_plain: "plain_call c \<Longrightarrow> K s (emit env c s)"

sublocale sock_all \<subseteq> sock_calls env K out_len for out_len
proof unfold_locales
  show "K s t" if "process_open env p h port s = Some t" for p h port s t
    using that by (rule open_K)
qed (simp | erule (1) f_trans | erule f_plain)+

end
