(* ===== verification/SockTransfer.thy ===== *)
theory SockTransfer
  imports SockMachine
begin

text \<open>
  Data on a connection of sock.c, the invariant of its state machine, and the properties of its
  operations.
\<close>

section \<open>Writing to a connection\<close>

text \<open>The bytes accepted by a socket and by the TLS layer so far, oldest first.\<close>

fun fd_sent :: "int \<Rightarrow> io_log \<Rightarrow> u8 list" where
  "fd_sent fd [] = []"
| "fd_sent fd ((Net (WriteFd fd' bs), r) # l) =
     (if fd' = fd then fd_sent fd l @ take (nat (a_ret r)) bs else fd_sent fd l)"
| "fd_sent fd (_ # l) = fd_sent fd l"

fun tls_sent :: "io_log \<Rightarrow> u8 list" where
  "tls_sent [] = []"
| "tls_sent ((Net (SslWrite bs), r) # l) = tls_sent l @ take (nat (a_ret r)) bs"
| "tls_sent (_ # l) = tls_sent l"

text \<open>Neither accepts more bytes than it is given.\<close>

definition write_counts :: "env \<Rightarrow> bool" where
  "write_counts env \<longleftrightarrow> (\<forall>l bs fd. a_ret (env (Net (WriteFd fd bs)) l) \<le> int (length bs))"

text \<open>The TLS layer accepts some of the bytes, or fails for good.\<close>

definition tls_blocking :: "env \<Rightarrow> bool" where
  "tls_blocking env \<longleftrightarrow> (\<forall>l bs. bs \<noteq> [] \<longrightarrow>
     (let r = a_ret (env (Net (SslWrite bs)) l)
      in 0 < r \<and> r \<le> int (length bs) \<or> r < 0 \<and> \<not> needs_io r))"

lemma tls_blockingD:
  assumes "tls_blocking env" "bs \<noteq> []"
  shows "(let r = a_ret (query env (Net (SslWrite bs)) s)
     in 0 < r \<and> r \<le> int (length bs) \<or> r < 0 \<and> \<not> needs_io r)"
  using assms unfolding tls_blocking_def query_def by blast

lemma forced_write_from_result:
  assumes "forced_write_from env fd buf (int m) s = (r, t)" "m \<le> length buf" "write_counts env"
  shows "\<exists>k. m \<le> k \<and> k \<le> length buf \<and>
      fd_sent fd (io t) = fd_sent fd (io s) @ take (k - m) (drop m buf) \<and>
      (if k = length buf then r = int k else r \<le> 0) \<and> (sock_inv s \<longrightarrow> sock_inv t) \<and>
      sock_fd t = sock_fd s \<and> is_connected t = is_connected s \<and> is_tls t = is_tls s \<and>
      pushed (io t) = pushed (io s)"
  using assms(1,2)
proof (induction "length buf - m" arbitrary: m s rule: less_induct)
  case less
  let ?c = "Net (WriteFd fd (drop m buf))"
  let ?a = "a_ret (query env ?c s)"
  let ?s1 = "emit env ?c s"
  have inv: "sock_inv s \<longrightarrow> sock_inv ?s1" by (simp add: sock_inv_def)
  show ?case
  proof (cases "m < length buf")
    case False
    with less.prems show ?thesis by (intro exI [of _ m]) (simp add: forced_write_from.simps)
  next
    case m: True
    have a: "?a \<le> int (length buf - m)"
      using assms(3) by (simp add: write_counts_def query_def) (metis length_drop)
    show ?thesis
    proof (cases "?a \<le> 0")
      case True
      then have "r = ?a" "t = ?s1" using less.prems(1) m by (simp_all add: forced_write_from.simps)
      with True m inv show ?thesis
        by (intro exI [of _ m]) (simp add: io_emit query_def)
    next
      case False
      let ?n = "m + nat ?a"
      have n: "m < ?n" "?n \<le> length buf" using False a m by auto
      have run: "forced_write_from env fd buf (int ?n) ?s1 = (r, t)"
        using less.prems(1) m False by (simp add: forced_write_from.simps [of env fd buf "int m" s])
      have "length buf - ?n < length buf - m" using n by linarith
      from less.hyps [OF this run n(2)] obtain k where k: "?n \<le> k" "k \<le> length buf"
          "fd_sent fd (io t) = fd_sent fd (io ?s1) @ take (k - ?n) (drop ?n buf)"
          "if k = length buf then r = int k else r \<le> 0" "sock_inv ?s1 \<longrightarrow> sock_inv t"
          "sock_fd t = sock_fd s" "is_connected t = is_connected s" "is_tls t = is_tls s"
          "pushed (io t) = pushed (io s)"
        by auto
      have "take (k - m) (drop m buf) = take (nat ?a) (drop m buf) @ take (k - ?n) (drop ?n buf)"
        using k(1) n(1) take_add [of "nat ?a" "k - ?n" "drop m buf"] by (simp add: add.commute)
      then show ?thesis
        using k n inv by (intro exI [of _ k]) (simp add: io_emit query_def)
    qed
  qed
qed

lemma fd_sent_emit [simp]:
  "fd_sent fd (io (emit env (Rtos c) s)) = fd_sent fd (io s)"
  "fd_sent fd (io (emit env (Net (CloseFd n)) s)) = fd_sent fd (io s)"
  "fd_sent fd (io (emit env (Net (TlsFree x)) s)) = fd_sent fd (io s)"
  by (simp_all add: io_emit)

lemma fd_sent_raise_error [simp]: "fd_sent fd (io (raise_error env m s)) = fd_sent fd (io s)"
  by (simp add: raise_error_def jd_tcpsock_close_def push_error_def push_event_def emits_Cons Let_def
      split: option.split)

lemma tls_sent_emit [simp]:
  "tls_sent (io (emit env (Rtos c) s)) = tls_sent (io s)"
  "tls_sent (io (emit env (Net (CloseFd n)) s)) = tls_sent (io s)"
  "tls_sent (io (emit env (Net (TlsFree x)) s)) = tls_sent (io s)"
  by (simp_all add: io_emit)

lemma tls_sent_raise_error [simp]: "tls_sent (io (raise_error env m s)) = tls_sent (io s)"
  by (simp add: raise_error_def jd_tcpsock_close_def push_error_def push_event_def emits_Cons Let_def
      split: option.split)

lemma jd_free_sock [simp]:
  "sock_inv (jd_free env p s) = sock_inv s" "sock_closed (jd_free env p s) = sock_closed s"
  "sock_fd (jd_free env p s) = sock_fd s" "is_tls (jd_free env p s) = is_tls s"
  "is_connected (jd_free env p s) = is_connected s" "pushed (io (jd_free env p s)) = pushed (io s)"
  "fd_sent fd (io (jd_free env p s)) = fd_sent fd (io s)"
  "tls_sent (io (jd_free env p s)) = tls_sent (io s)"
  by (simp_all add: jd_free_def sock_inv_def sock_closed_def)

text \<open>A failed operation on an open connection closes it and reports the error, then the close.\<close>

lemma raise_error_events:
  assumes "sock_inv s" "sock_fd s \<noteq> 0"
  shows "sock_closed (raise_error env (Some m) s)"
    and "pushed (io (raise_error env (Some m) s)) = pushed (io s) @ [(Ev_error, m), (Ev_close, [])]"
  using assms jd_tcpsock_close_closes [of s env]
  by (simp_all add: raise_error_def push_error_def Let_def sock_closed_def)

text \<open>The loop of \<open>sock_mbedtls_write\<close> with \<open>m\<close> bytes already written.\<close>

lemma tls_write_loop_result:
  assumes env: "tls_blocking env" and "length data < 2 ^ 31" "m \<le> length data" "sock_inv s" "sock_fd s \<noteq> 0"
  shows "\<exists>r t k. tls_write_loop env data (of_nat m) (of_nat (length data) - of_nat m) s = Some (r, t) \<and>
    m \<le> k \<and> k \<le> length data \<and> tls_sent (io t) = tls_sent (io s) @ take (k - m) (drop m data) \<and>
    (if k = length data then sock_inv t \<and> sock_fd t = sock_fd s \<and> is_connected t = is_connected s \<and> is_tls t = is_tls s \<and>
        pushed (io t) = pushed (io s)
     else sock_closed t \<and> pushed (io t) = pushed (io s) @ [(Ev_error, ''mbedtls_ssl_write''), (Ev_close, [])])"
  using assms(3-5)
proof (induction "length data - m" arbitrary: m s rule: less_induct)
  case less
  have un: "unat (of_nat k :: u32) = k" if "k \<le> length data" for k
    using that assms(2) by (simp add: unat_of_nat take_bit_eq_mod)
  have len: "unat (of_nat (length data) - of_nat m :: u32) = length data - m"
    using less.prems(1) un [of "length data - m"] by (simp add: of_nat_diff)
  let ?c = "Net (SslWrite (drop m data))"
  let ?a = "a_ret (query env ?c s)"
  let ?s1 = "emit env ?c s"
  have s1: "sock_inv ?s1" "sock_fd ?s1 \<noteq> 0" "pushed (io ?s1) = pushed (io s)"
    using less.prems by (simp_all add: sock_inv_def)
  show ?case
  proof (cases "m < length data")
    case False
    then have "tls_write_loop env data (of_nat m) (of_nat (length data) - of_nat m) s
        = Some (sint (of_nat m :: u32), s)"
      using less.prems(1) un [of m] by (subst tls_write_loop.simps) simp
    with False less.prems show ?thesis
      by (intro exI [of _ "sint (of_nat m :: u32)"] exI [of _ s] exI [of _ m]) simp
  next
    case m: True
    then have ret: "0 < ?a \<and> ?a \<le> int (length data - m) \<or> ?a < 0 \<and> \<not> needs_io ?a"
      using tls_blockingD [OF env, of "drop m data" s] by (auto simp: of_nat_diff Let_def)
    show ?thesis
    proof (cases "?a < 0")
      case True
      let ?t = "raise_error env (Some ''mbedtls_ssl_write'') ?s1"
      have "tls_write_loop env data (of_nat m) (of_nat (length data) - of_nat m) s = Some (-1, ?t)"
        using True ret m un [of m] len
        by (subst tls_write_loop.simps) (simp add: mbedtls_print_error_msg_def Let_def)
      moreover have "sock_closed ?t" "pushed (io ?t) = pushed (io s) @ [(Ev_error, ''mbedtls_ssl_write''), (Ev_close, [])]"
        using raise_error_events [OF s1(1,2), of env] s1(3) by simp_all
      moreover have "tls_sent (io ?t) = tls_sent (io s)" using True by (simp add: io_emit query_def)
      ultimately show ?thesis using m by (intro exI [of _ "-1"] exI [of _ ?t] exI [of _ m]) simp
    next
      case False
      let ?n = "m + nat ?a"
      have n: "m < ?n" "?n \<le> length data" using False ret by auto
      have w: "(of_nat m + word_of_int ?a :: u32) = of_nat ?n" using False by simp
      have run: "tls_write_loop env data (of_nat m) (of_nat (length data) - of_nat m) s
          = tls_write_loop env data (of_nat ?n) (of_nat (length data) - of_nat ?n) ?s1"
        using False ret m un [of m] len w
        by (subst tls_write_loop.simps) (simp add: Let_def)
      have "length data - ?n < length data - m" using n by linarith
      from less.hyps [OF this n(2) s1(1,2)] obtain r t k where k: "?n \<le> k" "k \<le> length data"
          "tls_write_loop env data (of_nat ?n) (of_nat (length data) - of_nat ?n) ?s1 = Some (r, t)"
          "tls_sent (io t) = tls_sent (io ?s1) @ take (k - ?n) (drop ?n data)"
          "if k = length data then sock_inv t \<and> sock_fd t = sock_fd ?s1 \<and> is_connected t = is_connected ?s1 \<and> is_tls t = is_tls ?s1 \<and>
              pushed (io t) = pushed (io ?s1)
           else sock_closed t \<and> pushed (io t) = pushed (io ?s1) @
              [(Ev_error, ''mbedtls_ssl_write''), (Ev_close, [])]"
        by blast
      have "take (k - m) (drop m data) = take (nat ?a) (drop m data) @ take (k - ?n) (drop ?n data)"
        using k(1) n(1) take_add [of "nat ?a" "k - ?n" "drop m data"] by (simp add: add.commute)
      then have "tls_sent (io t) = tls_sent (io s) @ take (k - m) (drop m data)"
        using k(4) by (simp add: io_emit query_def)
      with run k n s1 show ?thesis
        by (intro exI [of _ r] exI [of _ t] exI [of _ k]) simp
    qed
  qed
qed

text \<open>Processing a write command: plain and TLS connections have the same outcome.\<close>

definition write_outcome ::
    "(io_log \<Rightarrow> u8 list) \<Rightarrow> string \<Rightarrow> u8 list \<Rightarrow> 'z sock_scheme \<Rightarrow> 'z sock_scheme \<Rightarrow> bool" where
  "write_outcome sent err data s t \<longleftrightarrow> (\<exists>k \<le> length data. sent (io t) = sent (io s) @ take k data \<and>
     (if k = length data then sock_inv t \<and> sock_fd t = sock_fd s \<and> is_connected t = is_connected s \<and> is_tls t = is_tls s \<and>
        pushed (io t) = pushed (io s)
      else sock_closed t \<and> pushed (io t) = pushed (io s) @ [(Ev_error, err), (Ev_close, [])]))"

lemma process_write_plain:
  assumes "write_counts env" "sock_inv s" "sock_fd s \<noteq> 0" "\<not> is_tls s"
  shows "\<exists>t. process_write out_len env p data s = Some t \<and>
    write_outcome (fd_sent (sock_fd s)) ''write error'' data s t"
proof -
  obtain r u where u: "forced_write_from env (sock_fd s) data (int 0) s = (r, u)"
    by (cases "forced_write_from env (sock_fd s) data (int 0) s")
  obtain k where k: "k \<le> length data"
      "fd_sent (sock_fd s) (io u) = fd_sent (sock_fd s) (io s) @ take k data"
      "if k = length data then r = int k else r \<le> 0" "sock_inv u" "sock_fd u = sock_fd s"
      "is_connected u = is_connected s" "is_tls u = is_tls s" "pushed (io u) = pushed (io s)"
    using forced_write_from_result [OF u _ assms(1)] assms(2) by auto
  have ne: "r \<noteq> int (length data)" if "k \<noteq> length data" using k(1,3) that by auto
  let ?t = "if r \<noteq> int (length data) then raise_error env (Some ''write error'') u else u"
  have "process_write out_len env p data s = Some (jd_free env p ?t)"
    using assms(3,4) u by (simp add: process_write_def forced_write_def)
  moreover have "write_outcome (fd_sent (sock_fd s)) ''write error'' data s (jd_free env p ?t)"
    unfolding write_outcome_def
    using k ne raise_error_events [OF k(4), of env "''write error''"] assms(3)
    by (intro exI [of _ k]) auto
  ultimately show ?thesis by blast
qed

lemma process_write_tls:
  assumes "tls_blocking env" "length data < out_len" "out_len \<le> 2 ^ 31" "sock_inv s" "is_tls s"
  shows "\<exists>t. process_write out_len env p data s = Some t \<and>
    write_outcome tls_sent ''mbedtls_ssl_write'' data s t"
proof -
  have pre: "length data < 2 ^ 31" "sock_fd s \<noteq> 0" using assms(2-5) by (auto simp: sock_inv_def)
  obtain r t k where t: "tls_write_loop env data 0 (of_nat (length data)) s = Some (r, t)"
      "k \<le> length data" "tls_sent (io t) = tls_sent (io s) @ take k data"
      "if k = length data then sock_inv t \<and> sock_fd t = sock_fd s \<and> is_connected t = is_connected s \<and> is_tls t = is_tls s \<and>
        pushed (io t) = pushed (io s)
       else sock_closed t \<and> pushed (io t) = pushed (io s) @ [(Ev_error, ''mbedtls_ssl_write''), (Ev_close, [])]"
    using tls_write_loop_result [OF assms(1) pre(1), of 0 s] assms(4) pre(2) by auto
  have "process_write out_len env p data s = Some (jd_free env p t)"
    using assms(2,5) t(1) by (simp add: process_write_def sock_mbedtls_write_def)
  moreover have "write_outcome tls_sent ''mbedtls_ssl_write'' data s (jd_free env p t)"
    unfolding write_outcome_def using t by (intro exI [of _ k]) auto
  ultimately show ?thesis by blast
qed

section \<open>The invariant\<close>

lemma sock_inv_plain: "plain_call c \<Longrightarrow> sock_inv (emit env c s) = sock_inv s"
  by (auto simp: plain_call_def split: call.splits)

interpretation inv_calls: sock_calls env "\<lambda>s t. sockets_positive env \<and> sock_inv s \<longrightarrow> sock_inv t" out_len
  for env out_len
  by unfold_locales (auto simp: sock_inv_plain intro: raise_error_inv sock_closed_inv jd_tcpsock_close_closes
      dest: process_open_result)

interpretation sock_safe: safety
  "\<lambda>s. sock_closed s \<and> sockets_positive env" "sock_step out_len env" "\<lambda>s. sock_inv s \<and> sockets_positive env"
  for out_len env
  by unfold_locales (auto simp: sock_closed_inv dest: inv_calls.sock_step_K)

section \<open>Properties\<close>

text \<open>C9: whatever commands, writes, closes, worker turns, polls and re-entrant callbacks follow a
  closed start: at most one descriptor is open and it is the one in \<open>sock_fd\<close>, no descriptor is
  closed twice, each mbedTLS object is live exactly while \<open>is_tls\<close> is set, and a connection
  flagged as TLS or connected has a descriptor.\<close>

theorem sock_no_leak:
  assumes "sock_closed s" "sockets_positive env" "(sock_step out_len env)\<^sup>*\<^sup>* s t"
  shows "open_fds (io t) = (if sock_fd t = 0 then [] else [sock_fd t]) \<and> closes_ok (io t) \<and>
    (\<forall>x. tls_live x (io t) = (if is_tls t then 1 else 0)) \<and>
    (is_tls t \<or> is_connected t \<longrightarrow> sock_fd t \<noteq> 0)"
  using sock_safe.inv_reachable [OF _ assms(3)] assms(1,2) by (simp add: sock_inv_def log_inv_def)

text \<open>A network on which every host has one address and every connection succeeds; the command
  queue asks for a TLS connection.\<close>

definition net_env :: env where
  "net_env c l = (case c of
      Rtos (QReceive q n) \<Rightarrow> ans0\<lparr>a_item := Some (Cmd_open 9 ''example'' (- 443))\<rparr>
    | Net (GetAddrInfo h b) \<Rightarrow> ans0\<lparr>a_list := [1]\<rparr>
    | Net (Socket a) \<Rightarrow> ans0\<lparr>a_ret := 54\<rparr>
    | Net (WriteFd fd bs) \<Rightarrow> ans0\<lparr>a_ret := int (length bs)\<rparr>
    | Net (SslWrite bs) \<Rightarrow> ans0\<lparr>a_ret := int (length bs)\<rparr>
    | _ \<Rightarrow> ans0)"

lemma net_env_ok: "sockets_positive net_env" "write_counts net_env"
  by (simp_all add: sockets_positive_def write_counts_def net_env_def ans0_def)

lemma boot_sock_closed: "sock_closed boot_sock"
  by (simp add: sock_closed_def boot_defs log_inv_def)

lemma net_env_opens:
  "\<exists>t. sock_worker_turn 16384 net_env boot_sock = Some t \<and> is_tls t \<and> is_connected t \<and> sock_fd t = 54"
  by (simp add: sock_worker_turn_def process_open_def sock_create_and_connect_def tls_start_def tls_call_def
      jd_tcpsock_close_def boot_defs net_env_def ans0_def query_def emits_Cons Let_def jd_free_def
      push_event_def handshake_loop.simps)

theorem sock_no_leak_witness:
  "\<exists>t. (sock_step 16384 net_env)\<^sup>*\<^sup>* boot_sock t \<and> open_fds (io t) = [54] \<and> tls_live Ssl (io t) = 1"
proof -
  obtain t where t: "sock_worker_turn 16384 net_env boot_sock = Some t" "is_tls t" "sock_fd t = 54"
    using net_env_opens by blast
  then have run: "(sock_step 16384 net_env)\<^sup>*\<^sup>* boot_sock t"
    by (intro r_into_rtranclp sock_step_worker)
  from sock_no_leak [OF boot_sock_closed net_env_ok(1) run] t run show ?thesis by auto
qed

text \<open>C10: an open command that returns either ends connected, with the single event OPEN, or ends
  with everything closed and the event ERROR, the events ERROR and CLOSE, or none.\<close>

theorem process_open_outcome:
  assumes "process_open env p h port s = Some t" "sock_inv s" "sockets_positive env"
  shows "is_connected t \<and> sock_fd t \<noteq> 0 \<and> pushed (io t) = pushed (io s) @ [(Ev_open, [])] \<or>
    sock_fd t = 0 \<and> \<not> is_connected t \<and> \<not> is_tls t \<and> open_fds (io t) = [] \<and>
      (\<exists>evs. pushed (io t) = pushed (io s) @ evs \<and> map fst evs \<in> {[], [Ev_error], [Ev_error, Ev_close]})"
  using process_open_result [OF assms]
  by (auto simp: open_failed_def sock_closed_def log_inv_def)

theorem process_open_outcome_witness:
  "\<exists>t. process_open net_env 9 ''example'' 80 boot_sock = Some t \<and> sock_fd t = 54 \<and>
    pushed (io t) = [(Ev_open, [])]"
proof -
  have "\<exists>t. process_open net_env 9 ''example'' 80 boot_sock = Some t \<and> sock_fd t = 54"
    by (simp add: process_open_def sock_create_and_connect_def jd_tcpsock_close_def boot_defs net_env_def
        ans0_def query_def Let_def jd_free_def push_event_def)
  then obtain t where t: "process_open net_env 9 ''example'' 80 boot_sock = Some t" "sock_fd t = 54"
    by blast
  from process_open_outcome [OF t(1) sock_closed_inv [OF boot_sock_closed] net_env_ok(1)] t
  show ?thesis by (auto simp: boot_defs)
qed

text \<open>C14: a write command always returns, having handed a prefix of the data to the socket, or to the TLS
  layer, in order. Either it is all of the data and nothing else changes, or the connection is
  closed and the events ERROR and CLOSE are pushed, in that order. Over TLS this needs a layer that
  accepts bytes or fails for good and never asks the caller to wait.\<close>

theorem process_write_outcome:
  assumes "write_counts env" "tls_blocking env" "sock_inv s" "sock_fd s \<noteq> 0"
    and "is_tls s \<longrightarrow> length data < out_len" "out_len \<le> 2 ^ 31"
  shows "\<exists>t k. process_write out_len env p data s = Some t \<and> k \<le> length data \<and>
    (let sent = (if is_tls s then tls_sent else fd_sent (sock_fd s)) in
      sent (io t) = sent (io s) @ take k data) \<and>
    (if k = length data then sock_fd t = sock_fd s \<and> is_connected t = is_connected s \<and> pushed (io t) = pushed (io s)
     else sock_fd t = 0 \<and> \<not> is_connected t \<and> pushed (io t) = pushed (io s) @
       [(Ev_error, if is_tls s then ''mbedtls_ssl_write'' else ''write error''), (Ev_close, [])])"
proof -
  let ?sent = "if is_tls s then tls_sent else fd_sent (sock_fd s)"
  let ?err = "if is_tls s then ''mbedtls_ssl_write'' else ''write error''"
  have "\<exists>t. process_write out_len env p data s = Some t \<and> write_outcome ?sent ?err data s t"
  proof (cases "is_tls s")
    case True
    with assms show ?thesis using process_write_tls [of env data out_len s p] by simp
  next
    case False
    with assms show ?thesis using process_write_plain [of env s out_len p data] by simp
  qed
  then obtain t k where "process_write out_len env p data s = Some t" "k \<le> length data"
      "?sent (io t) = ?sent (io s) @ take k data"
      "if k = length data then sock_inv t \<and> sock_fd t = sock_fd s \<and> is_connected t = is_connected s \<and> is_tls t = is_tls s \<and>
        pushed (io t) = pushed (io s)
       else sock_closed t \<and> pushed (io t) = pushed (io s) @ [(Ev_error, ?err), (Ev_close, [])]"
    unfolding write_outcome_def by blast
  then show ?thesis
    by (intro exI [of _ t] exI [of _ k]) (simp add: sock_closed_def Let_def split: if_splits)
qed

definition open_sock :: sock where
  "open_sock = boot_sock\<lparr>io := [(Net (Socket 1), ans0\<lparr>a_ret := 54\<rparr>)], sock_fd := 54, is_connected := True\<rparr>"

lemma open_sock_inv: "sock_inv open_sock"
  by (simp add: sock_inv_def log_inv_def open_sock_def boot_defs ans0_def)

definition tls_sock :: sock where
  "tls_sock = open_sock\<lparr>io := [(Net (TlsInit Entropy), ans0), (Net (TlsInit Ssl_config), ans0),
     (Net (TlsInit Ctr_drbg), ans0), (Net (TlsInit Ssl), ans0), (Net (Socket 1), ans0\<lparr>a_ret := 54\<rparr>)],
     is_tls := True\<rparr>"

lemma tls_sock_inv: "sock_inv tls_sock"
proof -
  have "tls_live x (io tls_sock) = 1" for x
    by (cases x) (simp_all add: tls_sock_def)
  then show ?thesis
    by (simp add: sock_inv_def log_inv_def tls_sock_def open_sock_def boot_defs ans0_def)
qed

lemma net_env_tls: "tls_blocking net_env"
  by (simp add: tls_blocking_def net_env_def ans0_def Let_def)

theorem process_write_outcome_witness:
  "(\<exists>t. process_write 16384 net_env 9 [1, 2, 3] open_sock = Some t \<and> length (fd_sent 54 (io t)) \<le> 3) \<and>
   (\<exists>t. process_write 16384 net_env 9 [1, 2, 3] tls_sock = Some t \<and> length (tls_sent (io t)) \<le> 3)"
  using process_write_outcome [OF net_env_ok(2) net_env_tls open_sock_inv, of "[1, 2, 3]" 16384 9]
    process_write_outcome [OF net_env_ok(2) net_env_tls tls_sock_inv, of "[1, 2, 3]" 16384 9]
  by (auto simp: tls_sock_def open_sock_def boot_defs Let_def)

text \<open>C30: when the TLS layer asks for a wait (\<open>needs_io\<close>) instead, the write is abandoned: the
  negative code wraps the \<open>size_t\<close> counter past the length, so the loop ends after this one
  call, nothing is retried, no event is pushed, and the connection stays open.\<close>

theorem tls_write_abandoned:
  assumes "needs_io (a_ret (query env (Net (SslWrite data)) s))"
    and "data \<noteq> []" "length data < out_len" "out_len \<le> 16384" "is_tls s"
  shows "process_write out_len env p data s =
    Some (jd_free env p (emit env (Rtos (TaskDelay 5)) (emit env (Net (SslWrite data)) s)))"
proof -
  let ?a = "a_ret (query env (Net (SslWrite data)) s)"
  have a: "?a = -0x6900 \<or> ?a = -0x6880"
    using assms(1) by (simp add: needs_io_def MBEDTLS_ERR_SSL_WANT_READ_def MBEDTLS_ERR_SSL_WANT_WRITE_def)
  have un: "unat (of_nat (length data) :: u32) = length data"
    using assms(3,4) by (simp add: unat_of_nat take_bit_eq_mod)
  have "unat (word_of_int (-0x6900) :: u32) = 4294940416" "unat (word_of_int (-0x6880) :: u32) = 4294940544"
    by simp_all
  with a have big: "\<not> unat (word_of_int ?a :: u32) < length data" using assms(3,4) by auto
  have "tls_write_loop env data (word_of_int ?a) wl u = Some (sint (word_of_int ?a :: u32), u)"
    for wl and u :: "'a sock_scheme"
    using big by (subst tls_write_loop.simps) simp
  then have "tls_write_loop env data 0 (of_nat (length data)) s
      = Some (sint (word_of_int ?a :: u32), emit env (Rtos (TaskDelay 5)) (emit env (Net (SslWrite data)) s))"
    using a assms(1,2) un by (subst tls_write_loop.simps) (auto simp: Let_def)
  with assms(3,5) show ?thesis by (simp add: process_write_def sock_mbedtls_write_def)
qed

definition busy_tls_env :: env where
  "busy_tls_env c l = (case c of
      Net (SslWrite bs) \<Rightarrow> ans0\<lparr>a_ret := MBEDTLS_ERR_SSL_WANT_WRITE\<rparr> | _ \<Rightarrow> ans0)"

theorem tls_write_abandoned_witness:
  "\<exists>t. process_write 16384 busy_tls_env 9 [1, 2, 3] tls_sock = Some t \<and> tls_sent (io t) = [] \<and>
    pushed (io t) = [] \<and> is_tls t"
  using tls_write_abandoned [of busy_tls_env "[1, 2, 3]" tls_sock 16384 9]
  by (simp add: busy_tls_env_def query_def needs_io_def tls_sock_def ans0_def open_sock_def boot_defs
      io_emit MBEDTLS_ERR_SSL_WANT_WRITE_def)

lemma connect_loop_no_socket:
  assumes "\<forall>a l. a_ret (env (Net (Socket a)) l) = -1"
  shows "\<exists>t. connect_loop env rps s = (-1, t) \<and> pushed (io t) = pushed (io s) \<and>
    is_connected t = is_connected s \<and> is_tls t = is_tls s \<and> sock_fd t = sock_fd s"
proof (induction rps arbitrary: s)
  case (Cons a rps)
  from Cons [of "emit env (Net (Socket a)) s"] show ?case by (simp add: query_def assms)
qed simp

text \<open>When no socket can be created for any address of the host, opening returns without a
  connection and without pushing any event.\<close>

theorem open_fails_silently:
  assumes "\<forall>a l. a_ret (env (Net (Socket a)) l) = -1" "\<forall>h b l. a_ret (env (Net (GetAddrInfo h b)) l) = 0"
  shows "\<exists>t. process_open env p h port s = Some t \<and> \<not> is_connected t \<and> sock_fd t = 0 \<and>
    pushed (io t) = pushed (io s)"
proof -
  define pt where "pt = (if port < 0 then - port else port)"
  let ?s0 = "jd_tcpsock_close env s"
  let ?s1 = "emit env (Net (PrintPort pt)) ?s0"
  let ?g = "GetAddrInfo h (a_bytes (query env (Net (PrintPort pt)) ?s0))"
  let ?s2 = "emit env (Net ?g) ?s1"
  have s0: "sock_fd ?s0 = 0" "\<not> is_connected ?s0" by (simp_all add: jd_tcpsock_close_def Let_def)
  obtain t where t: "connect_loop env (a_list (query env (Net ?g) ?s1)) ?s2 = (-1, t)"
      "pushed (io t) = pushed (io s)" "\<not> is_connected t" "sock_fd t = 0"
    using connect_loop_no_socket [OF assms(1), of "a_list (query env (Net ?g) ?s1)" ?s2] s0 by auto
  have g: "a_ret (query env (Net ?g) ?s1) = 0" by (simp add: query_def assms(2))
  have "sock_create_and_connect env h port ?s0 = Some (-1, emit env (Net FreeAddrInfo) t)"
    using t(1) g by (simp add: sock_create_and_connect_def Let_def pt_def [symmetric] cong: if_cong split del: if_split)
  then show ?thesis using t by (simp add: process_open_def)
qed

definition no_socket_env :: env where
  "no_socket_env c l = (case c of Net (Socket a) \<Rightarrow> ans0\<lparr>a_ret := -1\<rparr>
     | Net (GetAddrInfo h b) \<Rightarrow> ans0\<lparr>a_list := [1, 2]\<rparr> | _ \<Rightarrow> ans0)"

theorem open_fails_silently_witness:
  "\<exists>t. process_open no_socket_env 9 ''example'' 80 boot_sock = Some t \<and> pushed (io t) = []"
  using open_fails_silently [of no_socket_env 9 "''example''" 80 boot_sock]
  by (auto simp: no_socket_env_def ans0_def boot_defs)

end
