(* ===== verification/SockQueues.thy ===== *)
theory SockQueues
  imports SockTransfer
begin

text \<open>
  The two queues of main/sock.c. FreeRTOS queues are untyped: what keeps a command out of the event
  queue and an event out of the command queue is that every operation sends only to the queue of
  that type, which is shown here for every entry point and every run.
\<close>

section \<open>Typed queues\<close>

fun is_cmd :: "q_item \<Rightarrow> bool" where
  "is_cmd (Cmd_open p h port) = True"
| "is_cmd (Cmd_write p d) = True"
| "is_cmd _ = False"

fun is_event :: "q_item \<Rightarrow> bool" where
  "is_event (Sock_event e m) = True"
| "is_event _ = False"

definition queues_typed :: "'z sock_scheme \<Rightarrow> bool" where
  "queues_typed s \<longleftrightarrow> sock_cmds s \<noteq> sock_events s \<and>
     list_all is_cmd (q_items (sock_cmds s) (io s)) \<and> list_all is_event (q_items (sock_events s) (io s))"

definition same_queues :: "'z sock_scheme \<Rightarrow> 'z sock_scheme \<Rightarrow> bool" where
  "same_queues s t \<longleftrightarrow> sock_cmds t = sock_cmds s \<and> sock_events t = sock_events s"

definition keeps_queues :: "'z sock_scheme \<Rightarrow> 'z sock_scheme \<Rightarrow> bool" where
  "keeps_queues s t \<longleftrightarrow> same_queues s t \<and> (queues_typed s \<longrightarrow> queues_typed t)"

lemma same_queues_trans: "same_queues s t \<Longrightarrow> same_queues t u \<Longrightarrow> same_queues s u"
  by (simp add: same_queues_def)

lemma keeps_queues_refl [simp]: "keeps_queues s s"
  by (simp add: keeps_queues_def same_queues_def)

lemma keeps_queues_trans: "keeps_queues s t \<Longrightarrow> keeps_queues t u \<Longrightarrow> keeps_queues s u"
  by (auto simp: keeps_queues_def same_queues_def)

section \<open>Steps that keep the types\<close>

text \<open>A receive shortens a queue, and a call that sends nothing leaves both alone.\<close>

lemma q_items_no_send:
  assumes "no_send c"
  shows "set (q_items q ((c, a) # l)) \<subseteq> set (q_items q l)"
proof -
  have "set (tl xs) \<subseteq> set xs" for xs :: "q_item list" by (cases xs) auto
  with assms show ?thesis
    by (cases "(q, (c, a) # l)" rule: q_items.cases) auto
qed

lemma keeps_queues_call: "no_send c \<Longrightarrow> keeps_queues s (emit env c s)"
  using q_items_no_send [of c _ "env c (io s)" "io s"]
  by (auto simp: keeps_queues_def same_queues_def queues_typed_def list_all_iff io_emit)

text \<open>Sending an item of the type of the queue.\<close>

lemma keeps_queues_send_cmd:
  assumes "keeps_queues s t" "is_cmd x"
  shows "q = sock_cmds t \<Longrightarrow> keeps_queues s (emit env (Rtos (QSend q x n)) t)"
  by (rule keeps_queues_trans [OF assms(1)])
    (use assms(2) in \<open>auto simp: keeps_queues_def same_queues_def queues_typed_def io_emit\<close>)

lemma keeps_queues_push: "keeps_queues s (push_event env e m s)"
  by (auto simp: push_event_def keeps_queues_def same_queues_def queues_typed_def io_emit)

interpretation typed_fields: sock_fields env keeps_queues for env
proof
  fix s t u :: "'a sock_scheme"
  show "keeps_queues s t \<Longrightarrow> keeps_queues t u \<Longrightarrow> keeps_queues s u" by (rule keeps_queues_trans)
qed (erule keeps_queues_call | rule keeps_queues_push
    | simp add: keeps_queues_def same_queues_def queues_typed_def)+

section \<open>The operations\<close>

lemma keeps_queues_worker:
  assumes "sock_worker_turn out_len env s = Some t"
  shows "keeps_queues s t"
proof -
  have "keeps_queues (emit env (Rtos (QReceive (sock_cmds s) 20)) s) t"
    using assms typed_fields.open_K typed_fields.process_write_K
    by (auto simp: sock_worker_turn_def split: option.splits q_item.splits)
  then show ?thesis by (rule keeps_queues_trans [rotated]) simp
qed

interpretation typed: sock_relation env keeps_queues out_len own for env out_len own
proof
  fix s t :: "'a sock_scheme" and h p b r
  show "keeps_queues s (snd (jd_tcpsock_new env h p s))"
    by (simp add: jd_tcpsock_new_def keeps_queues_send_cmd)
  show "keeps_queues s t" if "jd_tcpsock_write env b s = Some (r, t)"
    using that by (auto simp: jd_tcpsock_write_def jd_alloc_def Let_def keeps_queues_send_cmd split: if_splits)
qed (simp_all add: keeps_queues_worker, erule (1) keeps_queues_trans)

section \<open>Property\<close>

text \<open>A receive hands out the oldest item in the queue, and nothing from an empty one.\<close>

definition receives_stored :: "env \<Rightarrow> queue \<Rightarrow> bool" where
  "receives_stored env q \<longleftrightarrow> (\<forall>l n. a_item (env (Rtos (QReceive q n)) l) =
     (case q_items q l of [] \<Rightarrow> None | x # _ \<Rightarrow> Some x))"

text \<open>C29: from \<open>jd_tcpsock_init\<close> on, provided it is given two different new queues, the queue of commands
  holds only commands and the queue of events only events in every state that calls, worker turns,
  polls and re-entrant callbacks reach. So whatever the worker receives is an open or a write, and
  whatever the poll receives is an event: no reader ever interprets an item of the other type.\<close>

theorem sock_queues_typed:
  assumes "s = jd_tcpsock_init env u" "sock_cmds s \<noteq> sock_events s"
    and "q_items (sock_cmds s) (io u) = []" "q_items (sock_events s) (io u) = []"
    and "receives_stored env (sock_cmds s)" "receives_stored env (sock_events s)"
    and "(sock_step out_len env)\<^sup>*\<^sup>* s t"
  shows "queues_typed t \<and>
    (\<forall>x n. a_item (query env (Rtos (QReceive (sock_cmds t) n)) t) = Some x \<longrightarrow> is_cmd x) \<and>
    (\<forall>x n. a_item (query env (Rtos (QReceive (sock_events t) n)) t) = Some x \<longrightarrow> is_event x)"
proof -
  have "queues_typed s"
    using assms(1-4) by (simp add: jd_tcpsock_init_def queues_typed_def io_emit Let_def)
  with typed.sock_steps_K [OF assms(7)] have t: "queues_typed t" "same_queues s t"
    by (simp_all add: keeps_queues_def)
  with assms(5,6) show ?thesis
    by (auto simp: query_def receives_stored_def queues_typed_def same_queues_def split: list.splits)
qed

text \<open>Queues of 50 items, created as 1 and 2.\<close>

definition typed_env :: env where
  "typed_env c l = (case c of
      Rtos (QCreate n) \<Rightarrow> ans0\<lparr>a_ptr := (if n = 50 then 1 else 2)\<rparr>
    | _ \<Rightarrow> queue_env 50 c l)"

theorem sock_queues_typed_witness:
  "\<exists>t. (sock_step 16384 typed_env)\<^sup>*\<^sup>* (jd_tcpsock_init typed_env boot_sock) t \<and>
    q_items (sock_cmds t) (io t) = [Cmd_open 0 ''example.org'' 80] \<and> queues_typed t"
proof -
  let ?s = "jd_tcpsock_init typed_env boot_sock"
  let ?t = "snd (jd_tcpsock_new typed_env ''example.org'' 80 ?s)"
  have init: "sock_cmds ?s = 1" "sock_events ?s = 2" "io boot_sock = []" "q_items 1 (io ?s) = []"
    by (simp_all add: jd_tcpsock_init_def boot_defs typed_env_def query_def io_emit Let_def)
  have "receives_stored typed_env q" for q
    by (simp add: receives_stored_def typed_env_def ans0_def)
  moreover have run: "(sock_step 16384 typed_env)\<^sup>*\<^sup>* ?s ?t"
    by (blast intro: client_step.sock_new)
  ultimately have "queues_typed ?t"
    using sock_queues_typed [where env = typed_env and u = boot_sock and t = ?t and out_len = 16384, OF refl] init
    by simp
  moreover have "q_items (sock_cmds ?t) (io ?t) = [Cmd_open 0 ''example.org'' 80]"
    using init by (simp add: jd_tcpsock_new_def typed_env_def query_def io_emit ans0_def pdPASS_def Let_def)
  ultimately show ?thesis using run by blast
qed

end
