(* ===== verification/SockEvents.thy ===== *)
theory SockEvents
  imports SockTransfer
begin

text \<open>
  What main/sock.c promises about events: they follow an abstract connection, and a connection that
  is lost is always reported.
\<close>

section \<open>The abstract connection\<close>

datatype conn = Down | Up

text \<open>One step of the connection with the events it reports: nothing happens or the client closes;
  an open succeeds, or fails before or after a socket was connected; an open connection breaks.\<close>

definition conn_step :: "conn \<Rightarrow> conn_ev list \<Rightarrow> conn \<Rightarrow> bool" where
  "conn_step c evs c' \<longleftrightarrow>
     evs = [] \<and> (c' = c \<or> c' = Down) \<or>
     evs = [Ev_open] \<and> c' = Up \<or>
     evs \<in> {[Ev_error], [Ev_close], [Ev_error, Ev_close]} \<and> c' = Down"

inductive conn_run :: "conn \<Rightarrow> conn_ev list \<Rightarrow> conn \<Rightarrow> bool" where
  stop: "conn_run c [] c"
| step: "conn_run c evs c' \<Longrightarrow> conn_step c' es c'' \<Longrightarrow> conn_run c (evs @ es) c''"

lemma conn_run_step: "conn_step c evs c' \<Longrightarrow> conn_run c evs c'"
  using conn_run.step [OF conn_run.stop] by simp

lemma conn_run_append:
  assumes "conn_run c' es c''" "conn_run c evs c'"
  shows "conn_run c (evs @ es) c''"
  using assms by (induction rule: conn_run.induct) (auto intro: conn_run.step simp flip: append_assoc)

text \<open>A connection that has come up reported so last.\<close>

lemma conn_run_up: "conn_run c evs c' \<Longrightarrow> c' = Up \<Longrightarrow> c = Up \<and> evs = [] \<or> evs \<noteq> [] \<and> last evs = Ev_open"
  by (induction rule: conn_run.induct) (auto simp: conn_step_def)

section \<open>The client refines it\<close>

definition conn_of :: "'z sock_scheme \<Rightarrow> conn" where
  "conn_of s = (if is_connected s then Up else Down)"

definition conn_sim :: "'z sock_scheme \<Rightarrow> 'z sock_scheme \<Rightarrow> bool" where
  "conn_sim s t \<longleftrightarrow> (\<exists>evs. pushed (io t) = pushed (io s) @ evs \<and>
     conn_run (conn_of s) (map fst evs) (conn_of t))"

lemma conn_sim_trans: "conn_sim s t \<Longrightarrow> conn_sim t u \<Longrightarrow> conn_sim s u"
  unfolding conn_sim_def by (fastforce intro: conn_run_append)

lemma conn_simI:
  assumes "pushed (io t) = pushed (io s) @ evs" "conn_step (conn_of s) (map fst evs) (conn_of t)"
  shows "conn_sim s t"
  using assms conn_run_step unfolding conn_sim_def by blast

lemma conn_sim_same: "pushed (io t) = pushed (io s) \<Longrightarrow> is_connected t = is_connected s \<Longrightarrow> conn_sim s t"
  by (intro conn_simI [of _ _ "[]"]) (simp_all add: conn_step_def conn_of_def)

lemma pushed_plain: "plain_call c \<Longrightarrow> pushed (io (emit env c s)) = pushed (io s)"
  by (auto simp: plain_call_def io_emit split: call.splits rtos_call.splits q_item.splits net_call.splits)

lemma conn_sim_plain: "plain_call c \<Longrightarrow> conn_sim s (emit env c s)"
  by (intro conn_sim_same) (simp_all add: pushed_plain)

lemma close_closed [simp]:
  "\<not> is_connected (jd_tcpsock_close env s)" "sock_fd (jd_tcpsock_close env s) = 0"
  "\<not> is_tls (jd_tcpsock_close env s)"
  by (simp_all add: jd_tcpsock_close_def Let_def)

lemma conn_sim_close: "conn_sim s (jd_tcpsock_close env s)"
  by (intro conn_simI [of _ _ "[]"]) (simp_all add: conn_step_def conn_of_def)

lemma conn_sim_error: "conn_sim s (raise_error env m s)"
proof (cases "sock_fd s = 0")
  case True
  then show ?thesis by (intro conn_sim_same) (simp_all add: raise_error_def)
next
  case False
  then show ?thesis
    by (intro conn_simI [of _ _ "(case m of None \<Rightarrow> [] | Some e \<Rightarrow> [(Ev_error, e)]) @ [(Ev_close, [])]"])
      (auto simp: raise_error_def push_error_def conn_step_def conn_of_def Let_def
        split: option.split)
qed

lemma conn_sim_open:
  assumes "process_open env p h port s = Some t" "sock_inv s" "sockets_positive env"
  shows "conn_sim s t"
  using process_open_result [OF assms]
proof (elim conjE disjE)
  assume "is_connected t" "pushed (io t) = pushed (io s) @ [(Ev_open, [])]"
  then show ?thesis by (intro conn_simI [of t s "[(Ev_open, [])]"]) (auto simp: conn_step_def conn_of_def)
next
  assume "open_failed s t"
  then obtain evs where "pushed (io t) = pushed (io s) @ evs" "\<not> is_connected t"
      "map fst evs \<in> {[], [Ev_error], [Ev_error, Ev_close]}"
    by (auto simp: open_failed_def sock_closed_def)
  then show ?thesis by (intro conn_simI [of t s evs]) (auto simp: conn_step_def conn_of_def)
qed

interpretation conn_calls: sock_calls env
  "\<lambda>s t. sockets_positive env \<and> sock_inv s \<longrightarrow> sock_inv t \<and> conn_sim s t" out_len
  for env out_len
proof
  fix s t :: "'a sock_scheme" and p h port
  assume "process_open env p h port s = Some t"
  then show "sockets_positive env \<and> sock_inv s \<longrightarrow> sock_inv t \<and> conn_sim s t"
    using conn_sim_open process_open_result by blast
qed (auto simp: sock_inv_plain conn_sim_same intro: conn_sim_trans conn_sim_plain conn_sim_close conn_sim_error
    raise_error_inv sock_closed_inv jd_tcpsock_close_closes)



section \<open>Lost connections are reported\<close>

text \<open>Either nothing is reported and the connection is as it was, or it was open and is gone, with an
  optional ERROR and one CLOSE.\<close>

definition reported :: "'z sock_scheme \<Rightarrow> 'z sock_scheme \<Rightarrow> bool" where
  "reported s t \<longleftrightarrow>
     pushed (io t) = pushed (io s) \<and> sock_fd t = sock_fd s \<and> is_connected t = is_connected s \<and> is_tls t = is_tls s \<or>
     sock_fd s \<noteq> 0 \<and> sock_fd t = 0 \<and> \<not> is_connected t \<and> \<not> is_tls t \<and>
       (\<exists>m. pushed (io t) = pushed (io s) @ (case m of None \<Rightarrow> [] | Some e \<Rightarrow> [(Ev_error, e)]) @ [(Ev_close, [])])"

lemma reported_trans: "reported s t \<Longrightarrow> reported t u \<Longrightarrow> reported s u"
  by (auto simp: reported_def)

lemma reported_plain: "plain_call c \<Longrightarrow> reported s (emit env c s)"
  by (simp add: reported_def pushed_plain)

lemma reported_error: "reported s (raise_error env m s)"
proof (cases "sock_fd s = 0")
  case False
  then show ?thesis
    unfolding reported_def by (intro disjI2)
      (auto simp: raise_error_def push_error_def Let_def split: option.split intro: exI [of _ m])
qed (simp add: reported_def raise_error_def)

interpretation reports: sock_plain env reported out_len for env out_len
proof
  show "reported s t \<Longrightarrow> reported t u \<Longrightarrow> reported s u" for s t u :: "'a sock_scheme"
    by (rule reported_trans)
qed (simp_all add: reported_plain reported_error, simp add: reported_def)


text \<open>A peer that closes the connection.\<close>

definition peer_closes :: env where
  "peer_closes c l = (case c of Net (RecvFd fd n) \<Rightarrow> ans0 | _ \<Rightarrow> queue_env 20 c l)"


end
