(* ===== verification/SockStream.thy ===== *)
theory SockStream
  imports SockQueues SockEvents
begin

text \<open>
  What main/sock.c promises about data: over whole runs, what was accepted for writing reaches the
  connection in order.
\<close>

section \<open>The data\<close>

text \<open>The data of a command, the commands a queue has accepted so far, and from these: the data that
  has been accepted for writing, the part of it still in the queue, and what is on the wire.\<close>

fun write_data :: "q_item \<Rightarrow> u8 list" where
  "write_data (Cmd_write p d) = d"
| "write_data _ = []"

fun q_sent :: "queue \<Rightarrow> io_log \<Rightarrow> q_item list" where
  "q_sent q [] = []"
| "q_sent q ((Rtos (QSend q' x t), a) # l) =
     (if q' = q \<and> a_ret a = pdPASS then q_sent q l @ [x] else q_sent q l)"
| "q_sent q (_ # l) = q_sent q l"

definition accepted :: "'z sock_scheme \<Rightarrow> u8 list" where
  "accepted s = concat (map write_data (q_sent (sock_cmds s) (io s)))"

definition queued :: "'z sock_scheme \<Rightarrow> u8 list" where
  "queued s = concat (map write_data (q_items (sock_cmds s) (io s)))"

definition on_wire :: "'z sock_scheme \<Rightarrow> u8 list" where
  "on_wire s = (if is_tls s then tls_sent (io s) else fd_sent (sock_fd s) (io s))"

text \<open>Two states of which the second keeps the connection of the first, as far as it is still there.\<close>

definition keeps_conn :: "'z sock_scheme \<Rightarrow> 'z sock_scheme \<Rightarrow> u8 list \<Rightarrow> bool" where
  "keeps_conn s t new \<longleftrightarrow> sock_fd t = sock_fd s \<and> is_tls t = is_tls s \<and> accepted t = accepted s @ new \<and>
     on_wire t @ queued t = on_wire s @ queued s @ new"

definition streams :: "'z sock_scheme \<Rightarrow> 'z sock_scheme \<Rightarrow> bool" where
  "streams s t \<longleftrightarrow> same_queues s t \<and> (\<exists>evs. pushed (io t) = pushed (io s) @ evs \<and>
     (evs = [] \<and> sock_fd t \<noteq> 0 \<longrightarrow> (\<exists>new. keeps_conn s t new)))"

lemma streams_trans [trans]: "streams s t \<Longrightarrow> streams t u \<Longrightarrow> streams s u"
  unfolding streams_def keeps_conn_def same_queues_def by fastforce

lemma streamsI:
  assumes "same_queues s t" "pushed (io t) = pushed (io s)" "sock_fd t \<noteq> 0 \<Longrightarrow> keeps_conn s t new"
  shows "streams s t"
  using assms by (auto simp: streams_def)

lemma streams_lost:
  assumes "same_queues s t" "pushed (io t) = pushed (io s) @ evs" "evs \<noteq> [] \<or> sock_fd t = 0"
  shows "streams s t"
  using assms unfolding streams_def by blast

lemma streams_refl: "streams s s"
  by (intro streamsI [of _ _ "[]"]) (simp_all add: same_queues_def keeps_conn_def)

section \<open>The queues stay\<close>

lemma sock_cmds_emits [simp]: "sock_cmds (emits env cs s) = sock_cmds s" for s :: "'z sock_scheme"
  by (induction cs arbitrary: s) (simp_all add: emits_Cons)

lemma queues_close [simp]:
  "sock_cmds (jd_tcpsock_close env s) = sock_cmds s" "sock_events (jd_tcpsock_close env s) = sock_events s"
  by (simp_all add: jd_tcpsock_close_def Let_def)

lemma queues_push [simp]:
  "sock_cmds (push_event env e m s) = sock_cmds s" "sock_events (push_event env e m s) = sock_events s"
  by (simp_all add: push_event_def)

lemma queues_free [simp]:
  "sock_cmds (jd_free env p s) = sock_cmds s" "sock_events (jd_free env p s) = sock_events s"
  for s :: "'z sock_scheme"
  by (simp_all add: jd_free_def)

lemma queues_error [simp]:
  "sock_cmds (raise_error env m s) = sock_cmds s" "sock_events (raise_error env m s) = sock_events s"
  by (simp_all add: raise_error_def push_error_def Let_def split: option.split)

lemma same_queues_open: "process_open env p h port s = Some t \<Longrightarrow> same_queues s t"
  by (drule typed_fields.open_K) (simp add: keeps_queues_def)

section \<open>Writing leaves the command queue alone\<close>

definition same_cmds :: "'z sock_scheme \<Rightarrow> 'z sock_scheme \<Rightarrow> bool" where
  "same_cmds s t \<longleftrightarrow> (sock_cmds s \<noteq> sock_events s \<longrightarrow> same_queues s t \<and>
     q_items (sock_cmds s) (io t) = q_items (sock_cmds s) (io s) \<and>
     q_sent (sock_cmds s) (io t) = q_sent (sock_cmds s) (io s))"

lemma same_cmds_call:
  assumes "\<And>a l. q_items (sock_cmds s) ((c, a) # l) = q_items (sock_cmds s) l"
    and "\<And>a l. q_sent (sock_cmds s) ((c, a) # l) = q_sent (sock_cmds s) l"
  shows "same_cmds s (emit env c s)"
  using assms by (simp add: same_cmds_def same_queues_def io_emit)

lemma same_cmds_trans: "same_cmds s t \<Longrightarrow> same_cmds t u \<Longrightarrow> same_cmds s u"
  by (auto simp: same_cmds_def same_queues_def)

lemma same_cmds_error: "same_cmds s (raise_error env m s)"
proof -
  have "q_items q (io (push_event env e x u)) = q_items q (io u)" "q_sent q (io (push_event env e x u)) = q_sent q (io u)"
    if "q \<noteq> sock_events u" for q e x and u :: "'a sock_scheme"
    using that by (simp_all add: push_event_def io_emit)
  moreover have "q_items q (io (jd_tcpsock_close env s)) = q_items q (io s)"
      "q_sent q (io (jd_tcpsock_close env s)) = q_sent q (io s)" for q
    by (simp_all add: jd_tcpsock_close_def emits_Cons io_emit Let_def)
  ultimately show ?thesis
    by (auto simp: same_cmds_def same_queues_def raise_error_def push_error_def Let_def split: option.split)
qed

interpretation write_cmds: sock_writes env same_cmds for env
proof
  show "same_cmds s (emit env c s)" if "write_call c" for c and s :: "'a sock_scheme"
    using that by (cases c rule: write_call.cases) (auto intro: same_cmds_call)
qed (rule same_cmds_error | erule (1) same_cmds_trans | simp add: same_cmds_def same_queues_def)+

section \<open>Every entry point keeps the stream\<close>

lemma streams_call:
  assumes "\<And>a l. q_items (sock_cmds s) ((c, a) # l) = q_items (sock_cmds s) l"
    and "\<And>a l. q_sent (sock_cmds s) ((c, a) # l) = q_sent (sock_cmds s) l"
    and "\<And>a l fd. fd_sent fd ((c, a) # l) = fd_sent fd l" "\<And>a l. tls_sent ((c, a) # l) = tls_sent l"
    and "\<And>a l. pushed ((c, a) # l) = pushed l"
  shows "streams s (emit env c s)"
  using assms
  by (intro streamsI [of _ _ "[]"])
    (simp_all add: keeps_conn_def accepted_def queued_def on_wire_def same_queues_def io_emit)

lemma streams_error: "streams s (raise_error env m s)"
proof (cases "sock_fd s = 0")
  case True
  then show ?thesis by (simp add: raise_error_def streams_refl)
next
  case False
  then show ?thesis
    by (intro streams_lost [of _ _ "(case m of None \<Rightarrow> [] | Some e \<Rightarrow> [(Ev_error, e)]) @ [(Ev_close, [])]"])
      (auto simp: raise_error_def push_error_def same_queues_def Let_def split: option.split)
qed

lemma streams_close: "streams s (jd_tcpsock_close env s)"
  by (intro streams_lost [of _ _ "[]"]) (simp_all add: same_queues_def)

text \<open>A command that is accepted goes to the end of the queue.\<close>

lemma streams_send:
  assumes "\<And>e m. x \<noteq> Sock_event e m"
  shows "streams s (emit env (Rtos (QSend (sock_cmds s) x n)) s)"
  using assms
  by (cases x; intro streamsI [where new = "if a_ret (query env (Rtos (QSend (sock_cmds s) x n)) s) = pdPASS
        then write_data x else []"])
    (auto simp: keeps_conn_def accepted_def queued_def on_wire_def same_queues_def io_emit query_def)

lemma streams_free: "streams s (jd_free env p s)"
  unfolding jd_free_def by (rule streams_call) simp_all

lemma streams_new: "streams s (snd (jd_tcpsock_new env h p s))"
proof -
  let ?s1 = "emit env (Net (Strdup h)) s"
  let ?s2 = "emit env (Rtos (QSend (sock_cmds ?s1) (Cmd_open (a_ptr (query env (Net (Strdup h)) s)) h p) 20)) ?s1"
  have "streams s ?s1" by (rule streams_call) simp_all
  also have "streams ?s1 ?s2" by (rule streams_send) simp
  finally have "streams s ?s2" .
  moreover from this have "streams s (jd_free env q ?s2)" for q by (rule streams_trans [OF _ streams_free])
  ultimately show ?thesis by (simp add: jd_tcpsock_new_def)
qed

lemma streams_write:
  assumes "jd_tcpsock_write env b s = Some (r, t)"
  shows "streams s t"
proof (cases "sock_fd s = 0")
  case True
  with assms show ?thesis by (simp add: jd_tcpsock_write_def streams_refl)
next
  case False
  let ?c = "Rtos (Calloc (unat (of_nat (length b) :: u32)))"
  let ?s1 = "emit env ?c s"
  let ?s2 = "emit env (Rtos (QSend (sock_cmds ?s1) (Cmd_write (a_ptr (query env ?c s)) b) 0)) ?s1"
  have "streams s ?s1" by (rule streams_call) simp_all
  also have "streams ?s1 ?s2" by (rule streams_send) simp
  finally have "streams s ?s2" .
  moreover from this have "streams s (jd_free env q ?s2)" for q by (rule streams_trans [OF _ streams_free])
  ultimately show ?thesis
    using assms False by (auto simp: jd_tcpsock_write_def jd_alloc_def Let_def split: if_splits)
qed

text \<open>What the worker relies on: descriptors and write counts as documented, a TLS layer that does not
  ask for a wait, and a queue.\<close>

definition stream_env :: "nat \<Rightarrow> env \<Rightarrow> queue \<Rightarrow> bool" where
  "stream_env out_len env q \<longleftrightarrow> sockets_positive env \<and> write_counts env \<and> tls_blocking env \<and>
     receives_stored env q \<and> out_len \<le> 2 ^ 31"

text \<open>Data taken out of the queue is on the wire afterwards, or the connection is gone.\<close>

lemma streams_taken:
  assumes s1: "same_queues s s1" "pushed (io s1) = pushed (io s)" "sock_fd s1 = sock_fd s" "is_tls s1 = is_tls s"
      "accepted s1 = accepted s" "on_wire s1 = on_wire s" "queued s = data @ queued s1"
    and cmds: "sock_cmds s1 \<noteq> sock_events s1" "same_cmds s1 t"
    and out: "write_outcome (if is_tls s1 then tls_sent else fd_sent (sock_fd s1)) err data s1 t"
  shows "streams s t"
proof -
  obtain k where k: "(if is_tls s1 then tls_sent else fd_sent (sock_fd s1)) (io t) = on_wire s @ take k data"
    and rest: "if k = length data then sock_inv t \<and> sock_fd t = sock_fd s1 \<and> is_connected t = is_connected s1 \<and>
        is_tls t = is_tls s1 \<and> pushed (io t) = pushed (io s1)
      else sock_closed t \<and> pushed (io t) = pushed (io s1) @ [(Ev_error, err), (Ev_close, [])]"
    using out s1(6) by (auto simp: write_outcome_def on_wire_def split: if_splits)
  have q: "same_queues s t" "accepted t = accepted s" "queued t = queued s1"
    using cmds s1(1,5) by (auto simp: same_cmds_def same_queues_def accepted_def queued_def)
  show ?thesis
  proof (cases "k = length data")
    case True
    with k rest q s1 show ?thesis
      by (intro streamsI [of _ _ "[]"]) (auto simp: keeps_conn_def on_wire_def split: if_splits)
  next
    case False
    with rest q s1 show ?thesis by (intro streams_lost) auto
  qed
qed

lemma streams_worker:
  assumes env: "stream_env out_len env (sock_cmds s)" and q: "sock_cmds s \<noteq> sock_events s" and inv: "sock_inv s"
    and run: "sock_worker_turn out_len env s = Some t"
  shows "streams s t"
proof -
  define s1 where "s1 = emit env (Rtos (QReceive (sock_cmds s) 20)) s"
  have same: "same_queues s s1" "pushed (io s1) = pushed (io s)" "sock_fd s1 = sock_fd s" "is_tls s1 = is_tls s"
      "accepted s1 = accepted s" "on_wire s1 = on_wire s" and inv1: "sock_inv s1"
    using inv by (simp_all add: s1_def same_queues_def accepted_def on_wire_def io_emit)
  have item: "a_item (query env (Rtos (QReceive (sock_cmds s) 20)) s) =
      (case q_items (sock_cmds s) (io s) of [] \<Rightarrow> None | x # _ \<Rightarrow> Some x)"
    using env by (simp add: stream_env_def receives_stored_def query_def)
  show ?thesis
  proof (cases "q_items (sock_cmds s) (io s)")
    case Nil
    then have "t = s1" using run item by (simp add: sock_worker_turn_def s1_def)
    moreover have "queued s1 = queued s"
      using Nil by (simp add: s1_def queued_def io_emit)
    ultimately show ?thesis
      using same by (intro streamsI [of _ _ "[]"]) (simp_all add: keeps_conn_def)
  next
    case (Cons x xs)
    then have rest: "queued s = write_data x @ queued s1"
      using item by (simp add: s1_def queued_def io_emit query_def)
    from Cons run item consider
        p h port where "x = Cmd_open p h port" "process_open env p h port s1 = Some t"
      | p d where "x = Cmd_write p d" "process_write out_len env p d s1 = Some t"
      by (auto simp: sock_worker_turn_def s1_def split: q_item.splits)
    then show ?thesis
    proof cases
      case 1
      have "sockets_positive env" using env by (simp add: stream_env_def)
      from process_open_result [OF 1(2) inv1 this] same_queues_trans [OF same(1) same_queues_open [OF 1(2)]] same(2)
      show ?thesis by (auto simp: open_failed_def sock_closed_def intro: streams_lost)
    next
      case 2
      have cmds: "sock_cmds s1 \<noteq> sock_events s1" "same_cmds s1 t"
        using q same(1) write_cmds.process_write_K [OF 2(2)] by (auto simp: same_queues_def)
      show ?thesis
      proof (cases "sock_fd s1 = 0 \<and> \<not> is_tls s1")
        case True
        with 2 have "t = jd_free env p s1" by (simp add: process_write_def)
        with True same show ?thesis by (intro streams_lost [of _ _ "[]"]) (simp_all add: same_queues_def)
      next
        case False
        have "\<exists>err. write_outcome (if is_tls s1 then tls_sent else fd_sent (sock_fd s1)) err d s1 t"
        proof (cases "is_tls s1")
          case True
          then have "length d < out_len"
            using 2(2) by (auto simp: process_write_def sock_mbedtls_write_def split: if_splits)
          with True 2(2) env inv1 process_write_tls [of env d out_len s1 p] show ?thesis
            by (auto simp: stream_env_def)
        next
          case plain: False
          with False 2(2) env inv1 process_write_plain [of env s1 out_len p d] show ?thesis
            by (auto simp: stream_env_def)
        qed
        with streams_taken [OF same _ cmds] rest 2(1) show ?thesis by auto
      qed
    qed
  qed
qed

definition stream_ok :: "nat \<Rightarrow> env \<Rightarrow> 'z sock_scheme \<Rightarrow> bool" where
  "stream_ok out_len env s \<longleftrightarrow>
     stream_env out_len env (sock_cmds s) \<and> sock_cmds s \<noteq> sock_events s \<and> sock_inv s"

lemma stream_ok_step: "stream_ok out_len env s \<Longrightarrow> streams s t \<Longrightarrow> sock_inv t \<Longrightarrow> stream_ok out_len env t"
  by (simp add: stream_ok_def streams_def same_queues_def)

interpretation stream_rel: sock_relation env
  "\<lambda>s t. stream_ok out_len env s \<longrightarrow> stream_ok out_len env t \<and> streams s t" out_len own
  for out_len env own
proof
  let ?K = "\<lambda>s t :: 'a sock_scheme. stream_ok out_len env s \<longrightarrow> stream_ok out_len env t \<and> streams s t"
  have K: "?K s t" if "streams s t" "sockets_positive env \<and> sock_inv s \<longrightarrow> sock_inv t" for s t
    using that stream_ok_step [of out_len env s t] by (auto simp: stream_ok_def stream_env_def)
  fix s t u :: "'a sock_scheme" and m h p b r
  show "?K s t \<Longrightarrow> ?K t u \<Longrightarrow> ?K s u" using streams_trans by blast
  show "?K s (emit env (Rtos (QReceive (sock_events s) 0)) s)"
  proof (cases "sock_events s = sock_cmds s")
    case False
    then have "streams s (emit env (Rtos (QReceive (sock_events s) 0)) s)" by (intro streams_call) simp_all
    then show ?thesis by (rule K) (simp add: inv_calls.K_event)
  qed (simp add: stream_ok_def)
  show "?K s (emit env (Net (SslRead 1024)) s)" by (intro K streams_call inv_calls.K_read_tls) simp_all
  show "?K s (emit env (Net (RecvFd (sock_fd s) 1024)) s)" by (intro K streams_call inv_calls.K_read) simp_all
  show "?K s (raise_error env m s)" by (intro K streams_error inv_calls.K_error)
  show "?K s (snd (jd_tcpsock_new env h p s))" by (intro K streams_new inv_calls.K_new)
  show "?K s t" if "jd_tcpsock_write env b s = Some (r, t)"
    using that by (intro K streams_write inv_calls.K_write)
  show "?K s (jd_tcpsock_close env s)" by (intro K streams_close inv_calls.call_close)
  show "?K s t" if run: "sock_worker_turn out_len env s = Some t"
  proof
    assume ok: "stream_ok out_len env s"
    then have "streams s t" using run by (auto simp: stream_ok_def intro: streams_worker)
    from K [OF this inv_calls.worker_turn_K [OF run]] ok show "stream_ok out_len env t \<and> streams s t" by simp
  qed
qed (simp add: streams_refl)

section \<open>Property\<close>


text \<open>A network that takes everything, with queues of 50 items.\<close>

definition stream_net :: env where
  "stream_net c l = (case c of
      Net n \<Rightarrow> net_env c l
    | Rtos (Calloc n) \<Rightarrow> ans0\<lparr>a_ptr := 0x3FFB0000\<rparr>
    | _ \<Rightarrow> queue_env 50 c l)"

lemma stream_net_ok: "stream_env 16384 stream_net q"
proof -
  have "tls_blocking stream_net"
    using net_env_tls by (simp add: tls_blocking_def stream_net_def)
  moreover have "sockets_positive stream_net" "write_counts stream_net"
    using net_env_ok by (simp_all add: sockets_positive_def write_counts_def stream_net_def)
  ultimately show ?thesis by (simp add: stream_env_def receives_stored_def stream_net_def ans0_def)
qed

lemma stream_net_run:
  "\<exists>r s1 t. jd_tcpsock_write stream_net [1, 2, 3] open_sock = Some (r, s1) \<and>
    sock_worker_turn 16384 stream_net s1 = Some t \<and> pushed (io t) = [] \<and> sock_fd t = 54 \<and>
    queued t = [] \<and> accepted t = [1, 2, 3]"
  by (simp add: jd_tcpsock_write_def jd_alloc_def sock_worker_turn_def process_write_def forced_write_def
      forced_write_from.simps jd_free_def open_sock_def boot_defs stream_net_def net_env_def query_def ans0_def
      pdPASS_def queued_def accepted_def io_emit Let_def)


end
