(* ===== verification/SockRace.thy ===== *)
theory SockRace
  imports SockTransfer
begin

text \<open>
  main/sock.c with preemption at the place where the worker sleeps in the middle of an open command: the
  wait for the TLS handshake. The other theories on sock.c take each operation as one step; this one
  shows what a close by the main task does there.
\<close>

section \<open>The rest of an open command\<close>

text \<open>What remains of \<open>process_open\<close> when the worker wakes up in the handshake loop.\<close>

definition resume_open :: "env \<Rightarrow> u32 \<Rightarrow> 'z sock_scheme \<Rightarrow> 'z sock_scheme option" where
  "resume_open env p s = do {
     (ret, s8) \<leftarrow> handshake_loop env s;
     let s1 = (if ret \<noteq> 0 then s8 else emit env (Net SslSetNonblock) s8);
     let s2 = jd_free env p s1;
     Some (if ret = 0 then push_event env Ev_open [] (s2\<lparr>is_connected := True\<rparr>) else s2)
   }"

text \<open>An iteration that has to wait goes on where it stopped.\<close>

lemma handshake_waits:
  assumes "needs_io (a_ret (query env (Net SslHandshake) s))"
  shows "resume_open env p s = resume_open env p (emit env (Rtos (TaskDelay 10)) (emit env (Net SslHandshake) s))"
proof -
  have "a_ret (query env (Net SslHandshake) s) \<noteq> 0" using assms by (auto simp: needs_io_def MBEDTLS_ERR_SSL_WANT_READ_def MBEDTLS_ERR_SSL_WANT_WRITE_def)
  with assms show ?thesis
    unfolding resume_open_def by (subst handshake_loop.simps) (simp add: Let_def)
qed

text \<open>A handshake on a closed connection: errors are dropped, because there is no descriptor.\<close>

definition gone :: "'z sock_scheme \<Rightarrow> 'z sock_scheme \<Rightarrow> bool" where
  "gone s t \<longleftrightarrow> sock_fd t = 0 \<and> \<not> is_tls t \<and> \<not> is_connected t \<and> pushed (io t) = pushed (io s)"

lemma handshake_gone:
  assumes "handshake_loop env s = Some x" "gone s0 s"
  shows "gone s0 (snd x)"
proof -
  have "gone s0 s \<longrightarrow> gone s0 (snd x)"
  proof (rule handshake_loop.raw_induct [where P = "\<lambda>env s x. gone s0 s \<longrightarrow> gone s0 (snd x)", OF _ assms(1)])
    fix f and env :: env and s :: "'a sock_scheme" and x
    assume IH: "\<And>env s x. f env s = Some x \<Longrightarrow> gone s0 s \<longrightarrow> gone s0 (snd x)"
      and eq: "(let (r, s1) = ext env (Net SslHandshake) s; ret = a_ret r in
        if ret = 0 then Some (0, s1)
        else if \<not> needs_io ret then Some (mbedtls_print_error_msg env ''mbedtls_ssl_handshake'' ret s1)
        else f env (emit env (Rtos (TaskDelay 10)) s1)) = Some x"
    show "gone s0 s \<longrightarrow> gone s0 (snd x)"
      using eq IH [of env "emit env (Rtos (TaskDelay 10)) (emit env (Net SslHandshake) s)" x]
      by (auto simp: gone_def mbedtls_print_error_msg_def raise_error_def Let_def split: if_splits)
  qed
  with assms(2) show ?thesis by blast
qed

lemma resume_gone:
  assumes "resume_open env p s = Some t" "gone s0 s"
  shows "sock_fd t = 0 \<and> \<not> is_tls t \<and>
    (is_connected t \<and> pushed (io t) = pushed (io s0) @ [(Ev_open, [])] \<or>
     \<not> is_connected t \<and> pushed (io t) = pushed (io s0))"
proof -
  obtain ret s8 where "handshake_loop env s = Some (ret, s8)"
    using assms(1) by (cases "handshake_loop env s") (auto simp: resume_open_def)
  with handshake_gone [OF this assms(2)] assms(1) show ?thesis
    by (auto simp: resume_open_def gone_def Let_def split: if_splits)
qed

section \<open>Property\<close>

text \<open>C31: when the client closes while the worker waits for the TLS handshake of an open command, every
  mbedTLS object that the worker goes on to use has been freed; whatever the rest of the command
  does, it leaves no descriptor and reports either nothing or OPEN; and if the next handshake call answers
  0 it reports OPEN and flags a connection that has no descriptor, which no sequence of whole
  operations can do (\<open>sock_inv\<close>).\<close>

theorem close_during_handshake:
  assumes "sock_inv s" "is_tls s" "\<not> is_connected s" "u = jd_tcpsock_close env s"
  shows "(\<forall>x. tls_live x (io s) = 1 \<and> tls_live x (io u) = 0) \<and>
    (\<forall>t. resume_open env p u = Some t \<longrightarrow> sock_fd t = 0 \<and>
      (is_connected t \<and> pushed (io t) = pushed (io s) @ [(Ev_open, [])] \<or>
       \<not> is_connected t \<and> pushed (io t) = pushed (io s))) \<and>
    (a_ret (query env (Net SslHandshake) u) = 0 \<longrightarrow>
      (\<exists>t. resume_open env p u = Some t \<and> is_connected t \<and> sock_fd t = 0 \<and> \<not> sock_inv t))"
proof -
  have closed: "sock_closed u" unfolding assms(4) by (rule jd_tcpsock_close_closes [OF assms(1)])
  then have "gone s u" by (simp add: gone_def sock_closed_def assms(4))
  note rest = resume_gone [OF _ this]
  have "\<forall>x. tls_live x (io s) = 1 \<and> tls_live x (io u) = 0"
    using closed assms(1,2) by (simp add: sock_closed_def sock_inv_def log_inv_def)
  moreover have "\<exists>t. resume_open env p u = Some t \<and> is_connected t \<and> sock_fd t = 0 \<and> \<not> sock_inv t"
    if "a_ret (query env (Net SslHandshake) u) = 0"
  proof -
    have "\<exists>t. resume_open env p u = Some t \<and> is_connected t"
      unfolding resume_open_def using that by (subst handshake_loop.simps) (simp add: Let_def)
    with rest show ?thesis by (auto simp: sock_inv_def)
  qed
  ultimately show ?thesis using rest by blast
qed

text \<open>A server that keeps the first handshake call waiting.\<close>

fun handshakes :: "io_log \<Rightarrow> nat" where
  "handshakes [] = 0"
| "handshakes ((Net SslHandshake, a) # l) = Suc (handshakes l)"
| "handshakes (_ # l) = handshakes l"

definition slow_env :: env where
  "slow_env c l = (case c of
      Net SslHandshake \<Rightarrow> if handshakes l = 0 then ans0\<lparr>a_ret := MBEDTLS_ERR_SSL_WANT_READ\<rparr> else ans0
    | _ \<Rightarrow> net_env c l)"

text \<open>The open command up to its wait in the handshake.\<close>

definition slow_start :: sock where
  "slow_start = emits slow_env [Net (SslSetHostname ''example''), Net SslConfigDefaults, Net SslConfAuthmode,
      Net CrtBundleAttach, Net CtrDrbgSeed, Net SslConfRng, Net SslSetup, Net (SslSetBio 54)]
    ((emits slow_env [Net (TlsInit Ssl), Net (TlsInit Ctr_drbg), Net (TlsInit Ssl_config), Net (TlsInit Entropy)]
      (emits slow_env [Net (PrintPort 443), Net (GetAddrInfo ''example'' []), Net (Socket 1), Net (Connect 54 1),
         Net FreeAddrInfo] boot_sock\<lparr>sock_fd := 54\<rparr>))\<lparr>is_tls := True, server_fd := 54\<rparr>)"

definition slow_wait :: sock where
  "slow_wait = emits slow_env [Net SslHandshake, Rtos (TaskDelay 10)] slow_start"

lemma handshakes_emit [simp]:
  "handshakes (io (emit env (Net n) s)) = (if n = SslHandshake then Suc (handshakes (io s)) else handshakes (io s))"
  "handshakes (io (emit env (Rtos r) s)) = handshakes (io s)"
  by (cases n; simp add: io_emit) (simp add: io_emit)

lemma slow_query:
  "query slow_env (Net n) s = (if n = SslHandshake \<and> handshakes (io s) = 0 then ans0\<lparr>a_ret := MBEDTLS_ERR_SSL_WANT_READ\<rparr>
     else net_env (Net n) (io s))"
  by (cases n) (simp_all add: query_def slow_env_def net_env_def)

lemma slow_boot: "jd_tcpsock_close slow_env boot_sock = boot_sock" "io boot_sock = []"
  by (simp_all add: jd_tcpsock_close_def boot_defs)

lemma resume_bind:
  "do { (r, s1) \<leftarrow> do { (ret, s8) \<leftarrow> handshake_loop env s;
          if ret \<noteq> 0 then Some (ret, s8) else Some (0, emit env (Net SslSetNonblock) s8) };
        let s2 = jd_free env p s1;
        Some (if r = 0 then push_event env Ev_open [] (s2\<lparr>is_connected := True\<rparr>) else s2) } = resume_open env p s"
  by (cases "handshake_loop env s") (auto simp: resume_open_def Let_def)

lemma slow_connects:
  "sock_create_and_connect slow_env ''example'' (- 443) boot_sock =
     do { (ret, s8) \<leftarrow> handshake_loop slow_env slow_start;
          if ret \<noteq> 0 then Some (ret, s8) else Some (0, emit slow_env (Net SslSetNonblock) s8) }"
  by (simp add: sock_create_and_connect_def tls_start_def tls_call_def slow_query net_env_def ans0_def emits_Cons
      slow_start_def Let_def)

lemma slow_open: "process_open slow_env 9 ''example'' (- 443) boot_sock = resume_open slow_env 9 slow_wait"
proof -
  have "process_open slow_env 9 ''example'' (- 443) boot_sock = resume_open slow_env 9 slow_start"
    unfolding process_open_def slow_boot slow_connects by (rule resume_bind)
  also have "\<dots> = resume_open slow_env 9 slow_wait"
    unfolding slow_wait_def emits_Cons emits_Nil
    by (rule handshake_waits) (simp add: needs_io_def slow_query slow_start_def emits_Cons slow_boot)
  finally show ?thesis .
qed

lemma slow_socket: "log_inv [] n (io s) \<Longrightarrow> log_inv [54] n (io (emit slow_env (Net (Socket a)) s))"
  by (simp add: log_inv_def io_emit slow_env_def net_env_def)

lemma slow_wait_state:
  "sock_inv slow_wait" "is_tls slow_wait" "\<not> is_connected slow_wait" "handshakes (io slow_wait) = 1"
proof -
  let ?s1 = "emits slow_env [Net (PrintPort 443), Net (GetAddrInfo ''example'' []), Net (Socket 1),
      Net (Connect 54 1), Net FreeAddrInfo] boot_sock\<lparr>sock_fd := 54\<rparr>"
  have "log_inv [] 0 (io boot_sock)" by (simp add: slow_boot log_inv_def)
  then have "log_inv [54] 0 (io ?s1)" by (simp add: emits_Cons slow_socket)
  note log_inv_init_tls [OF this, of slow_env]
  then show "sock_inv slow_wait"
    by (simp add: slow_wait_def slow_start_def emits_Cons sock_inv_def)
qed (simp_all add: slow_wait_def slow_start_def emits_Cons slow_boot, simp add: boot_defs)

theorem close_during_handshake_witness:
  "\<exists>t. process_open slow_env 9 ''example'' (- 443) boot_sock = resume_open slow_env 9 slow_wait \<and>
    resume_open slow_env 9 (jd_tcpsock_close slow_env slow_wait) = Some t \<and> is_connected t \<and> sock_fd t = 0"
proof -
  have "handshakes (io (jd_tcpsock_close slow_env slow_wait)) = handshakes (io slow_wait)"
    by (simp add: jd_tcpsock_close_def emits_Cons Let_def)
  then have "a_ret (query slow_env (Net SslHandshake) (jd_tcpsock_close slow_env slow_wait)) = 0"
    using slow_wait_state(4) by (simp add: slow_query net_env_def ans0_def)
  with close_during_handshake [OF slow_wait_state(1-3) refl, of slow_env 9] slow_open show ?thesis by blast
qed

end
