(* ===== verification/Drivers.thy ===== *)
theory Drivers
  imports JdTimers
begin

text \<open>
  The contract that the SPI driver and the LED strip driver share: one transfer at a time,
  reported to the client by a callback after the driver is free again.
\<close>

section \<open>One transfer at a time\<close>

text \<open>\<open>send\<close> starts a transfer, \<open>finish\<close> is the job that ends one and calls the client.\<close>

locale busy_driver =
  fixes busy :: "'s \<Rightarrow> bool"
    and send :: "'r \<Rightarrow> 's \<Rightarrow> (int \<times> 's) option"
    and finish :: "('s \<Rightarrow> 's option) \<Rightarrow> 's \<Rightarrow> 's option"
  assumes send_rejected: "busy s \<Longrightarrow> send r s = Some (e, t) \<Longrightarrow> e \<noteq> 0 \<and> t = s"
    and finish_free: "finish cb s = Some t \<Longrightarrow> \<exists>u. \<not> busy u \<and> cb u = Some t"
begin

text \<open>Clients that try to send while the driver is busy.\<close>

fun attempts :: "'r list \<Rightarrow> 's \<Rightarrow> 's option" where
  "attempts [] s = Some s"
| "attempts (r # rs) s = do { (e, t) \<leftarrow> send r s; attempts rs t }"

lemma attempts_rejected: "busy s \<Longrightarrow> attempts rs s = Some t \<Longrightarrow> t = s"
  by (induction rs arbitrary: s) (auto dest: send_rejected)

text \<open>They do not disturb the transfer: its callback runs as if they had not tried, and the
  client finds the driver free.\<close>

lemma attempts_harmless:
  assumes "busy s" "attempts rs s = Some s'" "finish cb s' = Some t"
  shows "finish cb s = Some t \<and> (\<exists>u. \<not> busy u \<and> cb u = Some t)"
  using attempts_rejected [OF assms(1,2)] assms(3) finish_free by blast

end

section \<open>Posting a job changes the history only\<close>

lemma tim_worker_run_io: "\<exists>l. snd (tim_worker_run env f a s) = s\<lparr>io := l\<rparr>"
proof -
  have e: "\<exists>l. emit env c s = s\<lparr>io := l\<rparr>" for c and s :: "'a jacdac_scheme"
    by (auto simp: emit_def)
  have "\<exists>l. emit env c2 (emit env c1 s) = s\<lparr>io := l\<rparr>" for c1 c2 and s :: "'a jacdac_scheme"
    by (auto simp: emit_def)
  then have "\<exists>l. emit env c3 (emit env c2 (emit env c1 s)) = s\<lparr>io := l\<rparr>"
    for c1 c2 c3 and s :: "'a jacdac_scheme"
    by (auto simp: emit_def)
  with e show ?thesis
    by (simp add: tim_worker_run_def worker_run_def emits_Cons Let_def)
qed

text \<open>A post to a full queue.\<close>

lemma tim_worker_run_full:
  assumes "rtos_queue env (w_queue (wheap s (tim_worker s))) 20" "length (tim_jobs s) = 20"
  shows "fst (tim_worker_run env f a s) = -1"
    and "tim_jobs (snd (tim_worker_run env f a s)) = tim_jobs s"
proof -
  have "a_ret (query env (Rtos (QSendFromISR (w_queue (wheap s (tim_worker s))) (Job f a))) s) \<noteq> pdPASS"
    using rtos_queue_send_ISR [OF assms(1)] assms(2) by (simp add: query_def tim_jobs_def jobs_of_def)
  then show r: "fst (tim_worker_run env f a s) = -1"
    by (simp add: tim_worker_run_fst worker_run_def)
  show "tim_jobs (snd (tim_worker_run env f a s)) = tim_jobs s"
    by (rule tim_q.post_full) (simp add: r)
qed

text \<open>A post in general.\<close>

lemma tim_worker_run_bounded:
  assumes "rtos_queue env (w_queue (wheap s (tim_worker s))) 20"
  shows "tim_jobs (snd (tim_worker_run env f a s))
    = tim_jobs s @ (if length (tim_jobs s) < 20 then [Job f a] else [])"
proof -
  have "a_ret (query env (Rtos (QSendFromISR (w_queue (wheap s (tim_worker s))) (Job f a))) s) = pdPASS
      \<longleftrightarrow> length (tim_jobs s) < 20"
    using rtos_queue_send_ISR [OF assms] by (simp add: query_def tim_jobs_def jobs_of_def)
  then have "fst (tim_worker_run env f a s) = (if length (tim_jobs s) < 20 then 0 else -1)"
    by (simp add: tim_worker_run_fst worker_run_def)
  then show ?thesis using tim_q.post_jobs [of env f a s] by simp
qed

lemma tim_worker_run_room:
  assumes "rtos_queue env (w_queue (wheap s (tim_worker s))) 20" "length (tim_jobs s) < 20"
  shows "tim_jobs (snd (tim_worker_run env f a s)) = tim_jobs s @ [Job f a]"
  using tim_worker_run_bounded [OF assms(1), of f a] assms(2) by simp

section \<open>Clients that are called back\<close>

text \<open>The functions outside the repository that were called so far, oldest first.\<close>

fun called :: "io_log \<Rightarrow> fn list" where
  "called [] = []"
| "called ((Rtos (Call_fn f a), r) # l) = called l @ [f]"
| "called (_ # l) = called l"

lemma called_post [simp]: "called (io (snd (tim_worker_run env f a s))) = called (io s)"
  by (simp add: tim_worker_run_def worker_run_def emits_Cons io_emit Let_def)

lemma called_drv [simp]: "called (io (emit env (Drv c) s)) = called (io s)"
  by (simp add: io_emit)

lemma tim_jobs_emit [simp]:
  "tim_jobs (emit env (Rtos (Call_fn f a)) s) = tim_jobs s" "tim_jobs (emit env (Drv c) s) = tim_jobs s"
  by (simp_all add: tim_jobs_def jobs_of_def io_emit)

text \<open>A job that runs a given function.\<close>

fun runs :: "fn \<Rightarrow> q_item \<Rightarrow> bool" where
  "runs g (Job f a) = (f = g)"
| "runs g _ = False"

text \<open>Taking the oldest job out of the queue.\<close>

lemma take_oldest:
  assumes "rtos_queue env (w_queue (wheap s (tim_worker s))) 20" "tim_jobs s = j # js"
  shows "tim_jobs (ask_queue env (tim_worker s) s) = js"
    and "called (io (ask_queue env (tim_worker s) s)) = called (io s)"
    and "wheap (ask_queue env (tim_worker s) s) = wheap s" "tim_worker (ask_queue env (tim_worker s) s) = tim_worker s"
  using ask_queue_Cons(2) [of env s "tim_worker s" 20 j js] assms
  by (simp_all add: tim_jobs_def) (simp_all add: ask_queue_def io_emit)

end
