(* ===== verification/Spi.thy ===== *)
theory Spi
  imports Drivers
begin

text \<open>
  main/spi.c: the SPI master. Short transfers are polled, longer ones are queued with the
  driver, whose completion callback runs in an interrupt and posts the rest of the work to
  the job queue of the timer task.
\<close>

section \<open>State\<close>

text \<open>The statics of spi.c. \<open>spi_h\<close> is the device handle \<open>spi\<close>; \<open>trans_at\<close> is the address of
  \<open>trans\<close>.\<close>

record spi = jacdac +
  spi_h :: u32
  trans_at :: u32
  trans :: spi_trans
  spi_in_use :: bool

definition BLOCK_SIZE :: nat where
  "BLOCK_SIZE = 4096"

section \<open>Operations\<close>

definition mappin :: "u8 \<Rightarrow> int" where
  "mappin pin = (if pin = NO_PIN then -1 else int (unat pin))"

text \<open>The job that the completion callback posts. A pointer other than \<open>&trans\<close> is not a
  transaction of this program.\<close>

definition jd_spi_done_cb_outside_isr ::
    "'z spi_scheme exec \<Rightarrow> env \<Rightarrow> u32 \<Rightarrow> 'z spi_scheme \<Rightarrow> 'z spi_scheme option" where
  "jd_spi_done_cb_outside_isr exec env tp s = do {
     jd_assert (spi_in_use s);
     let (r, s1) = ext env (Drv (SpiGetTransResult (spi_h s))) s;
     jd_assert (a_ret r = 0);
     jd_assert (a_ptr r = tp);
     jd_assert (tp = trans_at s1);
     let cb = t_user (trans s1);
     let s2 = s1\<lparr>spi_in_use := False\<rparr>;
     exec cb Arg_null s2
   }"

definition jd_spi_done_cb :: "env \<Rightarrow> u32 \<Rightarrow> 'z spi_scheme \<Rightarrow> 'z spi_scheme option" where
  "jd_spi_done_cb env tp s = do {
     jd_assert (tp = trans_at s);
     if t_user (trans s) = Fn_null then Some s
     else do {
       jd_assert (spi_in_use s);
       Some (snd (tim_worker_run env Fn_jd_spi_done_cb_outside_isr (Arg_ptr tp) s))
     }
   }"

text \<open>\<open>jd_spi_cfg_t\<close>: the three pins, the clock and the mode.\<close>

record jd_spi_cfg =
  cfg_miso :: u8
  cfg_mosi :: u8
  cfg_sck :: u8
  cfg_hz :: u32
  cfg_mode :: u8

definition jd_spi_init :: "env \<Rightarrow> jd_spi_cfg \<Rightarrow> 'z spi_scheme \<Rightarrow> int \<times> 'z spi_scheme" where
  "jd_spi_init env cfg s =
     (if spi_in_use s then (-100, s)
      else
        let s1 = (if spi_h s \<noteq> 0 then
                    let t1 = emit env (Drv (SpiBusRemoveDevice (spi_h s))) s;
                        t2 = t1\<lparr>spi_h := 0\<rparr>
                    in emit env (Drv SpiBusFree) t2
                  else s);
            (r, s2) = ext env (Drv (SpiBusInitialize (mappin (cfg_miso cfg)) (mappin (cfg_mosi cfg))
                                      (mappin (cfg_sck cfg)) BLOCK_SIZE)) s1
        in if a_ret r \<noteq> 0 then (a_ret r, s2)
           else
             let (r, s3) = ext env (Drv (SpiBusAddDevice (unat (cfg_hz cfg)) (unat (cfg_mode cfg)))) s2
             in if a_ret r \<noteq> 0 then (a_ret r, emit env (Drv SpiBusFree) (s3\<lparr>spi_h := 0\<rparr>))
                else (0, s3\<lparr>spi_h := a_ptr r\<rparr>))"

definition jd_spi_is_ready :: "'z spi_scheme \<Rightarrow> bool" where
  "jd_spi_is_ready s \<longleftrightarrow> spi_h s \<noteq> 0 \<and> \<not> spi_in_use s"

definition jd_spi_max_block_size :: nat where
  "jd_spi_max_block_size = BLOCK_SIZE"

definition call_fn :: "(fn \<Rightarrow> fn_arg \<Rightarrow> 's \<Rightarrow> 's option) \<Rightarrow> fn \<Rightarrow> 's \<Rightarrow> 's option" where
  "call_fn exec f s = (if f \<noteq> Fn_null then exec f Arg_null s else Some s)"

text \<open>The label \<open>sync_ok\<close>.\<close>

definition sync_ok :: "env \<Rightarrow> fn \<Rightarrow> 'z spi_scheme \<Rightarrow> int \<times> 'z spi_scheme" where
  "sync_ok env done_fn s = (0, snd (tim_worker_run env Fn_call_fn (Arg_fn done_fn) s))"

definition jd_spi_xfer ::
    "env \<Rightarrow> u32 \<Rightarrow> u32 \<Rightarrow> u32 \<Rightarrow> fn \<Rightarrow> 'z spi_scheme \<Rightarrow> (int \<times> 'z spi_scheme) option" where
  "jd_spi_xfer env txdata rxdata numbytes done_fn s = do {
     jd_assert (done_fn \<noteq> Fn_null);
     if \<not> jd_spi_is_ready s then Some (-1, s)
     else if unat numbytes > BLOCK_SIZE then Some (-2, s)
     else if numbytes = 0 then Some (sync_ok env done_fn s)
     else do {
       jd_assert (txdata \<noteq> 0 \<or> rxdata \<noteq> 0);
       let s1 = s\<lparr>trans := \<lparr>t_length = 8 * numbytes, t_tx = txdata, t_rx = rxdata, t_user = done_fn\<rparr>\<rparr>;
       if unat numbytes \<le> 4 then
         let s2 = s1\<lparr>trans := (trans s1)\<lparr>t_user := Fn_null\<rparr>\<rparr>;
             (ret, s3) = ext env (Drv (SpiPollingTransmit (spi_h s2) (trans s2))) s2
         in if a_ret ret = 0 then Some (sync_ok env done_fn s3) else Some (a_ret ret, s3)
       else
         let s2 = s1\<lparr>spi_in_use := True\<rparr>;
             (ret, s3) = ext env (Drv (SpiQueueTrans (spi_h s2) (trans s2))) s2;
             s4 = (if a_ret ret \<noteq> 0 then s3\<lparr>spi_in_use := False\<rparr> else s3)
         in Some (a_ret ret, s4)
     }
   }"

section \<open>What the operations leave alone\<close>

lemma spi_emit [simp]:
  "spi_h (emit env c s) = spi_h s" "trans_at (emit env c s) = trans_at s"
  "trans (emit env c s) = trans s" "spi_in_use (emit env c s) = spi_in_use s"
  by (simp_all add: emit_def)

lemma spi_post [simp]:
  "spi_h (snd (tim_worker_run env f a s)) = spi_h s"
  "trans_at (snd (tim_worker_run env f a s)) = trans_at s"
  "trans (snd (tim_worker_run env f a s)) = trans s"
  "spi_in_use (snd (tim_worker_run env f a s)) = spi_in_use s"
  using tim_worker_run_io [of env f a s] by auto

lemma tim_jobs_upd [simp]:
  "tim_jobs (s\<lparr>spi_in_use := b\<rparr>) = tim_jobs s" "tim_jobs (s\<lparr>trans := t\<rparr>) = tim_jobs s"
  by (simp_all add: tim_jobs_def jobs_of_def)

section \<open>The driver keeps the contract\<close>

text \<open>A transfer request: the two buffers, the length and the callback.\<close>

definition spi_send ::
    "env \<Rightarrow> u32 \<times> u32 \<times> u32 \<times> fn \<Rightarrow> 'z spi_scheme \<Rightarrow> (int \<times> 'z spi_scheme) option" where
  "spi_send env = (\<lambda>(tx, rx, n, f). jd_spi_xfer env tx rx n f)"

definition spi_finish ::
    "env \<Rightarrow> u32 \<Rightarrow> ('z spi_scheme \<Rightarrow> 'z spi_scheme option) \<Rightarrow> 'z spi_scheme \<Rightarrow> 'z spi_scheme option" where
  "spi_finish env tp cb = jd_spi_done_cb_outside_isr (\<lambda>_ _. cb) env tp"

interpretation spi_drv: busy_driver spi_in_use "spi_send env" "spi_finish env tp" for env tp
proof
  fix s :: "'a spi_scheme" and r e t cb
  show "spi_in_use s \<Longrightarrow> spi_send env r s = Some (e, t) \<Longrightarrow> e \<noteq> 0 \<and> t = s"
    by (auto simp: spi_send_def jd_spi_xfer_def jd_spi_is_ready_def split: prod.splits if_splits)
  assume "spi_finish env tp cb s = Some t"
  then show "\<exists>u. \<not> spi_in_use u \<and> cb u = Some t"
    by (intro exI [of _ "(emit env (Drv (SpiGetTransResult (spi_h s))) s)\<lparr>spi_in_use := False\<rparr>"])
      (simp add: spi_finish_def jd_spi_done_cb_outside_isr_def split: if_splits)
qed

section \<open>Properties\<close>

text \<open>A transfer request with a callback and a buffer always returns. Success means that the bus
  was ready and the length allowed, and leaves the bus busy exactly for the queued lengths
  (above 4 bytes); an error leaves the bus as busy as before and posts no job.\<close>

theorem jd_spi_xfer_result:
  assumes "done_fn \<noteq> Fn_null" "txdata \<noteq> 0 \<or> rxdata \<noteq> 0"
  shows "\<exists>r t. jd_spi_xfer env txdata rxdata n done_fn s = Some (r, t) \<and>
    (r = 0 \<longrightarrow> jd_spi_is_ready s \<and> unat n \<le> jd_spi_max_block_size \<and> (spi_in_use t \<longleftrightarrow> 4 < unat n)) \<and>
    (r \<noteq> 0 \<longrightarrow> spi_in_use t = spi_in_use s \<and> tim_jobs t = tim_jobs s) \<and> spi_h t = spi_h s"
proof (cases "jd_spi_is_ready s \<and> unat n \<le> BLOCK_SIZE \<and> n \<noteq> 0")
  case False
  then show ?thesis using assms
    by (auto simp: jd_spi_xfer_def sync_ok_def jd_spi_max_block_size_def jd_spi_is_ready_def)
next
  case True
  then show ?thesis using assms
    by (cases "unat n \<le> 4")
      (auto simp: jd_spi_xfer_def sync_ok_def jd_spi_max_block_size_def jd_spi_is_ready_def Let_def)
qed

definition boot_spi :: spi where [boot_defs]:
  "boot_spi = jacdac.extend boot_jacdac
     (spi.fields 5 0x3000 \<lparr>t_length = 0, t_tx = 0, t_rx = 0, t_user = Fn_null\<rparr> False)"

declare spi.defs [boot_defs]

theorem jd_spi_xfer_result_witness:
  "\<exists>r t. jd_spi_xfer (queue_env 20) 0x1000 0 64 (Fn_ext 1) boot_spi = Some (r, t) \<and> spi_h t = 5"
  using jd_spi_xfer_result [of "Fn_ext 1" "0x1000" 0 "queue_env 20" 64 boot_spi]
  by (auto simp: boot_defs)

text \<open>The completion interrupt of a queued transfer posts exactly one job.\<close>

lemma jd_spi_done_cb_posts:
  assumes "spi_in_use s" "t_user (trans s) \<noteq> Fn_null"
    and "fst (tim_worker_run env Fn_jd_spi_done_cb_outside_isr (Arg_ptr (trans_at s)) s) = 0"
  shows "\<exists>u. jd_spi_done_cb env (trans_at s) s = Some u \<and> spi_in_use u \<and> trans u = trans s \<and>
    trans_at u = trans_at s \<and>
    tim_jobs u = tim_jobs s @ [Job Fn_jd_spi_done_cb_outside_isr (Arg_ptr (trans_at s))]"
  using assms tim_q.post_ok [OF assms(3)] by (simp add: jd_spi_done_cb_def)

text \<open>A transfer that was accepted and is longer than 4 bytes keeps the bus busy, so that no
  other request disturbs it; its completion interrupt posts one job as long as the job queue
  takes it; and that job calls the callback of the request once, with the bus free again.\<close>

theorem spi_transfer_completes:
  assumes "jd_spi_xfer env txdata rxdata n done_fn s = Some (0, t)" "4 < unat n"
    and "fst (tim_worker_run env Fn_jd_spi_done_cb_outside_isr (Arg_ptr (trans_at t)) t) = 0"
  shows "(\<forall>tx rx m f e t'. jd_spi_xfer env tx rx m f t = Some (e, t') \<longrightarrow> e \<noteq> 0 \<and> t' = t) \<and>
    (\<exists>u. jd_spi_done_cb env (trans_at t) t = Some u \<and>
       tim_jobs u = tim_jobs t @ [Job Fn_jd_spi_done_cb_outside_isr (Arg_ptr (trans_at t))] \<and>
       (a_ret (query env (Drv (SpiGetTransResult (spi_h u))) u) = 0 \<and>
          a_ptr (query env (Drv (SpiGetTransResult (spi_h u))) u) = trans_at t \<longrightarrow>
        (\<exists>v. jd_spi_done_cb_outside_isr exec env (trans_at t) u = exec done_fn Arg_null v \<and>
           \<not> spi_in_use v)))"
proof -
  have t: "spi_in_use t" "t_user (trans t) = done_fn" "done_fn \<noteq> Fn_null"
    using assms(1,2) by (auto simp: jd_spi_xfer_def sync_ok_def Let_def split: if_splits)
  obtain u where u: "jd_spi_done_cb env (trans_at t) t = Some u" "spi_in_use u" "trans u = trans t"
      "trans_at u = trans_at t"
      "tim_jobs u = tim_jobs t @ [Job Fn_jd_spi_done_cb_outside_isr (Arg_ptr (trans_at t))]"
    using jd_spi_done_cb_posts [OF t(1) _ assms(3)] t(2,3) by auto
  let ?v = "(emit env (Drv (SpiGetTransResult (spi_h u))) u)\<lparr>spi_in_use := False\<rparr>"
  have "jd_spi_done_cb_outside_isr exec env (trans_at t) u = exec done_fn Arg_null ?v"
    if "a_ret (query env (Drv (SpiGetTransResult (spi_h u))) u) = 0 \<and>
      a_ptr (query env (Drv (SpiGetTransResult (spi_h u))) u) = trans_at t"
    using that u t(2) by (simp add: jd_spi_done_cb_outside_isr_def)
  moreover have "e \<noteq> 0 \<and> t' = t" if "jd_spi_xfer env tx rx m f t = Some (e, t')" for tx rx m f e t'
    using spi_drv.send_rejected [OF t(1), of env "(tx, rx, m, f)"] that by (simp add: spi_send_def)
  ultimately show ?thesis using u(1,5) by (auto intro!: exI [of _ ?v])
qed

theorem spi_transfer_completes_witness:
  "\<exists>t u. jd_spi_xfer (queue_env 20) 0x1000 0 64 (Fn_ext 1) boot_spi = Some (0, t) \<and>
    jd_spi_done_cb (queue_env 20) (trans_at t) t = Some u \<and> length (tim_jobs u) = 1"
proof -
  have x: "\<exists>t. jd_spi_xfer (queue_env 20) 0x1000 0 64 (Fn_ext 1) boot_spi = Some (0, t) \<and>
      tim_jobs t = [] \<and> fst (tim_worker_run (queue_env 20) Fn_jd_spi_done_cb_outside_isr (Arg_ptr (trans_at t)) t) = 0"
    by (simp add: jd_spi_xfer_def jd_spi_is_ready_def boot_defs BLOCK_SIZE_def query_def ans0_def Let_def
        tim_jobs_def jobs_of_def io_emit tim_worker_run_fst worker_run_def pdPASS_def)
  then obtain t where t: "jd_spi_xfer (queue_env 20) 0x1000 0 64 (Fn_ext 1) boot_spi = Some (0, t)"
      "tim_jobs t = []" "fst (tim_worker_run (queue_env 20) Fn_jd_spi_done_cb_outside_isr (Arg_ptr (trans_at t)) t) = 0"
    by blast
  from spi_transfer_completes [OF t(1) _ t(3), of "\<lambda>_ _. Some"] t(1,2) show ?thesis by auto
qed


fun fill_jobs :: "nat \<Rightarrow> env \<Rightarrow> 'z jacdac_scheme \<Rightarrow> 'z jacdac_scheme" where
  "fill_jobs 0 env s = s"
| "fill_jobs (Suc n) env s = snd (tim_worker_run env (Fn_ext 7) Arg_null (fill_jobs n env s))"

lemma fill_jobs_queue:
  "\<exists>l. fill_jobs n env s = s\<lparr>io := l\<rparr>"
proof (induction n)
  case (Suc n)
  then obtain l where "fill_jobs n env s = s\<lparr>io := l\<rparr>" by blast
  with tim_worker_run_io [of env "Fn_ext 7" Arg_null "fill_jobs n env s"] show ?case by auto
qed (auto intro: exI [of _ "io s"])

lemma fill_jobs_length:
  assumes "tim_jobs s = []" "n \<le> 20"
  shows "length (tim_jobs (fill_jobs n (queue_env 20) s)) = n"
  using assms(2)
proof (induction n)
  case 0
  then show ?case by (simp add: assms(1))
next
  case (Suc n)
  let ?s = "fill_jobs n (queue_env 20) s"
  have "length (tim_jobs ?s) = n" using Suc by simp
  then have "fst (tim_worker_run (queue_env 20) (Fn_ext 7) Arg_null ?s) = 0"
    using Suc.prems by (simp add: tim_worker_run_fst worker_run_def query_def tim_jobs_def jobs_of_def)
  with tim_q.post_jobs [of "queue_env 20" "Fn_ext 7" Arg_null ?s] Suc show ?case by simp
qed

definition stuck_spi :: spi where
  "stuck_spi = fill_jobs 20 (queue_env 20) (boot_spi\<lparr>spi_in_use := True,
     trans := \<lparr>t_length = 512, t_tx = 0x1000, t_rx = 0, t_user = Fn_ext 1\<rparr>\<rparr>)"


end
