(* ===== verification/SpiBus.thy ===== *)
theory SpiBus
  imports Spi
begin

text \<open>
  The SPI driver of main/spi.c in its surroundings: clients, the completion interrupt, the job queue
  of the timer task and the other jobs in it, as one state machine; every accepted transfer is
  reported to its client exactly once, in the order of acceptance, and no assertion can fail.
\<close>

section \<open>The machine\<close>

text \<open>A job of the timer task, as far as this driver is concerned. Calling a client leaves a mark in the
  history; what the client then does, and what the other jobs do, are further steps.\<close>

definition spi_job :: "env \<Rightarrow> fn \<Rightarrow> fn_arg \<Rightarrow> 'z spi_scheme \<Rightarrow> 'z spi_scheme option" where
  "spi_job env f a s = (case (f, a) of
      (Fn_jd_spi_done_cb_outside_isr, Arg_ptr tp) \<Rightarrow> jd_spi_done_cb_outside_isr (log_exec env) env tp s
    | (Fn_call_fn, Arg_fn g) \<Rightarrow> call_fn (log_exec env) g s
    | _ \<Rightarrow> Some s)"

text \<open>Transfers handed to the hardware so far.\<close>

fun trans_queued :: "io_log \<Rightarrow> nat" where
  "trans_queued [] = 0"
| "trans_queued ((Drv (SpiQueueTrans h x), r) # l) = (if a_ret r = 0 then Suc (trans_queued l) else trans_queued l)"
| "trans_queued (_ # l) = trans_queued l"

text \<open>A state of the machine: whether the hardware is at work, the callbacks of the transfers accepted
  so far, and the state of the driver. Jobs are posted while the queue has room;
  \<open>spi_completion_lost\<close> says what happens otherwise.\<close>

inductive spi_step ::
    "env \<Rightarrow> bool \<times> fn list \<times> 'z spi_scheme \<Rightarrow> bool \<times> fn list \<times> 'z spi_scheme \<Rightarrow> bool"
  for env :: env where
  request: "jd_spi_xfer env tx rx n f s = Some (r, t) \<Longrightarrow> length (tim_jobs s) < 20 \<Longrightarrow>
    spi_step env (hw, acc, s)
      (hw \<or> trans_queued (io t) \<noteq> trans_queued (io s), acc @ (if r = 0 then [f] else []), t)"
| interrupt: "jd_spi_done_cb env (trans_at s) s = Some t \<Longrightarrow> length (tim_jobs s) < 20 \<Longrightarrow>
    spi_step env (True, acc, s) (False, acc, t)"
| job: "tim_jobs s = Job f a # js \<Longrightarrow> spi_job env f a (ask_queue env (tim_worker s) s) = Some t \<Longrightarrow>
    spi_step env (hw, acc, s) (hw, acc, t)"
| init: "spi_step env (hw, acc, s) (hw, acc, snd (jd_spi_init env cfg s))"
| other_job: "f \<noteq> Fn_jd_spi_done_cb_outside_isr \<Longrightarrow> f \<noteq> Fn_call_fn \<Longrightarrow> length (tim_jobs s) < 20 \<Longrightarrow>
    spi_step env (hw, acc, s) (hw, acc, snd (tim_worker_run env f a s))"

section \<open>The invariant\<close>

text \<open>The callbacks that a job, and the whole state, still have to make.\<close>

fun job_callbacks :: "fn \<Rightarrow> q_item \<Rightarrow> fn list" where
  "job_callbacks u (Job f a) = (case (f, a) of
      (Fn_jd_spi_done_cb_outside_isr, _) \<Rightarrow> [u]
    | (Fn_call_fn, Arg_fn g) \<Rightarrow> (if g = Fn_null then [] else [g])
    | _ \<Rightarrow> [])"
| "job_callbacks u _ = []"

definition spi_pending :: "bool \<Rightarrow> 'z spi_scheme \<Rightarrow> fn list" where
  "spi_pending hw s = concat (map (job_callbacks (t_user (trans s))) (tim_jobs s)) @
     (if hw then [t_user (trans s)] else [])"

abbreviation done_job :: "q_item \<Rightarrow> bool" where
  "done_job \<equiv> runs Fn_jd_spi_done_cb_outside_isr"

text \<open>The bus is in use exactly while one transfer is with the hardware or its completion job waits.\<close>

definition spi_inv :: "bool \<Rightarrow> 'z spi_scheme \<Rightarrow> bool" where
  "spi_inv hw s \<longleftrightarrow>
     (spi_in_use s \<longrightarrow> t_user (trans s) \<noteq> Fn_null) \<and>
     filter done_job (tim_jobs s) = (if spi_in_use s \<and> \<not> hw
       then [Job Fn_jd_spi_done_cb_outside_isr (Arg_ptr (trans_at s))] else []) \<and>
     (hw \<longrightarrow> spi_in_use s)"

text \<open>What the driver relies on: the queue of the timer task, and ESP-IDF handing back the transaction
  that has completed.\<close>

definition spi_env :: "env \<Rightarrow> 'z spi_scheme \<Rightarrow> bool" where
  "spi_env env s \<longleftrightarrow> rtos_queue env (w_queue (wheap s (tim_worker s))) 20 \<and>
     (\<forall>h l. a_ret (env (Drv (SpiGetTransResult h)) l) = 0 \<and> a_ptr (env (Drv (SpiGetTransResult h)) l) = trans_at s)"

text \<open>What the parts of a state that the operations do not touch have in common.\<close>

definition same_site :: "'z spi_scheme \<Rightarrow> 'z spi_scheme \<Rightarrow> bool" where
  "same_site s t \<longleftrightarrow> wheap t = wheap s \<and> tim_worker t = tim_worker s \<and> trans_at t = trans_at s"

lemma spi_env_site: "spi_env env s \<Longrightarrow> same_site s t \<Longrightarrow> spi_env env t"
  by (simp add: spi_env_def same_site_def)

lemma queued_post [simp]: "trans_queued (io (snd (tim_worker_run env f a s))) = trans_queued (io s)"
  by (simp add: tim_worker_run_def worker_run_def emits_Cons io_emit Let_def)

lemma post_room:
  "spi_env env s \<Longrightarrow> length (tim_jobs s) < 20 \<Longrightarrow> tim_jobs (snd (tim_worker_run env f a s)) = tim_jobs s @ [Job f a]"
  by (rule tim_worker_run_room) (simp_all add: spi_env_def)

lemma post_site: "same_site s (snd (tim_worker_run env f a s))"
  using tim_worker_run_io [of env f a s] by (auto simp: same_site_def)

lemma tim_jobs_handle [simp]: "tim_jobs (s\<lparr>spi_h := h\<rparr>) = tim_jobs s"
  by (simp add: tim_jobs_def jobs_of_def)

text \<open>The invariant and the accounting, kept by every step.\<close>

definition accounted :: "env \<Rightarrow> bool \<times> fn list \<times> 'z spi_scheme \<Rightarrow> bool" where
  "accounted env = (\<lambda>(hw, acc, s). spi_env env s \<and> spi_inv hw s \<and> acc = called (io s) @ spi_pending hw s)"

lemma same_callbacks:
  "filter done_job js = [] \<Longrightarrow> concat (map (job_callbacks u) js) = concat (map (job_callbacks v) js)"
proof (induction js)
  case (Cons j js)
  then show ?case by (cases j) (auto split: fn.splits if_splits)
qed simp

text \<open>Reusing the transaction while the bus is free, and posting a callback.\<close>

lemma accounted_trans:
  assumes "accounted env (hw, acc, s)" "\<not> spi_in_use s"
  shows "accounted env (hw, acc, emit env (Drv c) (s\<lparr>trans := x\<rparr>))"
proof -
  note inv = assms(1) [unfolded accounted_def prod.case spi_inv_def]
  then have "\<not> hw" "filter done_job (tim_jobs s) = []" using assms(2) by auto
  with inv assms(2) same_callbacks [of "tim_jobs s" "t_user x" "t_user (trans s)"] show ?thesis
    by (simp add: accounted_def spi_inv_def spi_pending_def spi_env_def io_emit)
qed

lemma accounted_post:
  assumes "accounted env (hw, acc, s)" "length (tim_jobs s) < 20" "f \<noteq> Fn_jd_spi_done_cb_outside_isr"
    and "\<not> hw \<or> job_callbacks (t_user (trans s)) (Job f a) = []"
  shows "accounted env (hw, acc @ job_callbacks (t_user (trans s)) (Job f a), snd (tim_worker_run env f a s))"
proof -
  note inv = assms(1) [unfolded accounted_def prod.case]
  from inv have "tim_jobs (snd (tim_worker_run env f a s)) = tim_jobs s @ [Job f a]"
    using assms(2) by (intro post_room) auto
  with inv assms(3,4) spi_env_site [OF _ post_site, of env s env f a] show ?thesis
    by (auto simp: accounted_def spi_inv_def spi_pending_def)
qed

lemma request_accounted:
  assumes "jd_spi_xfer env tx rx n f s = Some (r, t)" "length (tim_jobs s) < 20" "accounted env (hw, acc, s)"
  shows "accounted env (hw \<or> trans_queued (io t) \<noteq> trans_queued (io s), acc @ (if r = 0 then [f] else []), t)"
proof -
  have f: "f \<noteq> Fn_null" using assms(1) by (simp add: jd_spi_xfer_def split: if_splits)
  have sync: "accounted env (hw, acc @ [f], snd (sync_ok env f u))"
    if "accounted env (hw, acc, u)" "length (tim_jobs u) < 20" "\<not> spi_in_use u" for u :: "'a spi_scheme"
    using accounted_post [OF that(1,2), of Fn_call_fn "Arg_fn f"] that(1,3) f
    by (simp add: sync_ok_def accounted_def spi_inv_def)
  have quiet: "trans_queued (io (snd (sync_ok env f u))) = trans_queued (io u)" for u :: "'a spi_scheme"
    by (simp add: sync_ok_def)
  show ?thesis
  proof (cases "jd_spi_is_ready s \<and> unat n \<le> BLOCK_SIZE")
    case False
    with assms(1,3) show ?thesis by (auto simp: jd_spi_xfer_def split: if_splits)
  next
    case True
    then have free: "\<not> spi_in_use s" by (simp add: jd_spi_is_ready_def)
    define x where "x = \<lparr>t_length = 8 * n, t_tx = tx, t_rx = rx, t_user = f\<rparr>"
    note trans = accounted_trans [OF assms(3) free]
    consider (zero) "n = 0" | (poll) "n \<noteq> 0" "unat n \<le> 4" | (queue) "4 < unat n" by fastforce
    then show ?thesis
    proof cases
      case zero
      with assms(1) True have "r = 0" "t = snd (sync_ok env f s)"
        by (auto simp: jd_spi_xfer_def sync_ok_def split: if_splits)
      with sync [OF assms(3,2) free] quiet show ?thesis by simp
    next
      case poll
      let ?u = "emit env (Drv (SpiPollingTransmit (spi_h s) (x\<lparr>t_user := Fn_null\<rparr>))) (s\<lparr>trans := x\<lparr>t_user := Fn_null\<rparr>\<rparr>)"
      have u: "accounted env (hw, acc, ?u)" "length (tim_jobs ?u) < 20" "\<not> spi_in_use ?u"
          "trans_queued (io ?u) = trans_queued (io s)"
        using trans assms(2) free by (simp_all add: io_emit)
      from poll assms(1) True have "(r, t) = sync_ok env f ?u \<or> r \<noteq> 0 \<and> t = ?u"
        by (auto simp: jd_spi_xfer_def x_def Let_def split: if_splits)
      with sync [OF u(1-3)] u(1,4) quiet [of ?u] show ?thesis by (auto simp: sync_ok_def)
    next
      case queue
      let ?a = "query env (Drv (SpiQueueTrans (spi_h s) x)) (s\<lparr>trans := x, spi_in_use := True\<rparr>)"
      let ?u = "emit env (Drv (SpiQueueTrans (spi_h s) x)) (s\<lparr>trans := x\<rparr>)"
      from queue assms(1) True have t: "r = a_ret ?a" "t = ?u\<lparr>spi_in_use := (r = 0)\<rparr>"
        by (auto simp: jd_spi_xfer_def x_def Let_def emit_def query_def split: if_splits)
      have s: "\<not> hw" "filter done_job (tim_jobs s) = []" "spi_env env s"
        using assms(3) free by (auto simp: accounted_def spi_inv_def)
      then have acc: "acc = called (io s) @ concat (map (job_callbacks f) (tim_jobs s))"
        using trans [of "SpiQueueTrans (spi_h s) x" x] by (simp add: accounted_def spi_pending_def x_def)
      have "trans_queued (io t) \<noteq> trans_queued (io s) \<longleftrightarrow> r = 0"
        by (simp add: t(2)) (simp add: t(1) io_emit query_def)
      then show ?thesis
        using s f by (simp add: acc t(2) accounted_def spi_inv_def spi_pending_def spi_env_def x_def)
    qed
  qed
qed

lemma interrupt_accounted:
  assumes "jd_spi_done_cb env (trans_at s) s = Some t" "length (tim_jobs s) < 20" "accounted env (True, acc, s)"
  shows "accounted env (False, acc, t)"
proof -
  note inv = assms(3) [unfolded accounted_def prod.case spi_inv_def]
  let ?t = "snd (tim_worker_run env Fn_jd_spi_done_cb_outside_isr (Arg_ptr (trans_at s)) s)"
  from inv assms(1) have "t = ?t" by (simp add: jd_spi_done_cb_def split: if_splits)
  moreover have "tim_jobs ?t = tim_jobs s @ [Job Fn_jd_spi_done_cb_outside_isr (Arg_ptr (trans_at s))]"
    using inv assms(2) by (intro post_room) auto
  ultimately show ?thesis
    using inv spi_env_site [OF _ post_site, of env s env Fn_jd_spi_done_cb_outside_isr "Arg_ptr (trans_at s)"]
    by (simp add: accounted_def spi_inv_def spi_pending_def)
qed

text \<open>The oldest job: \<open>ask_queue\<close> takes it out.\<close>

lemma job_accounted:
  assumes "tim_jobs s = Job f a # js" "accounted env (hw, acc, s)"
  shows "\<exists>t. spi_job env f a (ask_queue env (tim_worker s) s) = Some t \<and> accounted env (hw, acc, t)"
proof -
  note inv = assms(2) [unfolded accounted_def prod.case]
  let ?u = "ask_queue env (tim_worker s) s"
  have u: "tim_jobs ?u = js" "called (io ?u) = called (io s)" "spi_env env ?u" "trans ?u = trans s"
      "spi_in_use ?u = spi_in_use s" "trans_at ?u = trans_at s"
    using inv take_oldest [OF _ assms(1), of env] by (auto simp: spi_env_def) (auto simp: ask_queue_def)
  consider (ended) "f = Fn_jd_spi_done_cb_outside_isr" | (client) g where "f = Fn_call_fn" "a = Arg_fn g"
    | (other) "spi_job env f a ?u = Some ?u" "job_callbacks (t_user (trans s)) (Job f a) = []"
      "f \<noteq> Fn_jd_spi_done_cb_outside_isr"
    by (cases f; cases a) (auto simp: spi_job_def)
  then show ?thesis
  proof cases
    case ended
    then have d: "spi_in_use s" "\<not> hw" "a = Arg_ptr (trans_at s)" "filter done_job js = []" "t_user (trans s) \<noteq> Fn_null"
      using inv assms(1) by (auto simp: spi_inv_def split: if_splits)
    then show ?thesis
      using inv u assms(1) ended
      by (simp add: spi_job_def jd_spi_done_cb_outside_isr_def log_exec_def query_def)
        (auto simp: accounted_def spi_inv_def spi_pending_def spi_env_def io_emit)
  next
    case client
    then show ?thesis
      using inv u assms(1)
      by (auto simp: spi_job_def call_fn_def log_exec_def accounted_def spi_inv_def spi_pending_def spi_env_def io_emit)
  next
    case other
    then show ?thesis
      using inv u assms(1) by (auto simp: accounted_def spi_inv_def spi_pending_def)
  qed
qed

lemma init_accounted:
  assumes "accounted env (hw, acc, s)"
  shows "accounted env (hw, acc, snd (jd_spi_init env cfg s))"
proof -
  have "same_site s (snd (jd_spi_init env cfg s))" "tim_jobs (snd (jd_spi_init env cfg s)) = tim_jobs s"
    "called (io (snd (jd_spi_init env cfg s))) = called (io s)"
    "trans (snd (jd_spi_init env cfg s)) = trans s" "spi_in_use (snd (jd_spi_init env cfg s)) = spi_in_use s"
    by (simp_all add: jd_spi_init_def same_site_def Let_def)
  with assms spi_env_site [of env s "snd (jd_spi_init env cfg s)"] show ?thesis
    by (simp add: accounted_def spi_inv_def spi_pending_def same_site_def)
qed

section \<open>Property\<close>

definition spi_idle :: "bool \<times> fn list \<times> 'z spi_scheme \<Rightarrow> bool" where
  "spi_idle = (\<lambda>(hw, acc, s). \<not> hw \<and> acc = [] \<and> \<not> spi_in_use s \<and> tim_jobs s = [] \<and> called (io s) = [])"

interpretation spi_safe: safety "\<lambda>(hw, acc, s). spi_idle (hw, acc, s) \<and> spi_env env s" "spi_step env" "accounted env"
  for env
proof
  fix p q :: "bool \<times> fn list \<times> 'a spi_scheme"
  show "(case p of (hw, acc, s) \<Rightarrow> spi_idle (hw, acc, s) \<and> spi_env env s) \<Longrightarrow> accounted env p"
    by (auto simp: spi_idle_def accounted_def spi_inv_def spi_pending_def)
  assume "spi_step env p q" "accounted env p"
  then show "accounted env q"
  proof cases
    case request
    with \<open>accounted env p\<close> show ?thesis by (simp add: request_accounted)
  next
    case interrupt
    with \<open>accounted env p\<close> show ?thesis by (simp add: interrupt_accounted)
  next
    case (job s f a js t hw acc)
    with \<open>accounted env p\<close> show ?thesis using job_accounted [of s f a js env hw acc] by auto
  next
    case init
    with \<open>accounted env p\<close> show ?thesis by (simp add: init_accounted)
  next
    case (other_job f s hw acc a)
    then have "job_callbacks (t_user (trans s)) (Job f a) = []" by (cases f) simp_all
    with other_job \<open>accounted env p\<close> show ?thesis using accounted_post [of env hw acc s f a] by simp
  qed
qed

text \<open>C22: from an idle driver, whatever transfers are requested, also by the callbacks themselves, with
  whatever completion interrupts, other jobs and initialisations in between, as long as the job
  queue has room: the callbacks of the transfers accepted so far are, in this order, those made
  followed by those still to be made, of which there are none once the bus is free and no job
  waits; and no assertion of the interrupt handler or of a job can fail.\<close>

theorem spi_transfers_reported:
  assumes "(spi_step env)\<^sup>*\<^sup>* (False, [], s) (hw, acc, t)"
    and "\<not> spi_in_use s" "tim_jobs s = []" "called (io s) = []" "spi_env env s"
  shows "acc = called (io t) @ spi_pending hw t \<and>
    (\<not> spi_in_use t \<and> tim_jobs t = [] \<longrightarrow> acc = called (io t)) \<and>
    (hw \<longrightarrow> (\<exists>u. jd_spi_done_cb env (trans_at t) t = Some u)) \<and>
    (\<forall>f a js. tim_jobs t = Job f a # js \<longrightarrow>
      (\<exists>u. spi_job env f a (ask_queue env (tim_worker t) t) = Some u))"
proof -
  have acc: "accounted env (hw, acc, t)"
    using spi_safe.inv_reachable [OF _ assms(1)] assms(2-5) by (simp add: spi_idle_def)
  moreover have "\<exists>u. jd_spi_done_cb env (trans_at t) t = Some u" if hw
    using acc that by (auto simp: accounted_def spi_inv_def jd_spi_done_cb_def)
  ultimately show ?thesis
    using job_accounted [of t _ _ _ env hw acc]
    by (auto simp: accounted_def spi_pending_def spi_inv_def)
qed

text \<open>A driver whose hardware accepts everything.\<close>

definition spi_hw :: env where
  "spi_hw c l = (case c of Drv (SpiGetTransResult h) \<Rightarrow> ans0\<lparr>a_ptr := 0x3000\<rparr> | _ \<Rightarrow> queue_env 20 c l)"

lemma spi_hw_ok: "spi_env spi_hw boot_spi"
  by (simp add: spi_env_def rtos_queue_def spi_hw_def boot_defs pdPASS_def ans0_def)

theorem spi_transfers_reported_witness:
  "\<exists>hw acc t. (spi_step spi_hw)\<^sup>*\<^sup>* (False, [], boot_spi) (hw, acc, t) \<and> acc = [Fn_ext 1] \<and>
    spi_pending hw t = [Fn_ext 1]"
proof -
  obtain t where t: "jd_spi_xfer spi_hw 0x1000 0 64 (Fn_ext 1) boot_spi = Some (0, t)" "called (io t) = []"
    by (auto simp: jd_spi_xfer_def jd_spi_is_ready_def boot_defs BLOCK_SIZE_def query_def ans0_def spi_hw_def
        io_emit Let_def)
  have idle: "\<not> spi_in_use boot_spi" "tim_jobs boot_spi = []" "called (io boot_spi) = []"
    by (simp_all add: boot_defs tim_jobs_def jobs_of_def)
  then obtain hw where run: "(spi_step spi_hw)\<^sup>*\<^sup>* (False, [], boot_spi) (hw, [Fn_ext 1], t)"
    using spi_step.request [OF t(1), of False "[]"] by fastforce
  from spi_transfers_reported [OF run idle spi_hw_ok] t(2) run show ?thesis by auto
qed

end
