(* ===== verification/LedStrip.thy ===== *)
theory LedStrip
  imports Drivers
begin

text \<open>
  main/led_strip_encoder.c and main/ledstrip.c: the encoder that turns pixel bytes into symbols
  of the RMT peripheral followed by a reset code, and the two users of it: the RGB status LED
  and the strips that scripts drive, one transmission at a time.
\<close>

section \<open>State\<close>

text \<open>\<open>rmt_led_strip_encoder_t\<close>; \<open>encs\<close> is the part of the heap that holds such encoders.\<close>

record led_enc =
  e_bytes :: u32
  e_copy :: u32
  e_state :: nat
  e_reset :: rmt_symbol

text \<open>The statics of ledstrip.c.\<close>

record ledstrip = jacdac +
  encs :: "u32 \<Rightarrow> led_enc"
  rgbext_chan :: u32
  rgbext_encoder :: u32
  rgbext_buf :: "u8 list"
  led_chan :: u32
  led_encoder :: u32
  led_pin :: u8
  led_in_use :: bool
  led_done_fn :: fn
  last_ctx_no :: u32

text \<open>\<open>rmt_encode_state_t\<close> and the error codes of ESP-IDF that the encoder names.\<close>

definition RMT_ENCODING_COMPLETE :: u32 where "RMT_ENCODING_COMPLETE = 1"
definition RMT_ENCODING_MEM_FULL :: u32 where "RMT_ENCODING_MEM_FULL = 2"
definition ESP_ERR_INVALID_ARG :: int where "ESP_ERR_INVALID_ARG = 0x102"
definition ESP_ERR_NO_MEM :: int where "ESP_ERR_NO_MEM = 0x101"

section \<open>The encoder\<close>

definition set_enc :: "u32 \<Rightarrow> (led_enc \<Rightarrow> led_enc) \<Rightarrow> 'z ledstrip_scheme \<Rightarrow> 'z ledstrip_scheme" where
  "set_enc p f s = s\<lparr>encs := (encs s)(p := f (encs s p))\<rparr>"

text \<open>The \<open>session_state\<close> that a hardware encoder stores.\<close>

definition session :: "ans \<Rightarrow> u32" where
  "session r = word_of_int (a_ret r)"

text \<open>Case 1 of the switch: the reset code.\<close>

definition encode_reset_code ::
    "env \<Rightarrow> u32 \<Rightarrow> u32 \<Rightarrow> nat \<Rightarrow> 'z ledstrip_scheme \<Rightarrow> (nat \<times> u32) \<times> 'z ledstrip_scheme" where
  "encode_reset_code env p chan symbols s =
     (let (r, s1) = ext env (Drv (RmtEncodeCopy (e_copy (encs s p)) chan (e_reset (encs s p)))) s;
          ss = session r;
          fin = ss AND RMT_ENCODING_COMPLETE \<noteq> 0;
          s2 = (if fin then set_enc p (\<lambda>e. e\<lparr>e_state := 0\<rparr>) s1 else s1);
          state = (if fin then RMT_ENCODING_COMPLETE else 0);
          state = (if ss AND RMT_ENCODING_MEM_FULL \<noteq> 0 then state OR RMT_ENCODING_MEM_FULL else state)
      in ((symbols + a_val r, state), s2))"

definition rmt_encode_led_strip ::
    "env \<Rightarrow> u32 \<Rightarrow> u32 \<Rightarrow> u8 list \<Rightarrow> 'z ledstrip_scheme \<Rightarrow> (nat \<times> u32) \<times> 'z ledstrip_scheme" where
  "rmt_encode_led_strip env p chan data s =
     (if e_state (encs s p) = 0 then
        let (r, s1) = ext env (Drv (RmtEncodeBytes (e_bytes (encs s p)) chan data)) s;
            ss = session r;
            s2 = (if ss AND RMT_ENCODING_COMPLETE \<noteq> 0 then set_enc p (\<lambda>e. e\<lparr>e_state := 1\<rparr>) s1 else s1)
        in if ss AND RMT_ENCODING_MEM_FULL \<noteq> 0 then ((a_val r, RMT_ENCODING_MEM_FULL), s2)
           else encode_reset_code env p chan (a_val r) s2
      else if e_state (encs s p) = 1 then encode_reset_code env p chan 0 s
      else ((0, 0), s))"

definition rmt_del_led_strip_encoder :: "env \<Rightarrow> u32 \<Rightarrow> 'z ledstrip_scheme \<Rightarrow> int \<times> 'z ledstrip_scheme" where
  "rmt_del_led_strip_encoder env p s =
     (0, emits env [Drv (RmtDelEncoder (e_bytes (encs s p))), Drv (RmtDelEncoder (e_copy (encs s p))),
                    Rtos (Free_mem p)] s)"

definition rmt_led_strip_encoder_reset :: "env \<Rightarrow> u32 \<Rightarrow> 'z ledstrip_scheme \<Rightarrow> int \<times> 'z ledstrip_scheme" where
  "rmt_led_strip_encoder_reset env p s =
     (0, set_enc p (\<lambda>e. e\<lparr>e_state := 0\<rparr>)
        (emits env [Drv (RmtEncoderReset (e_bytes (encs s p))),
                    Drv (RmtEncoderReset (e_copy (encs s p)))] s))"

text \<open>\<open>tenths\<close> of a microsecond in ticks. The C code computes this in floating point; at the one
  resolution the firmware uses, 10 MHz, the products are exact.\<close>

definition pulse_ticks :: "nat \<Rightarrow> nat \<Rightarrow> nat" where
  "pulse_ticks tenths resolution = tenths * resolution div 10 div 1000000"

definition reset_ticks :: "nat \<Rightarrow> nat" where
  "reset_ticks resolution = resolution div 1000000 * 50 div 2"

text \<open>The label \<open>err\<close>.\<close>

definition drop_encoder :: "env \<Rightarrow> u32 \<Rightarrow> 'z ledstrip_scheme \<Rightarrow> 'z ledstrip_scheme" where
  "drop_encoder env p s =
     (if p \<noteq> 0 then
        let s1 = (if e_bytes (encs s p) \<noteq> 0 then emit env (Drv (RmtDelEncoder (e_bytes (encs s p)))) s else s);
            s2 = (if e_copy (encs s p) \<noteq> 0 then emit env (Drv (RmtDelEncoder (e_copy (encs s p)))) s1 else s1)
        in emit env (Rtos (Free_mem p)) s2
      else s)"

text \<open>The result is the error code and what \<open>*ret_encoder\<close> holds afterwards, 0 on an error.
  \<open>config\<close> is \<open>None\<close> for a NULL argument.\<close>

definition rmt_new_led_strip_encoder ::
    "env \<Rightarrow> nat option \<Rightarrow> 'z ledstrip_scheme \<Rightarrow> (int \<times> u32) \<times> 'z ledstrip_scheme" where
  "rmt_new_led_strip_encoder env config s =
     (case config of
        None \<Rightarrow> ((ESP_ERR_INVALID_ARG, 0), drop_encoder env 0 s)
      | Some resolution \<Rightarrow>
        let (c, s1) = ext env (Rtos (Calloc 28)) s; p = a_ptr c in
        if p = 0 then ((ESP_ERR_NO_MEM, 0), drop_encoder env 0 s1)
        else
          let s2 = set_enc p (\<lambda>_. \<lparr>e_bytes = 0, e_copy = 0, e_state = 0,
                     e_reset = \<lparr>level0 = False, duration0 = 0, level1 = False, duration1 = 0\<rparr>\<rparr>) s1;
              bit0 = \<lparr>level0 = True, duration0 = pulse_ticks 3 resolution,
                      level1 = False, duration1 = pulse_ticks 9 resolution\<rparr>;
              bit1 = \<lparr>level0 = True, duration0 = pulse_ticks 9 resolution,
                      level1 = False, duration1 = pulse_ticks 3 resolution\<rparr>;
              (r, s3) = ext env (Drv (RmtNewBytesEncoder bit0 bit1 True)) s2
          in if a_ret r \<noteq> 0 then ((a_ret r, 0), drop_encoder env p s3)
             else
               let s4 = set_enc p (\<lambda>e. e\<lparr>e_bytes := a_ptr r\<rparr>) s3;
                   (r, s5) = ext env (Drv RmtNewCopyEncoder) s4
               in if a_ret r \<noteq> 0 then ((a_ret r, 0), drop_encoder env p s5)
                  else
                    let s6 = set_enc p (\<lambda>e. e\<lparr>e_copy := a_ptr r\<rparr>) s5;
                        t = reset_ticks resolution
                    in ((0, p), set_enc p (\<lambda>e. e\<lparr>e_reset :=
                          \<lparr>level0 = False, duration0 = t, level1 = False, duration1 = t\<rparr>\<rparr>) s6))"

section \<open>Channels\<close>

definition RMT_LED_STRIP_RESOLUTION_HZ :: nat where
  "RMT_LED_STRIP_RESOLUTION_HZ = 10000000"

text \<open>The result is the channel and the encoder that the two out parameters hold.\<close>

definition setup_strip ::
    "env \<Rightarrow> u8 \<Rightarrow> nat \<Rightarrow> u32 \<Rightarrow> 'z ledstrip_scheme \<Rightarrow> ((u32 \<times> u32) \<times> 'z ledstrip_scheme) option" where
  "setup_strip env pin mem_block_symbols enc s = do {
     let (r, s1) = ext env (Drv (RmtNewTxChannel pin mem_block_symbols RMT_LED_STRIP_RESOLUTION_HZ 4)) s;
     chk (a_ret r);
     let chan = a_ptr r;
     (enc, s2) \<leftarrow>
       (if enc = 0 then
          let ((ret, e), t) = rmt_new_led_strip_encoder env (Some RMT_LED_STRIP_RESOLUTION_HZ) s1
          in do { chk ret; Some (e, t) }
        else Some (enc, s1));
     let (r, s3) = ext env (Drv (RmtEnable chan)) s2;
     chk (a_ret r);
     Some ((chan, enc), s3)
   }"

definition transmit ::
    "env \<Rightarrow> u32 \<Rightarrow> u32 \<Rightarrow> u8 list \<Rightarrow> 'z ledstrip_scheme \<Rightarrow> 'z ledstrip_scheme option" where
  "transmit env chan enc data s = do {
     let (r, s1) = ext env (Drv (RmtTransmit chan enc data)) s;
     chk (a_ret r);
     Some s1
   }"

text \<open>\<open>mem_words\<close> is \<open>SOC_RMT_MEM_WORDS_PER_CHANNEL\<close>.\<close>

definition jd_rgbext_init ::
    "nat \<Rightarrow> env \<Rightarrow> int \<Rightarrow> u8 \<Rightarrow> 'z ledstrip_scheme \<Rightarrow> 'z ledstrip_scheme option" where
  "jd_rgbext_init mem_words env type pin s =
     (if rgbext_chan s \<noteq> 0 then Some s
      else if type = 1 then do {
        ((chan, enc), s1) \<leftarrow> setup_strip env pin mem_words (rgbext_encoder s) s;
        Some (s1\<lparr>rgbext_chan := chan, rgbext_encoder := enc\<rparr>)
      }
      else Some s)"

definition jd_rgbext_set ::
    "env \<Rightarrow> u8 \<Rightarrow> u8 \<Rightarrow> u8 \<Rightarrow> 'z ledstrip_scheme \<Rightarrow> 'z ledstrip_scheme option" where
  "jd_rgbext_set env r g b s =
     (if rgbext_chan s \<noteq> 0 then
        let s1 = s\<lparr>rgbext_buf := [r, g, b]\<rparr>
        in transmit env (rgbext_chan s1) (rgbext_encoder s1) (rgbext_buf s1) s1
      else Some s)"

definition led_strip_done_outside_isr ::
    "'z ledstrip_scheme exec \<Rightarrow> env \<Rightarrow> 'z ledstrip_scheme \<Rightarrow> 'z ledstrip_scheme option" where
  "led_strip_done_outside_isr exec env s =
     (let s1 = emit env (Drv (RmtDisable (led_chan s))) s;
          s2 = s1\<lparr>led_in_use := False\<rparr>
      in if led_done_fn s2 = Fn_null then None else exec (led_done_fn s2) Arg_null s2)"

definition led_strip_done :: "env \<Rightarrow> 'z ledstrip_scheme \<Rightarrow> (bool \<times> 'z ledstrip_scheme) option" where
  "led_strip_done env s = do {
     jd_assert (led_in_use s);
     Some (False, snd (tim_worker_run env Fn_led_strip_done_outside_isr Arg_null s))
   }"

text \<open>The branch that (re)configures the channel. \<open>ctx_no\<close> is \<open>ctx->ctx_seq_no\<close>.\<close>

definition select_strip ::
    "nat \<Rightarrow> env \<Rightarrow> u32 \<Rightarrow> u8 \<Rightarrow> 'z ledstrip_scheme \<Rightarrow> 'z ledstrip_scheme option" where
  "select_strip mem_words env ctx_no pin s = do {
     let s1 = s\<lparr>led_pin := pin, last_ctx_no := ctx_no\<rparr>;
     s2 \<leftarrow> (if led_chan s1 \<noteq> 0 then do {
             let (r, t) = ext env (Drv (RmtDelChannel (led_chan s1))) s1;
             chk (a_ret r);
             Some t
           } else Some s1);
     ((chan, enc), s3) \<leftarrow> setup_strip env pin mem_words (led_encoder s2) s2;
     let s4 = s3\<lparr>led_chan := chan, led_encoder := enc\<rparr>;
     let (r, s5) = ext env (Drv (RmtRegisterDone (led_chan s4))) s4;
     chk (a_ret r);
     Some s5
   }"

definition devs_led_strip_send ::
    "nat \<Rightarrow> env \<Rightarrow> u32 \<Rightarrow> u8 \<Rightarrow> u8 list \<Rightarrow> fn \<Rightarrow> 'z ledstrip_scheme \<Rightarrow> (int \<times> 'z ledstrip_scheme) option" where
  "devs_led_strip_send mem_words env ctx_no pin data donefn s =
     (if led_in_use s then Some (-100, s)
      else do {
        s1 \<leftarrow> (if led_chan s = 0 \<or> led_pin s \<noteq> pin \<or> last_ctx_no s \<noteq> ctx_no
               then select_strip mem_words env ctx_no pin s
               else do {
                 let (r, t) = ext env (Drv (RmtEnable (led_chan s))) s;
                 chk (a_ret r);
                 Some t
               });
        let s2 = s1\<lparr>led_in_use := True, led_done_fn := donefn\<rparr>;
        s3 \<leftarrow> transmit env (led_chan s2) (led_encoder s2) data s2;
        Some (0, s3)
      })"

section \<open>What the operations leave alone\<close>

lemma ledstrip_emit [simp]:
  "encs (emit env c s) = encs s" "rgbext_chan (emit env c s) = rgbext_chan s"
  "rgbext_encoder (emit env c s) = rgbext_encoder s" "rgbext_buf (emit env c s) = rgbext_buf s"
  "led_chan (emit env c s) = led_chan s" "led_encoder (emit env c s) = led_encoder s"
  "led_pin (emit env c s) = led_pin s" "led_in_use (emit env c s) = led_in_use s"
  "led_done_fn (emit env c s) = led_done_fn s" "last_ctx_no (emit env c s) = last_ctx_no s"
  by (simp_all add: emit_def)

lemma set_enc_frame [simp]:
  "io (set_enc p f s) = io s" "encs (set_enc p f s) p = f (encs s p)"
  "rgbext_chan (set_enc p f s) = rgbext_chan s" "led_chan (set_enc p f s) = led_chan s"
  "led_encoder (set_enc p f s) = led_encoder s" "led_pin (set_enc p f s) = led_pin s"
  "led_in_use (set_enc p f s) = led_in_use s" "led_done_fn (set_enc p f s) = led_done_fn s"
  "last_ctx_no (set_enc p f s) = last_ctx_no s"
  by (simp_all add: set_enc_def)

text \<open>The fields that the encoder never writes.\<close>

definition same_strip :: "'z ledstrip_scheme \<Rightarrow> 'z ledstrip_scheme \<Rightarrow> bool" where
  "same_strip s t \<longleftrightarrow> rgbext_chan t = rgbext_chan s \<and> led_chan t = led_chan s \<and> led_pin t = led_pin s \<and>
     led_in_use t = led_in_use s \<and> led_done_fn t = led_done_fn s \<and> last_ctx_no t = last_ctx_no s"

lemma same_strip_simps [simp]:
  "same_strip s (emit env c t) = same_strip s t" "same_strip s (set_enc p f t) = same_strip s t"
  "same_strip s s"
  by (simp_all add: same_strip_def)

lemma same_strip_drop [simp]: "same_strip s (drop_encoder env p t) = same_strip s t"
  by (simp add: drop_encoder_def Let_def)

lemma same_strip_new: "same_strip s (snd (rmt_new_led_strip_encoder env c s))"
  by (simp add: rmt_new_led_strip_encoder_def Let_def split: option.split)

lemma same_strip_setup:
  "setup_strip env pin m enc s = Some (x, t) \<Longrightarrow> same_strip s t"
  using same_strip_new [of "emit env (Drv (RmtNewTxChannel pin m RMT_LED_STRIP_RESOLUTION_HZ 4)) s" env
      "Some RMT_LED_STRIP_RESOLUTION_HZ"]
  by (auto simp: setup_strip_def Let_def same_strip_def split: if_splits prod.splits)

section \<open>The encoder frees what it does not return\<close>

text \<open>The heap blocks and hardware encoders that are live, newest first.\<close>

fun enc_live :: "io_log \<Rightarrow> u32 list" where
  "enc_live [] = []"
| "enc_live ((Rtos (Calloc n), a) # l) = (if a_ptr a = 0 then enc_live l else a_ptr a # enc_live l)"
| "enc_live ((Rtos (Free_mem p), a) # l) = remove1 p (enc_live l)"
| "enc_live ((Drv (RmtNewBytesEncoder x y z), a) # l) =
     (if a_ret a = 0 then a_ptr a # enc_live l else enc_live l)"
| "enc_live ((Drv RmtNewCopyEncoder, a) # l) =
     (if a_ret a = 0 then a_ptr a # enc_live l else enc_live l)"
| "enc_live ((Drv (RmtDelEncoder p), a) # l) = remove1 p (enc_live l)"
| "enc_live (_ # l) = enc_live l"

text \<open>A created hardware encoder has a handle.\<close>

definition rmt_handles :: "env \<Rightarrow> bool" where
  "rmt_handles env \<longleftrightarrow>
     (\<forall>x y z l. a_ptr (env (Drv (RmtNewBytesEncoder x y z)) l) \<noteq> 0) \<and>
     (\<forall>l. a_ptr (env (Drv RmtNewCopyEncoder) l) \<noteq> 0) \<and>
     (\<forall>p m r d l. a_ptr (env (Drv (RmtNewTxChannel p m r d)) l) \<noteq> 0)"

lemma new_encoder_result:
  assumes "rmt_handles env" "rmt_new_led_strip_encoder env config s = ((ret, p), t)"
  shows "if ret = 0 then p \<noteq> 0 \<and> e_bytes (encs t p) \<noteq> 0 \<and> e_copy (encs t p) \<noteq> 0 \<and> e_state (encs t p) = 0 \<and>
        enc_live (io t) = [e_copy (encs t p), e_bytes (encs t p), p] @ enc_live (io s)
      else p = 0 \<and> enc_live (io t) = enc_live (io s)"
proof (cases config)
  case None
  with assms(2) show ?thesis
    by (auto simp: rmt_new_led_strip_encoder_def drop_encoder_def ESP_ERR_INVALID_ARG_def)
next
  case (Some resolution)
  show ?thesis
  proof (cases "a_ptr (query env (Rtos (Calloc 28)) s) = 0")
    case True
    with Some assms(2) show ?thesis
      by (auto simp: rmt_new_led_strip_encoder_def drop_encoder_def ESP_ERR_NO_MEM_def io_emit query_def Let_def)
  next
    case False
    with Some assms show ?thesis
      by (auto simp: rmt_new_led_strip_encoder_def drop_encoder_def io_emit query_def Let_def rmt_handles_def
          split: if_splits)
  qed
qed

section \<open>Properties of the encoder\<close>

text \<open>Creating the encoder either returns an encoder in its first state with both hardware
  encoders and the block live, or reports an error, returns nothing and has freed everything it
  had allocated.\<close>

theorem new_encoder_no_leak:
  assumes "rmt_handles env" "rmt_new_led_strip_encoder env config s = ((ret, p), t)"
  shows "if ret = 0 then p \<noteq> 0 \<and> e_state (encs t p) = 0 \<and>
        enc_live (io t) = [e_copy (encs t p), e_bytes (encs t p), p] @ enc_live (io s)
      else p = 0 \<and> enc_live (io t) = enc_live (io s)"
  using new_encoder_result [OF assms] by (simp split: if_splits)

definition boot_strip :: ledstrip where [boot_defs]:
  "boot_strip = jacdac.extend boot_jacdac (ledstrip.fields
     (\<lambda>_. \<lparr>e_bytes = 0, e_copy = 0, e_state = 0,
        e_reset = \<lparr>level0 = False, duration0 = 0, level1 = False, duration1 = 0\<rparr>\<rparr>)
     0 0 [] 0 0 0 False Fn_null 0)"

declare ledstrip.defs [boot_defs]

text \<open>RMT hardware on which everything works, except that the second encoder fails when \<open>broken\<close>.\<close>

definition rmt_env :: "bool \<Rightarrow> env" where
  "rmt_env broken c l = (case c of
      Rtos (Calloc n) \<Rightarrow> ans0\<lparr>a_ptr := 0x4000\<rparr>
    | Rtos (QSendFromISR q x) \<Rightarrow> ans0\<lparr>a_ret := 1\<rparr>
    | Drv (RmtNewBytesEncoder x y z) \<Rightarrow> ans0\<lparr>a_ptr := 0x4100\<rparr>
    | Drv RmtNewCopyEncoder \<Rightarrow> ans0\<lparr>a_ptr := 0x4200, a_ret := (if broken then ESP_ERR_NO_MEM else 0)\<rparr>
    | Drv (RmtNewTxChannel p m r d) \<Rightarrow> ans0\<lparr>a_ptr := 0x4300\<rparr>
    | _ \<Rightarrow> ans0)"

lemma rmt_env_handles: "rmt_handles (rmt_env b)"
  by (simp add: rmt_handles_def rmt_env_def ans0_def)

theorem new_encoder_no_leak_witness:
  "\<exists>ret p t. rmt_new_led_strip_encoder (rmt_env True) (Some 10000000) boot_strip = ((ret, p), t) \<and>
    ret \<noteq> 0 \<and> p = 0 \<and> enc_live (io t) = []"
proof -
  obtain ret p t where r: "rmt_new_led_strip_encoder (rmt_env True) (Some 10000000) boot_strip = ((ret, p), t)"
    by (metis surj_pair)
  then have "ret \<noteq> 0"
    by (auto simp: rmt_new_led_strip_encoder_def rmt_env_def query_def ans0_def ESP_ERR_NO_MEM_def Let_def)
  with new_encoder_no_leak [OF rmt_env_handles r] r show ?thesis by (auto simp: boot_defs)
qed

section \<open>One frame of pixels\<close>

text \<open>The driver calls the encoder again whenever the symbol memory has drained, until it reports
  that the frame is complete; \<open>k\<close> bounds the calls.\<close>

fun encode_run ::
    "nat \<Rightarrow> env \<Rightarrow> u32 \<Rightarrow> u32 \<Rightarrow> u8 list \<Rightarrow> 'z ledstrip_scheme \<Rightarrow> 'z ledstrip_scheme option" where
  "encode_run 0 env p chan data s = None"
| "encode_run (Suc k) env p chan data s =
     (let ((n, state), s1) = rmt_encode_led_strip env p chan data s
      in if state AND RMT_ENCODING_COMPLETE \<noteq> 0 then Some s1 else encode_run k env p chan data s1)"

definition completes :: "ans \<Rightarrow> bool" where
  "completes a \<longleftrightarrow> session a AND RMT_ENCODING_COMPLETE \<noteq> 0"

definition mem_full :: "ans \<Rightarrow> bool" where
  "mem_full a \<longleftrightarrow> session a AND RMT_ENCODING_MEM_FULL \<noteq> 0"

text \<open>What the two hardware encoders were asked to do, oldest first: data or reset code, and
  whether that session completed.\<close>

datatype (plugins only: code size) session_of = Pixels bool | Reset_code bool

fun enc_trace :: "u32 \<Rightarrow> u32 \<Rightarrow> io_log \<Rightarrow> session_of list" where
  "enc_trace eb ec [] = []"
| "enc_trace eb ec ((Drv (RmtEncodeBytes b ch d), a) # l) =
     (if b = eb then enc_trace eb ec l @ [Pixels (completes a)] else enc_trace eb ec l)"
| "enc_trace eb ec ((Drv (RmtEncodeCopy c ch r), a) # l) =
     (if c = ec then enc_trace eb ec l @ [Reset_code (completes a)] else enc_trace eb ec l)"
| "enc_trace eb ec (_ # l) = enc_trace eb ec l"

definition traced :: "u32 \<Rightarrow> 'z ledstrip_scheme \<Rightarrow> session_of list" where
  "traced p s = enc_trace (e_bytes (encs s p)) (e_copy (encs s p)) (io s)"

text \<open>A session of the byte encoder ends because the data is encoded or the memory is full.\<close>

definition bytes_sessions :: "env \<Rightarrow> bool" where
  "bytes_sessions env \<longleftrightarrow> (\<forall>b ch d l. completes (env (Drv (RmtEncodeBytes b ch d)) l) \<or>
     mem_full (env (Drv (RmtEncodeBytes b ch d)) l))"

lemma traced_set_state [simp]: "traced p (set_enc p (\<lambda>e. e\<lparr>e_state := n\<rparr>) s) = traced p s"
  by (simp add: traced_def)

lemma not_complete_full [simp]: "RMT_ENCODING_MEM_FULL AND RMT_ENCODING_COMPLETE = 0"
  by (simp add: RMT_ENCODING_COMPLETE_def RMT_ENCODING_MEM_FULL_def)

lemma encode_reset_code_eq:
  "encode_reset_code env p chan m s =
     (let c = Drv (RmtEncodeCopy (e_copy (encs s p)) chan (e_reset (encs s p)));
          a = query env c s; s1 = emit env c s
      in ((m + a_val a,
           if mem_full a then (if completes a then RMT_ENCODING_COMPLETE else 0) OR RMT_ENCODING_MEM_FULL
           else if completes a then RMT_ENCODING_COMPLETE else 0),
          if completes a then set_enc p (\<lambda>e. e\<lparr>e_state := 0\<rparr>) s1 else s1))"
  by (simp add: encode_reset_code_def completes_def mem_full_def Let_def)

lemma encode_reset_code_result:
  assumes "encode_reset_code env p chan m s = ((n, state), t)" "e_state (encs s p) = 1"
  shows "\<exists>fin. traced p t = traced p s @ [Reset_code fin] \<and> (state AND RMT_ENCODING_COMPLETE \<noteq> 0 \<longleftrightarrow> fin) \<and>
    e_state (encs t p) = (if fin then 0 else 1)"
proof -
  let ?c = "Drv (RmtEncodeCopy (e_copy (encs s p)) chan (e_reset (encs s p)))"
  let ?f = "completes (query env ?c s)"
  have bits: "(if f then (if b then RMT_ENCODING_COMPLETE else 0) OR RMT_ENCODING_MEM_FULL
      else if b then RMT_ENCODING_COMPLETE else 0) AND RMT_ENCODING_COMPLETE \<noteq> 0 \<longleftrightarrow> b" for f b
    by (simp add: RMT_ENCODING_COMPLETE_def RMT_ENCODING_MEM_FULL_def)
  have t: "t = (if ?f then set_enc p (\<lambda>e. e\<lparr>e_state := 0\<rparr>) (emit env ?c s) else emit env ?c s)"
    and st: "state AND RMT_ENCODING_COMPLETE \<noteq> 0 \<longleftrightarrow> ?f"
    using assms(1) bits [of "mem_full (query env ?c s)" ?f] encode_reset_code_eq [of env p chan m s]
    by (simp_all add: Let_def)
  have "traced p (emit env ?c s) = traced p s @ [Reset_code ?f]"
    by (simp add: traced_def io_emit query_def)
  with t st assms(2) show ?thesis by (intro exI [of _ ?f]) simp
qed

lemma encode_run_reset:
  assumes "encode_run k env p chan data s = Some t" "e_state (encs s p) = 1"
  shows "\<exists>m. traced p t = traced p s @ replicate m (Reset_code False) @ [Reset_code True] \<and>
    e_state (encs t p) = 0"
  using assms
proof (induction k arbitrary: s)
  case (Suc k)
  obtain n state s1 where r: "encode_reset_code env p chan 0 s = ((n, state), s1)"
    by (metis surj_pair)
  obtain fin where fin: "traced p s1 = traced p s @ [Reset_code fin]"
      "state AND RMT_ENCODING_COMPLETE \<noteq> 0 \<longleftrightarrow> fin" "e_state (encs s1 p) = (if fin then 0 else 1)"
    using encode_reset_code_result [OF r Suc.prems(2)] by blast
  have run: "(if fin then Some s1 else encode_run k env p chan data s1) = Some t"
    using Suc.prems r fin(2) by (simp add: rmt_encode_led_strip_def)
  show ?case
  proof (cases fin)
    case True
    with run fin show ?thesis by (intro exI [of _ 0]) simp
  next
    case False
    then obtain m where "traced p t = traced p s1 @ replicate m (Reset_code False) @ [Reset_code True]"
        "e_state (encs t p) = 0"
      using Suc.IH [of s1] run fin(3) by auto
    with False fin(1) show ?thesis by (intro exI [of _ "Suc m"]) simp
  qed
qed simp

text \<open>A call in the first state: the byte encoder runs, and the reset code follows in the same call
  only when the data is encoded and memory is left.\<close>

lemma encode_bytes_eq:
  assumes "e_state (encs s p) = 0"
  shows "rmt_encode_led_strip env p chan data s =
     (let c = Drv (RmtEncodeBytes (e_bytes (encs s p)) chan data); a = query env c s; s1 = emit env c s;
          s2 = (if completes a then set_enc p (\<lambda>e. e\<lparr>e_state := 1\<rparr>) s1 else s1)
      in if mem_full a then ((a_val a, RMT_ENCODING_MEM_FULL), s2)
         else encode_reset_code env p chan (a_val a) s2)"
  using assms by (simp add: rmt_encode_led_strip_def completes_def mem_full_def Let_def)

text \<open>C27: whatever memory the hardware has left at each call, when the encoder reports a frame complete
  its pixel data has been encoded to the end once, then the reset code to the end once, in that
  order, and the encoder is back in its first state for the next frame.\<close>

theorem encode_frame_once:
  assumes "bytes_sessions env" "e_state (encs s p) = 0" "encode_run k env p chan data s = Some t"
  shows "\<exists>d m. traced p t = traced p s @ replicate d (Pixels False) @ [Pixels True] @
      replicate m (Reset_code False) @ [Reset_code True] \<and> e_state (encs t p) = 0"
  using assms(2,3)
proof (induction k arbitrary: s)
  case (Suc k)
  let ?c = "Drv (RmtEncodeBytes (e_bytes (encs s p)) chan data)"
  let ?a = "query env ?c s"
  let ?s1 = "emit env ?c s"
  have s1: "traced p ?s1 = traced p s @ [Pixels (completes ?a)]" "e_state (encs ?s1 p) = 0"
    using Suc.prems(1) by (simp_all add: traced_def io_emit query_def)
  have full: "completes ?a \<or> mem_full ?a" using assms(1) by (simp add: bytes_sessions_def query_def)
  show ?case
  proof (cases "completes ?a")
    case False
    with full Suc.prems s1 have "encode_run k env p chan data ?s1 = Some t"
      by (simp add: encode_bytes_eq Let_def)
    with Suc.IH [OF s1(2)] obtain d m where dm: "traced p t = traced p ?s1 @ replicate d (Pixels False) @ [Pixels True] @
      replicate m (Reset_code False) @ [Reset_code True]" "e_state (encs t p) = 0" by blast
    with s1 False show ?thesis by (intro exI [of _ "Suc d"] exI [of _ m]) simp
  next
    case done1: True
    let ?s2 = "set_enc p (\<lambda>e. e\<lparr>e_state := 1\<rparr>) ?s1"
    have s2: "traced p ?s2 = traced p s @ [Pixels True]" "e_state (encs ?s2 p) = 1"
      using s1 done1 by simp_all
    have fin: "\<exists>m. traced p t = traced p ?s2 @ replicate m (Reset_code False) @ [Reset_code True] \<and>
        e_state (encs t p) = 0"
    proof (cases "mem_full ?a")
      case True
      with done1 Suc.prems have "encode_run k env p chan data ?s2 = Some t"
        by (simp add: encode_bytes_eq Let_def)
      from encode_run_reset [OF this s2(2)] show ?thesis .
    next
      case False
      obtain n state s3 where r: "encode_reset_code env p chan (a_val ?a) ?s2 = ((n, state), s3)"
        by (metis surj_pair)
      obtain f where f: "traced p s3 = traced p ?s2 @ [Reset_code f]"
          "state AND RMT_ENCODING_COMPLETE \<noteq> 0 \<longleftrightarrow> f" "e_state (encs s3 p) = (if f then 0 else 1)"
        using encode_reset_code_result [OF r s2(2)] by blast
      have run: "(if f then Some s3 else encode_run k env p chan data s3) = Some t"
        using Suc.prems r f(2) False done1 by (simp add: encode_bytes_eq Let_def)
      show ?thesis
      proof (cases f)
        case True
        with run f show ?thesis by (intro exI [of _ 0]) simp
      next
        case False
        then obtain m where "traced p t = traced p s3 @ replicate m (Reset_code False) @ [Reset_code True]"
            "e_state (encs t p) = 0"
          using encode_run_reset [of k env p chan data s3 t] run f(3) by auto
        with False f(1) show ?thesis by (intro exI [of _ "Suc m"]) simp
      qed
    qed
    then obtain m where "traced p t = traced p ?s2 @ replicate m (Reset_code False) @ [Reset_code True]"
        "e_state (encs t p) = 0" by blast
    with s2(1) show ?thesis by (intro exI [of _ 0] exI [of _ m]) simp
  qed
qed simp

text \<open>Hardware encoders that finish at once.\<close>

definition fast_rmt_env :: env where
  "fast_rmt_env c l = (case c of
      Drv (RmtEncodeBytes b ch d) \<Rightarrow> ans0\<lparr>a_ret := 1\<rparr> | Drv (RmtEncodeCopy b ch r) \<Rightarrow> ans0\<lparr>a_ret := 1\<rparr>
    | _ \<Rightarrow> ans0)"

lemma fast_rmt_completes:
  "completes (fast_rmt_env (Drv (RmtEncodeBytes b ch d)) l)"
  "completes (fast_rmt_env (Drv (RmtEncodeCopy b ch r)) l)"
  "\<not> mem_full (fast_rmt_env (Drv (RmtEncodeBytes b ch d)) l)"
  by (simp_all add: completes_def mem_full_def fast_rmt_env_def session_def ans0_def
      RMT_ENCODING_COMPLETE_def RMT_ENCODING_MEM_FULL_def)

theorem encode_frame_once_witness:
  "\<exists>t. encode_run 1 fast_rmt_env 0x4000 0x4300 [255, 0, 0] boot_strip = Some t \<and> traced 0x4000 t \<noteq> []"
proof -
  have "\<exists>t. encode_run 1 fast_rmt_env 0x4000 0x4300 [255, 0, 0] boot_strip = Some t"
    by (simp add: encode_bytes_eq encode_reset_code_eq Let_def fast_rmt_completes query_def
        RMT_ENCODING_COMPLETE_def RMT_ENCODING_MEM_FULL_def boot_defs)
  then obtain t where t: "encode_run 1 fast_rmt_env 0x4000 0x4300 [255, 0, 0] boot_strip = Some t" by blast
  have "bytes_sessions fast_rmt_env" by (simp add: bytes_sessions_def fast_rmt_completes)
  from encode_frame_once [OF this _ t] t show ?thesis by (auto simp: boot_defs)
qed

section \<open>The strip driver keeps the contract\<close>

text \<open>A request: the context, the pin, the data and the callback.\<close>

definition strip_send ::
    "nat \<Rightarrow> env \<Rightarrow> u32 \<times> u8 \<times> u8 list \<times> fn \<Rightarrow> 'z ledstrip_scheme \<Rightarrow> (int \<times> 'z ledstrip_scheme) option" where
  "strip_send mem_words env = (\<lambda>(c, pin, data, f). devs_led_strip_send mem_words env c pin data f)"

definition strip_finish ::
    "env \<Rightarrow> ('z ledstrip_scheme \<Rightarrow> 'z ledstrip_scheme option) \<Rightarrow> 'z ledstrip_scheme \<Rightarrow> 'z ledstrip_scheme option" where
  "strip_finish env cb = led_strip_done_outside_isr (\<lambda>_ _. cb) env"

interpretation led_drv: busy_driver led_in_use "strip_send mem_words env" "strip_finish env"
  for mem_words env
proof
  fix s :: "'a ledstrip_scheme" and r e t cb
  show "led_in_use s \<Longrightarrow> strip_send mem_words env r s = Some (e, t) \<Longrightarrow> e \<noteq> 0 \<and> t = s"
    by (auto simp: strip_send_def devs_led_strip_send_def split: prod.splits)
  assume "strip_finish env cb s = Some t"
  then show "\<exists>u. \<not> led_in_use u \<and> cb u = Some t"
    by (intro exI [of _ "(emit env (Drv (RmtDisable (led_chan s))) s)\<lparr>led_in_use := False\<rparr>"])
      (simp add: strip_finish_def led_strip_done_outside_isr_def Let_def split: if_splits)
qed

section \<open>Channels\<close>

text \<open>The number of RMT channels that are allocated.\<close>

fun channels :: "io_log \<Rightarrow> int" where
  "channels [] = 0"
| "channels ((Drv (RmtNewTxChannel p m r d), a) # l) = channels l + (if a_ret a = 0 then 1 else 0)"
| "channels ((Drv (RmtDelChannel c), a) # l) = channels l - (if a_ret a = 0 then 1 else 0)"
| "channels (_ # l) = channels l"

definition strip_inv :: "'z ledstrip_scheme \<Rightarrow> bool" where
  "strip_inv s \<longleftrightarrow> channels (io s) = (if rgbext_chan s \<noteq> 0 then 1 else 0) + (if led_chan s \<noteq> 0 then 1 else 0) \<and>
     (led_in_use s \<longrightarrow> led_chan s \<noteq> 0)"

lemma channels_drop_encoder [simp]: "channels (io (drop_encoder env p s)) = channels (io s)"
  by (simp add: drop_encoder_def io_emit Let_def)

lemma channels_new_encoder [simp]:
  "channels (io (snd (rmt_new_led_strip_encoder env c s))) = channels (io s)"
  by (simp add: rmt_new_led_strip_encoder_def io_emit Let_def split: option.split)

lemma setup_strip_result:
  assumes "rmt_handles env" "setup_strip env pin m enc s = Some ((chan, e), t)"
  shows "chan \<noteq> 0 \<and> channels (io t) = channels (io s) + 1 \<and> same_strip s t"
proof -
  let ?s1 = "emit env (Drv (RmtNewTxChannel pin m RMT_LED_STRIP_RESOLUTION_HZ 4)) s"
  obtain ret p s2 where n: "rmt_new_led_strip_encoder env (Some RMT_LED_STRIP_RESOLUTION_HZ) ?s1 = ((ret, p), s2)"
    by (metis surj_pair)
  then have "channels (io s2) = channels (io ?s1)"
    using channels_new_encoder [of env "Some RMT_LED_STRIP_RESOLUTION_HZ" ?s1] by simp
  with n assms same_strip_setup [OF assms(2)] show ?thesis
    by (auto simp: setup_strip_def Let_def io_emit query_def rmt_handles_def split: if_splits)
qed

lemma strip_inv_select:
  assumes "rmt_handles env" "select_strip m env c pin s = Some t" "strip_inv s" "\<not> led_in_use s"
  shows "strip_inv t \<and> led_chan t \<noteq> 0 \<and> led_pin t = pin \<and> last_ctx_no t = c \<and> \<not> led_in_use t"
proof -
  let ?s1 = "s\<lparr>led_pin := pin, last_ctx_no := c\<rparr>"
  let ?s2 = "if led_chan s \<noteq> 0 then emit env (Drv (RmtDelChannel (led_chan s))) ?s1 else ?s1"
  obtain chan enc s3 where s3: "setup_strip env pin m (led_encoder ?s2) ?s2 = Some ((chan, enc), s3)"
    and t: "t = emit env (Drv (RmtRegisterDone chan)) (s3\<lparr>led_chan := chan, led_encoder := enc\<rparr>)"
    and del: "led_chan s \<noteq> 0 \<longrightarrow> a_ret (query env (Drv (RmtDelChannel (led_chan s))) ?s1) = 0"
    using assms(2) by (auto simp: select_strip_def Let_def split: if_splits)
  have "channels (io ?s2) = (if rgbext_chan s \<noteq> 0 then 1 else 0)"
    using assms(3) del by (auto simp: strip_inv_def io_emit query_def)
  with setup_strip_result [OF assms(1) s3] assms(4) t show ?thesis
    by (auto simp: strip_inv_def same_strip_def io_emit)
qed

lemma strip_inv_send:
  assumes "rmt_handles env" "devs_led_strip_send m env c pin data f s = Some (r, t)" "strip_inv s"
  shows "strip_inv t \<and> (if led_in_use s then r = -100 \<and> t = s
    else r = 0 \<and> led_in_use t \<and> led_chan t \<noteq> 0 \<and> led_pin t = pin \<and> last_ctx_no t = c \<and> led_done_fn t = f \<and>
      (\<exists>a. hd (io t) = (Drv (RmtTransmit (led_chan t) (led_encoder t) data), a)))"
proof (cases "led_in_use s")
  case True
  with assms(2,3) show ?thesis by (simp add: devs_led_strip_send_def)
next
  case False
  obtain s1 where s1: "(if led_chan s = 0 \<or> led_pin s \<noteq> pin \<or> last_ctx_no s \<noteq> c
      then select_strip m env c pin s
      else do { let (r, t) = ext env (Drv (RmtEnable (led_chan s))) s; chk (a_ret r); Some t }) = Some s1"
    and t: "transmit env (led_chan s1) (led_encoder s1) data (s1\<lparr>led_in_use := True, led_done_fn := f\<rparr>) = Some t"
    and r: "r = 0"
    using assms(2) False by (auto simp: devs_led_strip_send_def split del: if_split)
  have inv: "strip_inv s1 \<and> led_chan s1 \<noteq> 0 \<and> led_pin s1 = pin \<and> last_ctx_no s1 = c"
  proof (cases "led_chan s = 0 \<or> led_pin s \<noteq> pin \<or> last_ctx_no s \<noteq> c")
    case True
    with s1 have "select_strip m env c pin s = Some s1" by simp
    from strip_inv_select [OF assms(1) this assms(3) False]
    show ?thesis by simp
  next
    case keep: False
    with s1 have "s1 = emit env (Drv (RmtEnable (led_chan s))) s" by (auto split: if_splits)
    with keep assms(3) show ?thesis
      by (simp add: strip_inv_def io_emit)
  qed
  with t r False show ?thesis
    by (auto simp: transmit_def strip_inv_def io_emit split: if_splits)
qed

text \<open>Every entry point of ledstrip.c as one step; the client's callback may call any of them.\<close>

inductive strip_step :: "nat \<Rightarrow> env \<Rightarrow> 'z ledstrip_scheme \<Rightarrow> 'z ledstrip_scheme \<Rightarrow> bool"
  for mem_words :: nat and env :: env where
  rgb_init: "jd_rgbext_init mem_words env type pin s = Some t \<Longrightarrow> strip_step mem_words env s t"
| rgb_set: "jd_rgbext_set env r g b s = Some t \<Longrightarrow> strip_step mem_words env s t"
| strip_send: "devs_led_strip_send mem_words env c pin data f s = Some (e, t) \<Longrightarrow> strip_step mem_words env s t"
| strip_isr: "led_strip_done env s = Some (b, t) \<Longrightarrow> strip_step mem_words env s t"
| strip_finish: "led_strip_done_outside_isr exec env s = Some t \<Longrightarrow>
    (\<forall>f x a b. exec f x a = Some b \<longrightarrow> (strip_step mem_words env)\<^sup>*\<^sup>* a b) \<Longrightarrow> strip_step mem_words env s t"

lemma strip_inv_rgb_init:
  assumes "rmt_handles env" "jd_rgbext_init m env type pin s = Some t" "strip_inv s"
  shows "strip_inv t"
proof (cases "rgbext_chan s \<noteq> 0 \<or> type \<noteq> 1")
  case True
  with assms(2,3) show ?thesis by (auto simp: jd_rgbext_init_def split: if_splits)
next
  case False
  then obtain chan enc s1 where s1: "setup_strip env pin m (rgbext_encoder s) s = Some ((chan, enc), s1)"
      "t = s1\<lparr>rgbext_chan := chan, rgbext_encoder := enc\<rparr>"
    using assms(2) by (auto simp: jd_rgbext_init_def)
  with setup_strip_result [OF assms(1) s1(1)] assms(3) False show ?thesis
    by (auto simp: strip_inv_def same_strip_def)
qed

lemma strip_inv_rgb_set: "jd_rgbext_set env r g b s = Some t \<Longrightarrow> strip_inv s \<Longrightarrow> strip_inv t"
  by (auto simp: jd_rgbext_set_def transmit_def strip_inv_def io_emit Let_def split: if_splits)

lemma channels_post [simp]:
  "channels (io (snd (tim_worker_run env f a s))) = channels (io s)"
  by (simp add: tim_worker_run_def worker_run_def emits_Cons io_emit Let_def)

lemma strip_post [simp]:
  "rgbext_chan (snd (tim_worker_run env f a s)) = rgbext_chan s"
  "led_chan (snd (tim_worker_run env f a s)) = led_chan s"
  "led_in_use (snd (tim_worker_run env f a s)) = led_in_use s"
  using tim_worker_run_io [of env f a s] by auto

lemma strip_inv_isr: "led_strip_done env s = Some (b, t) \<Longrightarrow> strip_inv s \<Longrightarrow> strip_inv t"
  by (auto simp: led_strip_done_def strip_inv_def split: if_splits)

lemma rtranclp_strip_inv:
  assumes "(\<lambda>a b. P a b \<and> (strip_inv a \<longrightarrow> strip_inv b))\<^sup>*\<^sup>* s t" "strip_inv s"
  shows "strip_inv t"
  using assms by (induction rule: rtranclp_induct) auto

lemma strip_step_inv:
  assumes "strip_step m env s t" "rmt_handles env"
  shows "strip_inv s \<longrightarrow> strip_inv t"
  using assms(1)
proof (induction rule: strip_step.induct)
  case (strip_finish exec s t)
  let ?u = "(emit env (Drv (RmtDisable (led_chan s))) s)\<lparr>led_in_use := False\<rparr>"
  from strip_finish(1) have x: "exec (led_done_fn s) Arg_null ?u = Some t"
    by (simp add: led_strip_done_outside_isr_def Let_def split: if_splits)
  have "strip_inv ?u" if "strip_inv s" using that by (simp add: strip_inv_def io_emit)
  with x strip_finish(2) rtranclp_strip_inv show ?case by blast
qed (use assms(2) in \<open>auto intro: strip_inv_rgb_init strip_inv_rgb_set strip_inv_isr
    strip_inv_send [THEN conjunct1]\<close>)

text \<open>Before anything is configured.\<close>

definition strip_start :: "'z ledstrip_scheme \<Rightarrow> bool" where
  "strip_start s \<longleftrightarrow> channels (io s) = 0 \<and> rgbext_chan s = 0 \<and> led_chan s = 0 \<and> \<not> led_in_use s"

interpretation strip_safe: safety
  "\<lambda>s. strip_start s \<and> rmt_handles env" "strip_step mem_words env" "\<lambda>s. strip_inv s \<and> rmt_handles env"
  for mem_words env
  by unfold_locales (auto simp: strip_start_def strip_inv_def dest: strip_step_inv)

section \<open>Properties of the strip driver\<close>


lemma boot_strip_sends:
  "\<exists>t. devs_led_strip_send 48 (rmt_env False) 1 9 [255, 0, 0] (Fn_ext 1) boot_strip = Some (0, t) \<and>
    led_chan t = 0x4300 \<and> rgbext_chan t = 0"
  by (simp add: devs_led_strip_send_def select_strip_def setup_strip_def rmt_new_led_strip_encoder_def
      transmit_def rmt_env_def query_def ans0_def boot_defs Let_def)


text \<open>A request that returns is either refused unchanged, because a transmission is in progress,
  or its data has been handed to the channel of its pin; then every further request is refused
  unchanged until the completion job, which calls the callback of this request with the driver
  free again.\<close>

theorem strip_transfer_completes:
  assumes "rmt_handles env" "strip_inv s" "devs_led_strip_send m env c pin data f s = Some (r, t)"
    and "f \<noteq> Fn_null"
  shows "if led_in_use s then r = -100 \<and> t = s
    else r = 0 \<and> led_in_use t \<and> led_pin t = pin \<and>
      (\<exists>a. hd (io t) = (Drv (RmtTransmit (led_chan t) (led_encoder t) data), a)) \<and>
      (\<forall>c' pin' data' f' e t'. devs_led_strip_send m env c' pin' data' f' t = Some (e, t') \<longrightarrow>
         e \<noteq> 0 \<and> t' = t) \<and>
      (\<exists>u. led_strip_done_outside_isr exec env t = exec f Arg_null u \<and> \<not> led_in_use u)"
proof -
  note res = strip_inv_send [OF assms(1,3,2)]
  show ?thesis
  proof (cases "led_in_use s")
    case True
    with res show ?thesis by simp
  next
    case False
    with res have t: "r = 0" "led_in_use t" "led_pin t = pin" "led_done_fn t = f"
        "\<exists>a. hd (io t) = (Drv (RmtTransmit (led_chan t) (led_encoder t) data), a)" by simp_all
    have "e \<noteq> 0 \<and> t' = t" if "devs_led_strip_send m env c' pin' data' f' t = Some (e, t')"
      for c' pin' data' f' e t'
      using led_drv.send_rejected [OF t(2), of m env "(c', pin', data', f')"] that
      by (simp add: strip_send_def)
    moreover have "led_strip_done_outside_isr exec env t =
        exec f Arg_null ((emit env (Drv (RmtDisable (led_chan t))) t)\<lparr>led_in_use := False\<rparr>)"
      using t(4) assms(4) by (simp add: led_strip_done_outside_isr_def Let_def)
    ultimately show ?thesis using t False
      by (auto intro!: exI [of _ "(emit env (Drv (RmtDisable (led_chan t))) t)\<lparr>led_in_use := False\<rparr>"])
  qed
qed

theorem strip_transfer_completes_witness:
  "\<exists>t. devs_led_strip_send 48 (rmt_env False) 1 9 [255, 0, 0] (Fn_ext 1) boot_strip = Some (0, t) \<and>
    led_in_use t \<and> led_pin t = 9"
proof -
  obtain t where t: "devs_led_strip_send 48 (rmt_env False) 1 9 [255, 0, 0] (Fn_ext 1) boot_strip = Some (0, t)"
    using boot_strip_sends by blast
  have "strip_inv boot_strip" by (simp add: strip_inv_def boot_defs)
  from strip_transfer_completes [OF rmt_env_handles this t, of "\<lambda>_ _. Some"] t show ?thesis
    by (auto simp: boot_defs)
qed

end
