(* ===== verification/StripBus.thy ===== *)
theory StripBus
  imports LedStrip
begin

text \<open>
  The LED strip driver of main/ledstrip.c in its surroundings: scripts, the completion interrupt, the
  job queue of the timer task and the other jobs in it, as one state machine; every accepted
  request is reported to its script exactly once, and no assertion can fail.
\<close>

section \<open>The machine\<close>

definition strip_job :: "env \<Rightarrow> fn \<Rightarrow> 'z ledstrip_scheme \<Rightarrow> 'z ledstrip_scheme option" where
  "strip_job env f s =
     (if f = Fn_led_strip_done_outside_isr then led_strip_done_outside_isr (log_exec env) env s else Some s)"

text \<open>A state: whether a strip is being sent, the callbacks of the requests accepted so far, and the state
  of the driver. Jobs are posted while the queue has room. The status LED has a channel of its own
  without a completion callback.\<close>

inductive strip_bus ::
    "nat \<Rightarrow> env \<Rightarrow> bool \<times> fn list \<times> 'z ledstrip_scheme \<Rightarrow> bool \<times> fn list \<times> 'z ledstrip_scheme \<Rightarrow> bool"
  for mem_words :: nat and env :: env where
  request: "devs_led_strip_send mem_words env c pin data f s = Some (r, t) \<Longrightarrow> f \<noteq> Fn_null \<Longrightarrow>
    strip_bus mem_words env (hw, acc, s) (hw \<or> r = 0, acc @ (if r = 0 then [f] else []), t)"
| interrupt: "led_strip_done env s = Some (b, t) \<Longrightarrow> length (tim_jobs s) < 20 \<Longrightarrow>
    strip_bus mem_words env (True, acc, s) (False, acc, t)"
| job: "tim_jobs s = Job f a # js \<Longrightarrow> strip_job env f (ask_queue env (tim_worker s) s) = Some t \<Longrightarrow>
    strip_bus mem_words env (hw, acc, s) (hw, acc, t)"
| rgb_init: "jd_rgbext_init mem_words env type pin s = Some t \<Longrightarrow> strip_bus mem_words env (hw, acc, s) (hw, acc, t)"
| rgb_set: "jd_rgbext_set env r g b s = Some t \<Longrightarrow> strip_bus mem_words env (hw, acc, s) (hw, acc, t)"
| other_job: "f \<noteq> Fn_led_strip_done_outside_isr \<Longrightarrow> length (tim_jobs s) < 20 \<Longrightarrow>
    strip_bus mem_words env (hw, acc, s) (hw, acc, snd (tim_worker_run env f a s))"

section \<open>The invariant\<close>

definition strip_pending :: "'z ledstrip_scheme \<Rightarrow> fn list" where
  "strip_pending s = (if led_in_use s then [led_done_fn s] else [])"

text \<open>The driver is in use exactly while a strip is being sent or its completion job waits.\<close>

definition strip_accounted :: "env \<Rightarrow> bool \<times> fn list \<times> 'z ledstrip_scheme \<Rightarrow> bool" where
  "strip_accounted env = (\<lambda>(hw, acc, s).
     rtos_queue env (w_queue (wheap s (tim_worker s))) 20 \<and> (led_in_use s \<longrightarrow> led_done_fn s \<noteq> Fn_null) \<and>
     filter (runs Fn_led_strip_done_outside_isr) (tim_jobs s) =
       (if led_in_use s \<and> \<not> hw then [Job Fn_led_strip_done_outside_isr Arg_null] else []) \<and>
     (hw \<longrightarrow> led_in_use s) \<and> acc = called (io s) @ strip_pending s)"

text \<open>What the set-up of channels and encoders leaves alone.\<close>

definition same_jobs :: "'z ledstrip_scheme \<Rightarrow> 'z ledstrip_scheme \<Rightarrow> bool" where
  "same_jobs s t \<longleftrightarrow> wheap t = wheap s \<and> tim_worker t = tim_worker s \<and> tim_jobs t = tim_jobs s \<and>
     called (io t) = called (io s) \<and> led_in_use t = led_in_use s \<and> led_done_fn t = led_done_fn s"

lemma same_jobs_refl [simp]: "same_jobs s s"
  by (simp add: same_jobs_def)

lemma same_jobs_emit [simp]:
  "same_jobs s (emit env (Drv c) t) = same_jobs s t" "same_jobs s (emit env (Rtos (Calloc n)) t) = same_jobs s t"
  "same_jobs s (emit env (Rtos (Free_mem p)) t) = same_jobs s t"
  by (simp_all add: same_jobs_def) (simp_all add: tim_jobs_def jobs_of_def io_emit)

lemma same_jobs_upd [simp]:
  "same_jobs s (t\<lparr>led_pin := x\<rparr>) = same_jobs s t" "same_jobs s (t\<lparr>last_ctx_no := c\<rparr>) = same_jobs s t"
  "same_jobs s (t\<lparr>led_chan := c\<rparr>) = same_jobs s t" "same_jobs s (t\<lparr>led_encoder := c\<rparr>) = same_jobs s t"
  "same_jobs s (t\<lparr>rgbext_chan := c\<rparr>) = same_jobs s t" "same_jobs s (t\<lparr>rgbext_encoder := c\<rparr>) = same_jobs s t"
  "same_jobs s (t\<lparr>rgbext_buf := b\<rparr>) = same_jobs s t" "same_jobs s (set_enc p f t) = same_jobs s t"
  by (simp_all add: same_jobs_def tim_jobs_def jobs_of_def set_enc_def)

lemma same_jobs_encoder [simp]:
  "same_jobs s (drop_encoder env p t) = same_jobs s t"
  "same_jobs s (snd (rmt_new_led_strip_encoder env c t)) = same_jobs s t"
  by (simp_all add: drop_encoder_def rmt_new_led_strip_encoder_def Let_def split: option.split)

lemma same_jobs_setup: "same_jobs s t \<Longrightarrow> returns (setup_strip env pin m enc t) (\<lambda>x. same_jobs s (snd x))"
  unfolding setup_strip_def by (intro walk) simp_all

lemma same_jobs_select: "same_jobs s t \<Longrightarrow> returns (select_strip m env c pin t) (same_jobs s)"
  unfolding select_strip_def by (intro walk same_jobs_setup [where s = s, THEN returns_weaken]) simp_all

lemma same_jobs_transmit: "same_jobs s t \<Longrightarrow> returns (transmit env c e d t) (same_jobs s)"
  unfolding transmit_def by (intro walk) simp

lemma same_jobs_rgb:
  "returns (jd_rgbext_init m env type pin s) (same_jobs s)" "returns (jd_rgbext_set env r g b s) (same_jobs s)"
  unfolding jd_rgbext_init_def jd_rgbext_set_def
  by (intro walk same_jobs_setup [where s = s, THEN returns_weaken]; simp)
    (intro walk same_jobs_transmit; simp)

lemma accounted_same: "strip_accounted env (hw, acc, s) \<Longrightarrow> same_jobs s t \<Longrightarrow> strip_accounted env (hw, acc, t)"
  by (simp add: strip_accounted_def same_jobs_def strip_pending_def)

lemma strip_send_result:
  assumes "devs_led_strip_send m env c pin data f s = Some (r, t)"
  shows "if led_in_use s then r \<noteq> 0 \<and> t = s
    else r = 0 \<and> (\<exists>u. same_jobs s u \<and> t = u\<lparr>led_in_use := True, led_done_fn := f\<rparr>)"
proof (cases "led_in_use s")
  case False
  then obtain u where u: "(if led_chan s = 0 \<or> led_pin s \<noteq> pin \<or> last_ctx_no s \<noteq> c then select_strip m env c pin s
      else do { let (r, t) = ext env (Drv (RmtEnable (led_chan s))) s; chk (a_ret r); Some t }) = Some u"
    "transmit env (led_chan u) (led_encoder u) data (u\<lparr>led_in_use := True, led_done_fn := f\<rparr>) = Some t" "r = 0"
    using assms by (auto simp: devs_led_strip_send_def split del: if_split)
  then have "same_jobs s u"
    using returnsD [OF same_jobs_select [OF same_jobs_refl]] by (auto split: if_split_asm)
  moreover have "t = (emit env (Drv (RmtTransmit (led_chan u) (led_encoder u) data)) u)\<lparr>led_in_use := True, led_done_fn := f\<rparr>"
    using u(2) by (auto simp: transmit_def emit_def split: if_split_asm)
  ultimately show ?thesis using False u(3)
    by (auto intro!: exI [of _ "emit env (Drv (RmtTransmit (led_chan u) (led_encoder u) data)) u"])
qed (use assms in \<open>simp add: devs_led_strip_send_def\<close>)

section \<open>Every step keeps it\<close>

lemma jobs_upd [simp]:
  "tim_jobs (s\<lparr>led_in_use := b\<rparr>) = tim_jobs s" "tim_jobs (s\<lparr>led_done_fn := f\<rparr>) = tim_jobs s"
  by (simp_all add: tim_jobs_def jobs_of_def)

lemma strip_post_frame [simp]:
  "wheap (snd (tim_worker_run env f a s)) = wheap s" "tim_worker (snd (tim_worker_run env f a s)) = tim_worker s"
  "led_done_fn (snd (tim_worker_run env f a s)) = led_done_fn s" for s :: "'z ledstrip_scheme"
  using tim_worker_run_io [of env f a s] by auto

lemma strip_request_accounted:
  assumes "devs_led_strip_send m env c pin data f s = Some (r, t)" "f \<noteq> Fn_null" "strip_accounted env (hw, acc, s)"
  shows "strip_accounted env (hw \<or> r = 0, acc @ (if r = 0 then [f] else []), t)"
proof (cases "led_in_use s")
  case True
  with strip_send_result [OF assms(1)] assms(3) show ?thesis by simp
next
  case False
  with strip_send_result [OF assms(1)] obtain u where "same_jobs s u" "r = 0"
      "t = u\<lparr>led_in_use := True, led_done_fn := f\<rparr>" by auto
  with assms(2,3) False show ?thesis
    by (simp add: strip_accounted_def same_jobs_def strip_pending_def)
qed

lemma strip_interrupt_accounted:
  assumes "led_strip_done env s = Some (b, t)" "length (tim_jobs s) < 20" "strip_accounted env (True, acc, s)"
  shows "strip_accounted env (False, acc, t)"
  using assms tim_worker_run_room [of env s Fn_led_strip_done_outside_isr Arg_null]
  by (auto simp: led_strip_done_def strip_accounted_def strip_pending_def)

lemma strip_job_accounted:
  assumes "tim_jobs s = Job f a # js" "strip_accounted env (hw, acc, s)"
  shows "\<exists>t. strip_job env f (ask_queue env (tim_worker s) s) = Some t \<and> strip_accounted env (hw, acc, t)"
proof -
  note inv = assms(2) [unfolded strip_accounted_def prod.case]
  let ?u = "ask_queue env (tim_worker s) s"
  have "led_in_use ?u = led_in_use s" "led_done_fn ?u = led_done_fn s" by (simp_all add: ask_queue_def)
  with inv take_oldest [OF _ assms(1), of env] assms(1) show ?thesis
    by (auto simp: strip_job_def led_strip_done_outside_isr_def log_exec_def strip_accounted_def strip_pending_def
        io_emit Let_def split: if_splits)
qed

lemma strip_post_accounted:
  assumes "f \<noteq> Fn_led_strip_done_outside_isr" "length (tim_jobs s) < 20" "strip_accounted env (hw, acc, s)"
  shows "strip_accounted env (hw, acc, snd (tim_worker_run env f a s))"
  using assms tim_worker_run_room [of env s f a] by (simp add: strip_accounted_def strip_pending_def)

interpretation strip_bus_safe: safety
  "\<lambda>(hw, acc, s). \<not> hw \<and> acc = [] \<and> \<not> led_in_use s \<and> tim_jobs s = [] \<and> called (io s) = [] \<and>
     rtos_queue env (w_queue (wheap s (tim_worker s))) 20"
  "strip_bus m env" "strip_accounted env" for m env
proof
  fix p q :: "bool \<times> fn list \<times> 'a ledstrip_scheme"
  assume "strip_bus m env p q" "strip_accounted env p"
  then show "strip_accounted env q"
  proof cases
    case (job s f a js t hw acc)
    with \<open>strip_accounted env p\<close> show ?thesis using strip_job_accounted [of s f a js env hw acc] by auto
  next
    case request
    with \<open>strip_accounted env p\<close> show ?thesis by (simp add: strip_request_accounted)
  qed (auto intro: strip_interrupt_accounted strip_post_accounted accounted_same
      dest: returnsD [OF same_jobs_rgb(1)] returnsD [OF same_jobs_rgb(2)])
qed (auto simp: strip_accounted_def strip_pending_def)

section \<open>Property\<close>

text \<open>C23: from an idle driver, whatever strips are requested, also by the callbacks themselves, and
  whatever completion interrupts, other jobs and changes of the status LED come in between, as long
  as the job queue has room: the callbacks of the requests accepted so far are those made, in this
  order, followed by the one of the request in progress, if any; and neither the assertion of the
  interrupt handler nor a job can fail.\<close>

theorem strip_requests_reported:
  assumes "(strip_bus m env)\<^sup>*\<^sup>* (False, [], s) (hw, acc, t)"
    and "\<not> led_in_use s" "tim_jobs s = []" "called (io s) = []" "rtos_queue env (w_queue (wheap s (tim_worker s))) 20"
  shows "acc = called (io t) @ (if led_in_use t then [led_done_fn t] else []) \<and>
    (hw \<longrightarrow> (\<exists>b u. led_strip_done env t = Some (b, u))) \<and>
    (\<forall>f a js. tim_jobs t = Job f a # js \<longrightarrow> (\<exists>u. strip_job env f (ask_queue env (tim_worker t) t) = Some u))"
proof -
  have acc: "strip_accounted env (hw, acc, t)"
    using strip_bus_safe.inv_reachable [OF _ assms(1)] assms(2-5) by simp
  moreover have "\<exists>b u. led_strip_done env t = Some (b, u)" if hw
    using acc that by (auto simp: strip_accounted_def led_strip_done_def)
  ultimately show ?thesis
    using strip_job_accounted [of t _ _ _ env hw acc] by (auto simp: strip_accounted_def strip_pending_def)
qed

text \<open>The hardware of \<open>rmt_env\<close> with a queue for jobs.\<close>

definition strip_hw :: env where
  "strip_hw c l = (case c of Rtos (Calloc n) \<Rightarrow> rmt_env False c l | Rtos r \<Rightarrow> queue_env 20 c l | _ \<Rightarrow> rmt_env False c l)"

theorem strip_requests_reported_witness:
  "\<exists>hw acc t. (strip_bus 48 strip_hw)\<^sup>*\<^sup>* (False, [], boot_strip) (hw, acc, t) \<and> acc = [Fn_ext 1] \<and>
    led_in_use t \<and> led_done_fn t = Fn_ext 1"
proof -
  obtain t where t: "devs_led_strip_send 48 strip_hw 1 9 [255, 0, 0] (Fn_ext 1) boot_strip = Some (0, t)"
    by (simp add: devs_led_strip_send_def select_strip_def setup_strip_def rmt_new_led_strip_encoder_def
      transmit_def strip_hw_def rmt_env_def query_def ans0_def boot_defs Let_def)
  then have run: "(strip_bus 48 strip_hw)\<^sup>*\<^sup>* (False, [], boot_strip) (True, [Fn_ext 1], t)"
    using strip_bus.request [OF t, of False "[]"] by auto
  have "rtos_queue strip_hw q 20" for q
    by (simp add: rtos_queue_def strip_hw_def pdPASS_def ans0_def)
  with strip_requests_reported [OF run] have "[Fn_ext 1] = called (io t) @ (if led_in_use t then [led_done_fn t] else [])"
    by (simp add: boot_defs tim_jobs_def jobs_of_def)
  moreover have "led_in_use t" using strip_send_result [OF t] by (auto simp: boot_defs)
  ultimately show ?thesis using run by auto
qed

end
