(* ===== verification/Pwm.thy ===== *)
theory Pwm
  imports Platform
begin

text \<open>
  main/led.c: pins, and PWM on the LED controller. A PWM output is a hardware timer bound to a
  pin; the resolution and the clock divider of the timer are chosen from the requested period.
\<close>

section \<open>State\<close>

record timer_info =
  tim_num :: u8
  t_pin :: u8
  t_bits :: u8
  t_div :: u32
  t_period :: u32

text \<open>The array \<open>timers\<close> of length \<open>LEDC_TIMER_MAX\<close>.\<close>

record pwm = platform +
  timers :: "timer_info list"

definition LEDC_TIMER_DIV_NUM_MAX :: u32 where
  "LEDC_TIMER_DIV_NUM_MAX = 0x3FFFF"

section \<open>Pins\<close>

definition pin_absent :: "int \<Rightarrow> bool" where
  "pin_absent pin \<longleftrightarrow> (word_of_int pin :: u8) = NO_PIN"

definition pin_set :: "env \<Rightarrow> int \<Rightarrow> int \<Rightarrow> 'z world_scheme \<Rightarrow> 'z world_scheme" where
  "pin_set env pin v s = (if \<not> pin_absent pin then emit env (Gpio (PinLevel pin v)) s else s)"

definition pin_setup_output :: "env \<Rightarrow> int \<Rightarrow> 'z world_scheme \<Rightarrow> 'z world_scheme option" where
  "pin_setup_output env pin s =
     (if \<not> pin_absent pin then do {
        let s1 = emit env (Gpio (PinIomux pin)) s;
        let (r, s2) = ext env (Gpio (PinDirection pin Mode_output)) s1;
        chk (a_ret r);
        Some (emit env (Gpio (PinConnectOut pin Out_gpio)) s2)
      } else Some s)"

definition pin_get :: "env \<Rightarrow> int \<Rightarrow> 'z world_scheme \<Rightarrow> int \<times> 'z world_scheme" where
  "pin_get env pin s =
     (if pin_absent pin then (-1, s)
      else let (r, s1) = ext env (Gpio (PinGetLevel pin)) s in (a_ret r, s1))"

definition pin_set_pull :: "env \<Rightarrow> int \<Rightarrow> int \<Rightarrow> 'z world_scheme \<Rightarrow> 'z world_scheme" where
  "pin_set_pull env pin pull s =
     (if pin_absent pin then s
      else if pull < 0 then emits env [Gpio (PinPulldown pin True), Gpio (PinPullup pin False)] s
      else if pull > 0 then emits env [Gpio (PinPullup pin True), Gpio (PinPulldown pin False)] s
      else emits env [Gpio (PinPullup pin False), Gpio (PinPulldown pin False)] s)"

definition pin_setup_input :: "env \<Rightarrow> int \<Rightarrow> int \<Rightarrow> 'z world_scheme \<Rightarrow> 'z world_scheme option" where
  "pin_setup_input env pin pull s =
     (if pin_absent pin then Some s
      else do {
        let s1 = emit env (Gpio (PinIomux pin)) s;
        let s2 = pin_set_pull env pin pull s1;
        let (r, s3) = ext env (Gpio (PinDirection pin Mode_input)) s2;
        chk (a_ret r);
        Some s3
      })"

definition pin_setup_analog_input :: "env \<Rightarrow> int \<Rightarrow> 'z world_scheme \<Rightarrow> 'z world_scheme option" where
  "pin_setup_analog_input env pin s =
     (if pin_absent pin then Some s
      else do {
        let s1 = emit env (Gpio (PinIomux pin)) s;
        let s2 = pin_set_pull env pin 0 s1;
        let (r, s3) = ext env (Gpio (PinDirection pin Mode_disable)) s2;
        chk (a_ret r);
        Some s3
      })"

section \<open>Timers\<close>

text \<open>The clock source is set on the targets other than ESP32-C3 and ESP32-S3.\<close>

definition apply_config :: "target \<Rightarrow> env \<Rightarrow> timer_info \<Rightarrow> 'z pwm_scheme \<Rightarrow> 'z pwm_scheme" where
  "apply_config tgt env t s =
     (let tim = unat (tim_num t)
      in emits env
        ([Ledc (LedcClockDivider tim (t_div t))] @
         (if tgt \<noteq> ESP32C3 \<and> tgt \<noteq> ESP32S3 then [Ledc (LedcClockSource tim)] else []) @
         [Ledc (LedcDutyResolution tim (unat (t_bits t))), Ledc (LedcTimerUpdate tim),
          Ledc (LedcTimerRst tim), Ledc (LedcTimerUpdate tim)]) s)"

definition pwm_setup :: "env \<Rightarrow> 'z pwm_scheme \<Rightarrow> 'z pwm_scheme" where
  "pwm_setup env s =
     (if tim_num (timers s ! 1) = 1 then s
      else
        let s1 = s\<lparr>timers := map (\<lambda>(i, t). t\<lparr>tim_num := of_nat i, t_pin := 0xff\<rparr>)
                              (enumerate 0 (timers s))\<rparr>
        in emits env [Ledc LedcModuleEnable, Ledc LedcSlowClk] s1)"

text \<open>The search of the loop over the resolutions, from \<open>bits\<close> down to 4: the first divider of at
  least 256, i.e. at least 1 with its 8 fraction bits.\<close>

fun find_bits :: "u32 \<Rightarrow> nat \<Rightarrow> (nat \<times> u32) option" where
  "find_bits period_cycles bits =
     (if bits < 4 then None
      else
        let dv = drop_bit bits (push_bit 8 period_cycles)
        in if dv < 256 then find_bits period_cycles (bits - 1) else Some (bits, dv))"

declare find_bits.simps [simp del]

text \<open>The two searches for a timer: the one of this pin, else a free one.\<close>

fun first_index :: "('b \<Rightarrow> bool) \<Rightarrow> 'b list \<Rightarrow> nat option" where
  "first_index P [] = None"
| "first_index P (x # xs) = (if P x then Some 0 else map_option Suc (first_index P xs))"

definition find_timer :: "u8 \<Rightarrow> timer_info list \<Rightarrow> nat option" where
  "find_timer pin ts =
     (case first_index (\<lambda>t. t_pin t = pin) ts of
        Some i \<Rightarrow> Some i
      | None \<Rightarrow> first_index (\<lambda>t. t_pin t = 0xff) ts)"

text \<open>Dividing by a period of 0, which only a timer that was never configured has, does not come
  back.\<close>

definition jd_pwm_set_duty :: "env \<Rightarrow> u8 \<Rightarrow> u32 \<Rightarrow> 'z pwm_scheme \<Rightarrow> 'z pwm_scheme option" where
  "jd_pwm_set_duty env pwm_id duty s = do {
     jd_assert (pwm_id > 0);
     jd_assert (unat pwm_id \<le> length (timers s));
     let t = timers s ! (unat pwm_id - 1);
     let ch = unat (tim_num t);
     let max = push_bit (unat (t_bits t)) (1 :: u32);
     jd_assert (t_period t \<noteq> 0);
     let duty = max * duty div t_period t;
     let duty = (if duty \<ge> max then max - 1 else duty);
     Some (emits env
       [Ledc (LedcDuty ch duty), Ledc (LedcDutyDirection ch 1), Ledc (LedcDutyNum ch 0),
        Ledc (LedcDutyCycle ch 0), Ledc (LedcDutyScale ch 0), Ledc (LedcChannelUpdate ch),
        Ledc (LedcSigOut ch True), Ledc (LedcDutyStart ch True), Ledc (LedcChannelUpdate ch)] s)
   }"

definition jd_pwm_enable :: "env \<Rightarrow> u8 \<Rightarrow> bool \<Rightarrow> 'z pwm_scheme \<Rightarrow> 'z pwm_scheme option" where
  "jd_pwm_enable env pwm_id enabled s = do {
     jd_assert (pwm_id > 0);
     jd_assert (unat pwm_id \<le> length (timers s));
     let t = timers s ! (unat pwm_id - 1);
     let ch = unat (tim_num t);
     s1 \<leftarrow> pin_setup_output env (uint (t_pin t)) s;
     Some (if enabled then emit env (Gpio (PinConnectOut (uint (t_pin t)) (Out_ledc ch))) s1 else s1)
   }"

text \<open>When no resolution fits, the pointer to the timer is still NULL after the loop.
  \<open>bit_max\<close> is \<open>LEDC_TIMER_BIT_MAX\<close>.\<close>

definition jd_pwm_init ::
    "target \<Rightarrow> nat \<Rightarrow> env \<Rightarrow> u8 \<Rightarrow> u32 \<Rightarrow> u32 \<Rightarrow> u8 \<Rightarrow> 'z pwm_scheme \<Rightarrow> (u8 \<times> 'z pwm_scheme) option" where
  "jd_pwm_init tgt bit_max env pin period duty prescaler s = do {
     let s1 = pwm_setup env s;
     let period_cycles = period * ucast prescaler;
     (bits, dv) \<leftarrow> find_bits period_cycles (bit_max - 1);
     s2 \<leftarrow> (if dv > LEDC_TIMER_DIV_NUM_MAX then hw_panic s1 else Some s1);
     i \<leftarrow> (case find_timer pin (timers s2) of None \<Rightarrow> None | Some i \<Rightarrow> Some i);
     let t = (timers s2 ! i)\<lparr>t_pin := pin, t_div := dv, t_bits := of_nat bits, t_period := period\<rparr>;
     let s3 = apply_config tgt env t (s2\<lparr>timers := (timers s2)[i := t]\<rparr>);
     let ch = unat (tim_num t);
     let pwm_id = tim_num t + 1;
     s4 \<leftarrow> jd_pwm_set_duty env pwm_id duty s3;
     let s5 = emits env [Ledc (LedcBind ch ch), Ledc (LedcChannelUpdate ch)] s4;
     s6 \<leftarrow> jd_pwm_enable env pwm_id True s5;
     Some (pwm_id, s6)
   }"

section \<open>Choosing the resolution\<close>

text \<open>The divider with 8 fraction bits at a resolution; the shift by 8 drops the bits that do not fit.\<close>

definition divider :: "u32 \<Rightarrow> nat \<Rightarrow> nat" where
  "divider period_cycles bits = unat period_cycles * 256 mod 2 ^ 32 div 2 ^ bits"

lemma unat_divider: "unat (drop_bit bits (push_bit 8 (w :: u32))) = divider w bits"
proof -
  have "unat (push_bit 8 w) = take_bit 32 (push_bit 8 (unat w))"
    by (subst unsigned_push_bit_eq) simp
  also have "\<dots> = unat w * 256 mod 2 ^ 32"
    unfolding push_bit_eq_mult take_bit_eq_mod by simp
  finally have "unat (push_bit 8 w) = unat w * 256 mod 2 ^ 32" .
  moreover have "unat (drop_bit bits (push_bit 8 w)) = drop_bit bits (unat (push_bit 8 w))"
  proof -
    have "unat (push_bit 8 w) < 2 ^ 32" by (rule order_less_le_trans [OF unsigned_less]) simp
    then have "take_bit 32 (unat (push_bit 8 w)) = unat (push_bit 8 w)" by (rule take_bit_nat_eq_self)
    then show ?thesis by (subst unsigned_drop_bit_eq) simp
  qed
  ultimately show ?thesis unfolding divider_def drop_bit_eq_div by simp
qed

lemma find_bits_Some:
  assumes "find_bits w b = Some (bits, dv)"
  shows "4 \<le> bits \<and> bits \<le> b \<and> unat dv = divider w bits \<and> 256 \<le> divider w bits \<and>
    (\<forall>b'. bits < b' \<and> b' \<le> b \<longrightarrow> divider w b' < 256)"
  using assms
proof (induction w b rule: find_bits.induct)
  case (1 w b)
  let ?d = "drop_bit b (push_bit 8 w)"
  have small: "?d < 256 \<longleftrightarrow> divider w b < 256"
    using unat_divider [of b w] by (simp add: word_less_nat_alt)
  show ?case
  proof (cases "b < 4 \<or> divider w b < 256")
    case True
    with 1(2) small have b: "\<not> b < 4" "divider w b < 256" "find_bits w (b - 1) = Some (bits, dv)"
      by (auto simp: find_bits.simps [of w b] Let_def split: if_splits)
    have "b' \<le> b - 1 \<or> b' = b" if "b' \<le> b" for b' using that by linarith
    with 1(1) [OF b(1) refl] b small show ?thesis by fastforce
  next
    case False
    with 1(2) small have "bits = b" "dv = ?d" by (auto simp: find_bits.simps [of w b] Let_def)
    with False unat_divider [of b w] show ?thesis by simp
  qed
qed

lemma find_bits_None:
  "find_bits w b = None \<longleftrightarrow> (\<forall>b'. 4 \<le> b' \<and> b' \<le> b \<longrightarrow> divider w b' < 256)"
proof (induction w b rule: find_bits.induct)
  case (1 w b)
  have small: "drop_bit b (push_bit 8 w) < 256 \<longleftrightarrow> divider w b < 256"
    using unat_divider [of b w] by (simp add: word_less_nat_alt)
  show ?case
  proof (cases "b < 4 \<or> \<not> divider w b < 256")
    case True
    then show ?thesis
    proof
      assume "\<not> divider w b < 256"
      with small show ?thesis
        by (cases "b < 4") (auto simp: find_bits.simps [of w b] Let_def intro!: exI [of _ b])
    qed (auto simp: find_bits.simps [of w b])
  next
    case False
    then have b: "\<not> b < 4" "divider w b < 256" by simp_all
    have split: "b' \<le> b \<longleftrightarrow> b' \<le> b - 1 \<or> b' = b" for b' using b(1) by linarith
    have "find_bits w b = None \<longleftrightarrow> find_bits w (b - 1) = None"
      using b small by (simp add: find_bits.simps [of w b] Let_def)
    with 1 [OF b(1) refl] b small show ?thesis by (auto simp: split)
  qed
qed

section \<open>Which timer belongs to which pin\<close>

lemma first_index_Some:
  "first_index P xs = Some i \<Longrightarrow> i < length xs \<and> P (xs ! i) \<and> (\<forall>j<i. \<not> P (xs ! j))"
proof (induction xs arbitrary: i)
  case (Cons x xs)
  show ?case
  proof (cases "P x")
    case False
    with Cons.prems obtain k where k: "first_index P xs = Some k" "i = Suc k" by auto
    have "\<not> P ((x # xs) ! j)" if "j < i" for j
      using that Cons.IH [OF k(1)] k(2) False by (cases j) auto
    with Cons.IH [OF k(1)] k(2) show ?thesis by simp
  qed (use Cons.prems in auto)
qed simp

lemma first_index_None: "first_index P xs = None \<longleftrightarrow> (\<forall>x\<in>set xs. \<not> P x)"
  by (induction xs) auto

text \<open>Timer \<open>i\<close> is number \<open>i\<close>, and no two timers have the same pin, free timers apart.\<close>

definition timers_ok :: "timer_info list \<Rightarrow> bool" where
  "timers_ok ts \<longleftrightarrow> (\<forall>i<length ts. tim_num (ts ! i) = of_nat i) \<and>
     (\<forall>i<length ts. \<forall>j<length ts. t_pin (ts ! i) = t_pin (ts ! j) \<and> t_pin (ts ! i) \<noteq> 0xff \<longrightarrow> i = j)"

definition pwm_inv :: "nat \<Rightarrow> 'z pwm_scheme \<Rightarrow> bool" where
  "pwm_inv n s \<longleftrightarrow> length (timers s) = n \<and> 2 \<le> n \<and> n < 256 \<and>
     (tim_num (timers s ! 1) = 1 \<longrightarrow> timers_ok (timers s))"

lemma pwm_emit [simp]: "timers (emit env c s) = timers s"
  by (simp add: emit_def)

lemma pwm_emits [simp]: "timers (emits env cs s) = timers s"
  by (induction cs arbitrary: s) (simp_all add: emits_Cons)

lemma pwm_setup_ok:
  assumes "pwm_inv n s"
  shows "timers_ok (timers (pwm_setup env s)) \<and> length (timers (pwm_setup env s)) = n \<and>
    tim_num (timers (pwm_setup env s) ! 1) = 1"
  using assms by (auto simp: pwm_setup_def pwm_inv_def timers_ok_def nth_enumerate_eq)

lemma pin_setup_output_timers: "pin_setup_output env pin s = Some t \<Longrightarrow> timers t = timers s"
  for s :: "'z pwm_scheme"
  by (auto simp: pin_setup_output_def Let_def split: if_splits)

lemma jd_pwm_enable_timers: "jd_pwm_enable env i b s = Some t \<Longrightarrow> timers t = timers s"
  by (auto simp: jd_pwm_enable_def Let_def split: if_splits dest!: pin_setup_output_timers)

lemma jd_pwm_set_duty_timers: "jd_pwm_set_duty env i d s = Some t \<Longrightarrow> timers t = timers s"
  by (auto simp: jd_pwm_set_duty_def Let_def split: if_splits)

lemma apply_config_timers [simp]: "timers (apply_config tgt env t s) = timers s"
  by (simp add: apply_config_def Let_def)

text \<open>The timer that is found has the pin already, or is free while no timer has the pin.\<close>

lemma find_timer_Some:
  assumes "find_timer pin ts = Some i"
  shows "i < length ts \<and> (t_pin (ts ! i) = pin \<or> t_pin (ts ! i) = 0xff \<and> (\<forall>t\<in>set ts. t_pin t \<noteq> pin))"
  using assms
  by (cases "first_index (\<lambda>t. t_pin t = pin) ts")
    (auto simp: find_timer_def first_index_None dest!: first_index_Some)

lemma timers_ok_claim:
  assumes "timers_ok ts" "find_timer pin ts = Some i"
    and "t_pin t = pin" "tim_num t = tim_num (ts ! i)"
  shows "timers_ok (ts[i := t])"
proof -
  note f = find_timer_Some [OF assms(2)]
  have other: "t_pin (ts ! j) \<noteq> pin" if "j < length ts" "j \<noteq> i" "pin \<noteq> 0xff" for j
    using f that assms(1) unfolding timers_ok_def by (metis nth_mem)
  have "a = b" if "a < length ts" "b < length ts" "t_pin (ts[i := t] ! a) = t_pin (ts[i := t] ! b)"
      "t_pin (ts[i := t] ! a) \<noteq> 0xff" for a b
    using that assms(1,3) f other [of a] other [of b]
    unfolding timers_ok_def by (cases "a = i"; cases "b = i") auto
  moreover have "tim_num (ts[i := t] ! a) = of_nat a" if "a < length ts" for a
    using that assms(1,4) f unfolding timers_ok_def by (cases "a = i") auto
  ultimately show ?thesis unfolding timers_ok_def by (metis length_list_update)
qed

section \<open>Setting up an output\<close>

lemma jd_pwm_init_result:
  assumes "pwm_inv n s" "jd_pwm_init tgt bit_max env pin period duty prescaler s = Some (pid, t)"
  shows "pwm_inv n t \<and> (\<exists>bits dv i. find_bits (period * ucast prescaler) (bit_max - 1) = Some (bits, dv) \<and>
    dv \<le> LEDC_TIMER_DIV_NUM_MAX \<and> find_timer pin (timers (pwm_setup env s)) = Some i \<and> i < n \<and>
    pid = of_nat i + 1 \<and> timers t = (timers (pwm_setup env s))[i :=
      \<lparr>tim_num = of_nat i, t_pin = pin, t_bits = of_nat bits, t_div = dv, t_period = period\<rparr>])"
proof -
  let ?s1 = "pwm_setup env s"
  note ok = pwm_setup_ok [OF assms(1), of env]
  obtain bits dv where fb: "find_bits (period * ucast prescaler) (bit_max - 1) = Some (bits, dv)"
    using assms(2) by (auto simp: jd_pwm_init_def Let_def)
  have dv: "dv \<le> LEDC_TIMER_DIV_NUM_MAX"
    using assms(2) fb by (auto simp: jd_pwm_init_def hw_panic_def Let_def split: if_splits)
  obtain i where i: "find_timer pin (timers ?s1) = Some i"
    using assms(2) fb dv by (auto simp: jd_pwm_init_def Let_def split: if_splits option.splits)
  have lt: "i < n" using find_timer_Some [OF i] ok by simp
  let ?t = "(timers ?s1 ! i)\<lparr>t_pin := pin, t_div := dv, t_bits := of_nat bits, t_period := period\<rparr>"
  let ?s3 = "apply_config tgt env ?t (?s1\<lparr>timers := (timers ?s1)[i := ?t]\<rparr>)"
  have num: "tim_num (timers ?s1 ! i) = of_nat i" using ok lt by (simp add: timers_ok_def)
  have nd: "\<not> LEDC_TIMER_DIV_NUM_MAX < dv" using dv by simp
  have run: "do { s4 \<leftarrow> jd_pwm_set_duty env (of_nat i + 1) duty ?s3;
      s6 \<leftarrow> jd_pwm_enable env (of_nat i + 1) True (emits env [Ledc (LedcBind (unat (tim_num ?t)) (unat (tim_num ?t))),
        Ledc (LedcChannelUpdate (unat (tim_num ?t)))] s4);
      Some (of_nat i + 1, s6) } = Some (pid, t)"
    using assms(2) fb nd i num by (simp add: jd_pwm_init_def Let_def)
  obtain s4 s6 where s4: "jd_pwm_set_duty env (of_nat i + 1) duty ?s3 = Some s4"
    and s6: "jd_pwm_enable env (of_nat i + 1) True (emits env [Ledc (LedcBind (unat (tim_num ?t)) (unat (tim_num ?t))),
        Ledc (LedcChannelUpdate (unat (tim_num ?t)))] s4) = Some s6"
    and r: "pid = of_nat i + 1" "t = s6"
    using run by auto
  have t: "timers t = (timers ?s1)[i := ?t]"
    using jd_pwm_set_duty_timers [OF s4] jd_pwm_enable_timers [OF s6] r by simp
  have "timers_ok ((timers ?s1)[i := ?t])"
    using ok by (intro timers_ok_claim [OF _ i]) simp_all
  then have "pwm_inv n t" using t ok assms(1) by (simp add: pwm_inv_def)
  moreover have "?t = \<lparr>tim_num = of_nat i, t_pin = pin, t_bits = of_nat bits, t_div = dv, t_period = period\<rparr>"
    using num by (cases "timers ?s1 ! i") simp
  ultimately show ?thesis using fb dv i lt r t by auto
qed

text \<open>The entry points that touch the timers.\<close>

inductive pwm_step :: "target \<Rightarrow> nat \<Rightarrow> env \<Rightarrow> 'z pwm_scheme \<Rightarrow> 'z pwm_scheme \<Rightarrow> bool"
  for tgt :: target and bit_max :: nat and env :: env where
  pwm_init: "jd_pwm_init tgt bit_max env pin period duty prescaler s = Some (pid, t) \<Longrightarrow>
    pwm_step tgt bit_max env s t"
| pwm_duty: "jd_pwm_set_duty env pid duty s = Some t \<Longrightarrow> pwm_step tgt bit_max env s t"
| pwm_enable: "jd_pwm_enable env pid b s = Some t \<Longrightarrow> pwm_step tgt bit_max env s t"

text \<open>The zeroed array of the start.\<close>

definition pwm_start :: "nat \<Rightarrow> 'z pwm_scheme \<Rightarrow> bool" where
  "pwm_start n s \<longleftrightarrow> length (timers s) = n \<and> 2 \<le> n \<and> n < 256 \<and> tim_num (timers s ! 1) = 0"

interpretation pwm_safe: safety "pwm_start n" "pwm_step tgt bit_max env" "pwm_inv n"
  for n tgt bit_max env
proof
  fix s t :: "'a pwm_scheme"
  show "pwm_start n s \<Longrightarrow> pwm_inv n s" by (simp add: pwm_start_def pwm_inv_def)
  assume "pwm_step tgt bit_max env s t" "pwm_inv n s"
  then show "pwm_inv n t"
  proof cases
    case pwm_init
    with jd_pwm_init_result [OF \<open>pwm_inv n s\<close> pwm_init] show ?thesis by simp
  next
    case pwm_duty
    with jd_pwm_set_duty_timers [OF pwm_duty] \<open>pwm_inv n s\<close> show ?thesis by (simp add: pwm_inv_def)
  next
    case pwm_enable
    with jd_pwm_enable_timers [OF pwm_enable] \<open>pwm_inv n s\<close> show ?thesis by (simp add: pwm_inv_def)
  qed
qed

text \<open>A period of less than 16 cycles fits no resolution; the pointer is then used while NULL.\<close>

lemma jd_pwm_init_short_period:
  assumes "unat (period * ucast prescaler) < 16"
  shows "jd_pwm_init tgt bit_max env pin period duty prescaler s = None"
proof -
  have "divider (period * ucast prescaler) b < 256" if "4 \<le> b" for b
  proof -
    have "divider (period * ucast prescaler) b \<le> unat (period * ucast prescaler) * 256 div 2 ^ b"
      by (simp add: divider_def div_le_mono)
    also have "\<dots> \<le> unat (period * ucast prescaler) * 256 div 2 ^ 4"
      using that by (intro div_le_mono2 power_increasing) simp_all
    also have "\<dots> < 256" using assms by simp
    finally show ?thesis .
  qed
  then have "find_bits (period * ucast prescaler) (bit_max - 1) = None" by (simp add: find_bits_None)
  then show ?thesis by (simp add: jd_pwm_init_def Let_def)
qed

section \<open>Properties\<close>

text \<open>C26: a PWM output that is set up gets the finest resolution of at least 4 bits at which the
  clock divider is at least 1 (256 with its 8 fraction bits) and within the hardware limit, and
  exactly one timer changes: the one whose number is the returned identifier less one.\<close>

theorem jd_pwm_init_config:
  assumes "pwm_start n s" "(pwm_step tgt bit_max env)\<^sup>*\<^sup>* s u"
    and "jd_pwm_init tgt bit_max env pin period duty prescaler u = Some (pid, t)"
  shows "\<exists>bits dv i. 4 \<le> bits \<and> bits \<le> bit_max - 1 \<and>
    unat dv = divider (period * ucast prescaler) bits \<and> 256 \<le> unat dv \<and> dv \<le> LEDC_TIMER_DIV_NUM_MAX \<and>
    (\<forall>b. bits < b \<and> b \<le> bit_max - 1 \<longrightarrow> divider (period * ucast prescaler) b < 256) \<and>
    i < n \<and> pid = of_nat i + 1 \<and> timers t = (timers (pwm_setup env u))[i :=
      \<lparr>tim_num = of_nat i, t_pin = pin, t_bits = of_nat bits, t_div = dv, t_period = period\<rparr>]"
proof -
  have "pwm_inv n u" by (rule pwm_safe.inv_reachable [OF assms(1,2)])
  from jd_pwm_init_result [OF this assms(3)] obtain bits dv i where
    r: "find_bits (period * ucast prescaler) (bit_max - 1) = Some (bits, dv)"
      "dv \<le> LEDC_TIMER_DIV_NUM_MAX" "i < n" "pid = of_nat i + 1"
      "timers t = (timers (pwm_setup env u))[i :=
        \<lparr>tim_num = of_nat i, t_pin = pin, t_bits = of_nat bits, t_div = dv, t_period = period\<rparr>]"
    by blast
  with find_bits_Some [OF r(1)] show ?thesis
    by (intro exI [of _ bits] exI [of _ dv] exI [of _ i]) auto
qed

definition zero_timer :: timer_info where
  "zero_timer = \<lparr>tim_num = 0, t_pin = 0, t_bits = 0, t_div = 0, t_period = 0\<rparr>"

definition boot_pwm :: pwm where
  "boot_pwm = \<lparr>io = [], int_level = 0, id_addr = 0, dcfg_result = 0,
     timers = [zero_timer, zero_timer, zero_timer, zero_timer]\<rparr>"

definition zero_env :: env where
  "zero_env c l = ans0"

lemma boot_pwm_start: "pwm_start 4 boot_pwm"
  by (simp add: pwm_start_def boot_pwm_def zero_timer_def)

lemma boot_pwm_init:
  "\<exists>t. jd_pwm_init ESP32C3 14 zero_env 9 20000 10000 4 boot_pwm = Some (1, t) \<and> t_pin (timers t ! 0) = 9"
  by (simp add: jd_pwm_init_def pwm_setup_def boot_pwm_def find_bits.simps find_timer_def
      jd_pwm_set_duty_def jd_pwm_enable_def pin_setup_output_def pin_absent_def NO_PIN_def zero_env_def query_def
      ans0_def apply_config_def LEDC_TIMER_DIV_NUM_MAX_def Let_def zero_timer_def
      emits_Cons emit_def)

lemma first_id:
  assumes "i < 4" "(1 :: u8) = of_nat i + 1"
  shows "i = 0"
proof -
  from assms(2) have "(of_nat i :: u8) = 0" by simp
  then have "256 dvd i" by (simp add: word_of_nat_eq_0_iff)
  with assms(1) nat_dvd_not_less [of i 256] show ?thesis by fastforce
qed

theorem jd_pwm_init_config_witness:
  "\<exists>t bits dv. jd_pwm_init ESP32C3 14 zero_env 9 20000 10000 4 boot_pwm = Some (1, t) \<and> 4 \<le> bits \<and>
    256 \<le> unat dv \<and> timers t = (timers (pwm_setup zero_env boot_pwm))[0 :=
      \<lparr>tim_num = 0, t_pin = 9, t_bits = of_nat bits, t_div = dv, t_period = 20000\<rparr>]"
proof -
  obtain t where t: "jd_pwm_init ESP32C3 14 zero_env 9 20000 10000 4 boot_pwm = Some (1, t)"
    using boot_pwm_init by blast
  from jd_pwm_init_config [OF boot_pwm_start rtranclp.rtrancl_refl t]
  obtain bits dv i where r: "4 \<le> bits" "256 \<le> unat dv" "i < 4" "(1 :: u8) = of_nat i + 1"
      "timers t = (timers (pwm_setup zero_env boot_pwm))[i :=
        \<lparr>tim_num = of_nat i, t_pin = 9, t_bits = of_nat bits, t_div = dv, t_period = 20000\<rparr>]"
    by blast
  with first_id [OF r(3,4)] t show ?thesis
    by (intro exI [of _ t] exI [of _ bits] exI [of _ dv]) simp
qed

text \<open>C25: in every reachable state no two hardware timers drive the same pin, and each timer has its
  own number, so that two outputs never share a timer or a channel.\<close>

theorem pwm_timers_distinct:
  assumes "pwm_start n s" "(pwm_step tgt bit_max env)\<^sup>*\<^sup>* s t" "tim_num (timers t ! 1) = 1"
    and "i < n" "j < n" "t_pin (timers t ! i) = t_pin (timers t ! j)" "t_pin (timers t ! i) \<noteq> 0xff"
  shows "i = j \<and> tim_num (timers t ! i) = of_nat i \<and> length (timers t) = n"
  using pwm_safe.inv_reachable [OF assms(1,2)] assms(3-)
  unfolding pwm_inv_def timers_ok_def by blast

theorem pwm_timers_distinct_witness:
  "\<exists>t. (pwm_step ESP32C3 14 zero_env)\<^sup>*\<^sup>* boot_pwm t \<and> t_pin (timers t ! 0) = 9 \<and> length (timers t) = 4"
proof -
  obtain t where t: "jd_pwm_init ESP32C3 14 zero_env 9 20000 10000 4 boot_pwm = Some (1, t)"
      "t_pin (timers t ! 0) = 9"
    using boot_pwm_init by blast
  then have run: "(pwm_step ESP32C3 14 zero_env)\<^sup>*\<^sup>* boot_pwm t"
    by (intro r_into_rtranclp pwm_step.pwm_init)
  have "timers t = (timers (pwm_setup zero_env boot_pwm))[0 := timers t ! 0]"
  proof -
    have "pwm_inv 4 boot_pwm" using boot_pwm_start by (simp add: pwm_start_def pwm_inv_def)
    from jd_pwm_init_result [OF this t(1)] obtain i where i: "i < 4" "(1 :: u8) = of_nat i + 1"
        "\<exists>x. timers t = (timers (pwm_setup zero_env boot_pwm))[i := x]" by blast
    then have "i = 0" by (intro first_id)
    with i(3) show ?thesis by (auto simp: pwm_setup_def boot_pwm_def zero_timer_def)
  qed
  moreover have "tim_num (timers (pwm_setup zero_env boot_pwm) ! 1) = 1"
    using pwm_setup_ok [of 4 boot_pwm zero_env] boot_pwm_start by (simp add: pwm_start_def pwm_inv_def)
  ultimately have "tim_num (timers t ! 1) = 1" by (metis nth_list_update_neq zero_neq_one)
  from pwm_timers_distinct [OF boot_pwm_start run this, of 0 0] t run show ?thesis by auto
qed

text \<open>The last compare value given to a channel.\<close>

fun last_duty :: "nat \<Rightarrow> io_log \<Rightarrow> u32 option" where
  "last_duty ch [] = None"
| "last_duty ch ((Ledc (LedcDuty c d), a) # l) = (if c = ch then Some d else last_duty ch l)"
| "last_duty ch (_ # l) = last_duty ch l"

text \<open>Setting the duty of a configured output gives its channel the share of the full scale that
  the duty is of the period, cut off at the largest compare value, as long as the 32-bit
  product does not overflow.\<close>

theorem jd_pwm_set_duty_value:
  assumes "0 < pwm_id" "unat pwm_id \<le> length (timers s)"
    and t: "t = timers s ! (unat pwm_id - 1)"
    and "t_period t \<noteq> 0" "unat (t_bits t) < 32" "2 ^ unat (t_bits t) * unat duty < 2 ^ 32"
  shows "\<exists>s' d. jd_pwm_set_duty env pwm_id duty s = Some s' \<and>
    last_duty (unat (tim_num t)) (io s') = Some d \<and>
    unat d = min (2 ^ unat (t_bits t) * unat duty div unat (t_period t)) (2 ^ unat (t_bits t) - 1)"
proof -
  let ?b = "unat (t_bits t)"
  let ?max = "push_bit ?b (1 :: u32)"
  let ?d = "?max * duty div t_period t"
  have max: "unat ?max = 2 ^ ?b"
  proof -
    have "(2 :: nat) ^ ?b < 2 ^ 32" using assms(5) by (intro power_strict_increasing) simp_all
    then show ?thesis by (subst unsigned_push_bit_eq) (simp add: push_bit_eq_mult take_bit_eq_mod)
  qed
  have "unat (?max * duty) = 2 ^ ?b * unat duty"
    using assms(6) max by (simp add: unat_mult_lem [THEN iffD1])
  then have d: "unat ?d = 2 ^ ?b * unat duty div unat (t_period t)"
    by (simp add: unat_div)
  let ?e = "if ?d \<ge> ?max then ?max - 1 else ?d"
  have "1 \<le> ?max" using max by (simp add: word_le_nat_alt)
  then have "unat (?max - 1) = 2 ^ ?b - 1" using max by (simp add: unat_sub)
  then have e: "unat ?e = min (2 ^ ?b * unat duty div unat (t_period t)) (2 ^ ?b - 1)"
    using d max by (auto simp: word_le_nat_alt min_def)
  have t': "timers s ! (unat pwm_id - Suc 0) = t" using t by simp
  let ?ch = "unat (tim_num t)"
  have "jd_pwm_set_duty env pwm_id duty s = Some (emits env
       [Ledc (LedcDuty ?ch ?e), Ledc (LedcDutyDirection ?ch 1), Ledc (LedcDutyNum ?ch 0),
        Ledc (LedcDutyCycle ?ch 0), Ledc (LedcDutyScale ?ch 0), Ledc (LedcChannelUpdate ?ch),
        Ledc (LedcSigOut ?ch True), Ledc (LedcDutyStart ?ch True), Ledc (LedcChannelUpdate ?ch)] s)"
    using assms(1,2,4) by (simp add: jd_pwm_set_duty_def t' Let_def)
  with e show ?thesis by (simp add: emits_Cons io_emit del: push_bit_of_1)
qed


theorem jd_pwm_set_duty_value_witness:
  "\<exists>s' d. jd_pwm_set_duty zero_env 1 5000 (boot_pwm\<lparr>timers := [zero_timer\<lparr>t_bits := 13, t_period := 20000\<rparr>]\<rparr>)
      = Some s' \<and> last_duty 0 (io s') = Some d \<and> unat d = 2048"
  using jd_pwm_set_duty_value [of 1 "boot_pwm\<lparr>timers := [zero_timer\<lparr>t_bits := 13, t_period := 20000\<rparr>]\<rparr>"
      "zero_timer\<lparr>t_bits := 13, t_period := 20000\<rparr>" 5000 zero_env]
  by (simp add: zero_timer_def boot_pwm_def)

end
