(* ===== verification/Logging.thy ===== *)
theory Logging
  imports Sock
begin

text \<open>
  main/dmesg.c: the panic hooks and the optional logging UART. The states of the main program
  form one chain of records, of which this theory adds the statics of dmesg.c.
\<close>

section \<open>State\<close>

text \<open>\<open>log_uart\<close> tells whether the pointer is set; \<open>dmesg_ptr\<close> is a static of \<open>uart_log_dmesg\<close>.\<close>

record logging = sock +
  log_uart :: bool
  dmesg_ptr :: u32
  panic_mode_uart :: bool

definition LOGGING_TX_PIN :: "target \<Rightarrow> nat" where
  "LOGGING_TX_PIN tgt = (if tgt = ESP32C3 then 21 else 43)"

section \<open>Panic hooks\<close>

text \<open>The linker puts \<open>__wrap_f\<close> in the place of \<open>f\<close>; \<open>RealUartWrite\<close> and \<open>RealPanicHandler\<close> are the wrapped
  routines of ESP-IDF. In panic mode a single byte also goes to USB and to the log store.\<close>

definition wrap_uart_hal_write_txfifo :: "env \<Rightarrow> u8 list \<Rightarrow> 'z logging_scheme \<Rightarrow> 'z logging_scheme" where
  "wrap_uart_hal_write_txfifo env buf s =
     (let s1 = emit env (Sys (RealUartWrite buf)) s in
      if length buf = 1 \<and> panic_mode_uart s1
      then emits env [Jd (Jd_usb_panic_char (buf ! 0)), Jd (Jd_lstore_panic_char (buf ! 0))] s1
      else s1)"

definition wrap_panic_restart :: "env \<Rightarrow> 'z logging_scheme \<Rightarrow> 'z logging_scheme" where
  "wrap_panic_restart env s =
     target_reset env (emits env [Jd Jd_lstore_panic_flush, Jd (Jd_usb_panic_char 10)] s)"

text \<open>\<open>store\<close> is the part of the log store that is filled; \<open>red\<close> and \<open>reset\<close> are the colour strings of
  ESP-IDF.\<close>

definition dump_char :: "char \<Rightarrow> call list" where
  "dump_char c =
     (if c = CHR 0x0A then [Sys (PanicPrintChar (CHR 0x0D))] else []) @ [Sys (PanicPrintChar c)]"

definition panic_dump_dmesg ::
    "string \<Rightarrow> string \<Rightarrow> env \<Rightarrow> string \<Rightarrow> 'z logging_scheme \<Rightarrow> 'z logging_scheme" where
  "panic_dump_dmesg red reset env store s =
     (let s1 = emit env (Sys (PanicPrintStr (red @ [CHR 0x0D, CHR 0x0A] @ ''DMESG:'' @ [CHR 0x0D, CHR 0x0A]))) s;
          s2 = emits env (concat (map dump_char store)) s1;
          s3 = emit env (Sys (PanicPrintStr (''END DMESG'' @ [CHR 0x0D, CHR 0x0A] @ ''Int: ''))) s2;
          s4 = emit env (Sys (PanicPrintDec (int_level s3))) s3
      in emit env (Sys (PanicPrintStr ([CHR 0x0D, CHR 0x0A] @ reset))) s4)"

definition wrap_esp_panic_handler ::
    "string \<Rightarrow> string \<Rightarrow> env \<Rightarrow> string \<Rightarrow> 'z logging_scheme \<Rightarrow> 'z logging_scheme" where
  "wrap_esp_panic_handler red reset env store s =
     (let s1 = s\<lparr>panic_mode_uart := True\<rparr>;
          s2 = emit env (Jd Jd_usb_panic_start) s1;
          s3 = panic_dump_dmesg red reset env store s2
      in emit env (Sys RealPanicHandler) s3)"

section \<open>The logging UART\<close>

partial_function (option) uart_log_loop :: "env \<Rightarrow> u8 list \<Rightarrow> 'z logging_scheme \<Rightarrow> 'z logging_scheme option" where
  "uart_log_loop env data s =
     (if data \<noteq> [] then
        let (f, s1) = ext env (Sys LogTxfifoLen) s;
            n = (if a_val f mod 2 ^ 16 > length data then length data else a_val f mod 2 ^ 16);
            s2 = emit env (Sys (LogWrite (take n data))) s1;
            s3 = emit env (Rtos (TaskDelay 1)) s2
        in uart_log_loop env (drop n data) s3
      else Some s)"

definition uart_log_write :: "env \<Rightarrow> u8 list \<Rightarrow> 'z logging_scheme \<Rightarrow> 'z logging_scheme option" where
  "uart_log_write env data s = (if log_uart s then uart_log_loop env data s else Some s)"

text \<open>ESP32 has no logging pin, and the three functions are empty there.\<close>

definition uart_log_init :: "target \<Rightarrow> env \<Rightarrow> 'z logging_scheme \<Rightarrow> 'z logging_scheme" where
  "uart_log_init tgt env s =
     (if tgt = ESP32 then s
      else
        let (p, s1) = ext env (Sys (DcfgPin ''log.pinTX'')) s
        in if a_val p = unat NO_PIN then s1
           else if a_val p = LOGGING_TX_PIN tgt then s1\<lparr>log_uart := True\<rparr>
           else s1)"

partial_function (option) dmesg_loop :: "env \<Rightarrow> 'z logging_scheme \<Rightarrow> 'z logging_scheme option" where
  "dmesg_loop env s =
     (let (f, s1) = ext env (Sys LogTxfifoLen) s in
      if a_val f > 64 then
        let (r, s2) = ext env (Sys (DmesgRead 64 (dmesg_ptr s1))) s1;
            s3 = s2\<lparr>dmesg_ptr := a_ptr r\<rparr>
        in if a_ret r > 0 then do {
             s4 \<leftarrow> uart_log_write env (take (nat (a_ret r)) (a_bytes r)) (emit env (Sys FlushStdout) s3);
             dmesg_loop env s4
           }
           else Some s3
      else Some s1)"

definition uart_log_dmesg :: "target \<Rightarrow> env \<Rightarrow> 'z logging_scheme \<Rightarrow> 'z logging_scheme option" where
  "uart_log_dmesg tgt env s =
     (if tgt = ESP32 \<or> \<not> log_uart s then Some s else dmesg_loop env s)"

section \<open>Everything is written\<close>

text \<open>The bytes given to the logging UART so far, oldest first.\<close>

fun log_written :: "io_log \<Rightarrow> u8 list" where
  "log_written [] = []"
| "log_written ((Sys (LogWrite bs), a) # l) = log_written l @ bs"
| "log_written (_ # l) = log_written l"

text \<open>The FIFO always has room for a byte after a tick.\<close>

definition log_drains :: "env \<Rightarrow> bool" where
  "log_drains env \<longleftrightarrow> (\<forall>l. 0 < a_val (env (Sys LogTxfifoLen) l) mod 2 ^ 16)"

lemma uart_log_loop_writes:
  assumes "log_drains env"
  shows "\<exists>t. uart_log_loop env data s = Some t \<and> log_written (io t) = log_written (io s) @ data"
proof (induction "length data" arbitrary: data s rule: less_induct)
  case less
  show ?case
  proof (cases "data = []")
    case True
    then show ?thesis by (subst uart_log_loop.simps) simp
  next
    case False
    let ?f = "a_val (query env (Sys LogTxfifoLen) s) mod 2 ^ 16"
    let ?n = "if ?f > length data then length data else ?f"
    let ?s3 = "emit env (Rtos (TaskDelay 1)) (emit env (Sys (LogWrite (take ?n data)))
        (emit env (Sys LogTxfifoLen) s))"
    have "0 < ?f" using assms by (simp add: log_drains_def query_def)
    with False have "length (drop ?n data) < length data" by (cases data) auto
    from less [OF this, of ?s3] obtain t where t: "uart_log_loop env (drop ?n data) ?s3 = Some t"
        "log_written (io t) = log_written (io ?s3) @ drop ?n data" by blast
    have "uart_log_loop env data s = uart_log_loop env (drop ?n data) ?s3"
      using False by (subst uart_log_loop.simps) (simp add: Let_def)
    with t show ?thesis by (simp add: io_emit)
  qed
qed

definition boot_logging :: logging where [boot_defs]:
  "boot_logging = sock.extend boot_sock (logging.fields False 0 False)"

declare logging.defs [boot_defs]

end
