(* ===== verification/Flash.thy ===== *)
theory Flash
  imports Logging
begin

text \<open>
  main/flash.c: the storage partition is mapped into memory for reading; erasing and writing
  translate the mapped address back to an address of the flash chip.
\<close>

section \<open>State and operations\<close>

record flash = logging +
  flash_size :: u32
  flash_base :: u32
  flash_offset :: u32

definition JD_FLASH_PAGE_SIZE :: nat where
  "JD_FLASH_PAGE_SIZE = 4096"

text \<open>The partition found: its address and its size; the pointer is NULL when there is none.\<close>

definition flash_init :: "env \<Rightarrow> 'z flash_scheme \<Rightarrow> 'z flash_scheme option" where
  "flash_init env s = do {
     let (p, s1) = ext env (Sys (PartitionFind 0x8A 0x01)) s;
     jd_assert (a_ptr p \<noteq> 0);
     let address = (of_nat (a_list p ! 0) :: u32);
     let size' = (of_nat (a_list p ! 1) :: u32);
     jd_assert (address AND 0xffff = 0);
     jd_assert (size' AND of_nat (JD_FLASH_PAGE_SIZE - 1) = 0);
     let (r, s2) = ext env (Sys (FlashMmap address size')) s1;
     chk (a_ret r);
     Some (s2\<lparr>flash_size := size', flash_base := a_ptr r, flash_offset := address - a_ptr r\<rparr>)
   }"

definition flash_addr :: "u32 \<Rightarrow> 'z flash_scheme \<Rightarrow> u32 option" where
  "flash_addr addr s = do {
     jd_assert (flash_offset s \<noteq> 0);
     Some (addr + flash_offset s)
   }"

definition flash_erase :: "env \<Rightarrow> u32 \<Rightarrow> 'z flash_scheme \<Rightarrow> 'z flash_scheme option" where
  "flash_erase env page_addr s = do {
     a \<leftarrow> flash_addr page_addr s;
     let (r, s1) = ext env (Sys (FlashEraseRegion a (of_nat JD_FLASH_PAGE_SIZE))) s;
     chk (a_ret r);
     Some s1
   }"

definition flash_program :: "env \<Rightarrow> u32 \<Rightarrow> u8 list \<Rightarrow> 'z flash_scheme \<Rightarrow> 'z flash_scheme option" where
  "flash_program env dst src s = do {
     a \<leftarrow> flash_addr dst s;
     let (r, s1) = ext env (Sys (FlashWrite a src)) s;
     chk (a_ret r);
     Some s1
   }"

section \<open>Properties\<close>

text \<open>The partition the hardware reports and the mapping of it.\<close>

definition partition :: "env \<Rightarrow> u32 \<Rightarrow> u32 \<Rightarrow> u32 \<Rightarrow> bool" where
  "partition env address sz base \<longleftrightarrow>
     (\<forall>l. a_ptr (env (Sys (PartitionFind 0x8A 0x01)) l) \<noteq> 0 \<and>
        a_list (env (Sys (PartitionFind 0x8A 0x01)) l) = [unat address, unat sz]) \<and>
     (\<forall>l. a_ret (env (Sys (FlashMmap address sz)) l) = 0 \<and> a_ptr (env (Sys (FlashMmap address sz)) l) = base)"

lemma flash_init_result:
  assumes "partition env address sz base" "flash_init env s = Some t"
  shows "flash_size t = sz \<and> flash_base t = base \<and> flash_offset t = address - base"
proof -
  have "query env (Sys (PartitionFind 0x8A 0x01)) s = env (Sys (PartitionFind 0x8A 0x01)) (io s)"
    by (simp add: query_def)
  then show ?thesis
    using assms by (auto simp: flash_init_def partition_def query_def Let_def split: if_splits)
qed

text \<open>C39: after initialisation, programming or erasing at offset \<open>n\<close> of the mapped partition goes to
  offset \<open>n\<close> of the partition on the chip, whatever the two start addresses are (unless they
  coincide, where both refuse); so nothing within the mapped range can reach flash outside the
  partition.\<close>

theorem flash_address_translation:
  assumes "partition env address sz base" "flash_init env s = Some t" "address \<noteq> base" "n < unat sz"
  shows "flash_addr (flash_base t + of_nat n) t = Some (address + of_nat n) \<and>
    unat ((address + of_nat n) - address) < unat (flash_size t) \<and>
    (\<forall>u. flash_program env (flash_base t + of_nat n) src t = Some u \<longrightarrow>
       hd (io u) = (Sys (FlashWrite (address + of_nat n) src), env (Sys (FlashWrite (address + of_nat n) src)) (io t))) \<and>
    (\<forall>u. flash_erase env (flash_base t + of_nat n) t = Some u \<longrightarrow>
       fst (hd (io u)) = Sys (FlashEraseRegion (address + of_nat n) (of_nat JD_FLASH_PAGE_SIZE)))"
proof -
  note r = flash_init_result [OF assms(1,2)]
  have n: "unat (of_nat n :: u32) = n"
  proof -
    have "unat sz < 2 ^ 32" by (rule order_less_le_trans [OF unsigned_less]) simp
    with assms(4) show ?thesis by (simp add: unat_of_nat take_bit_eq_mod)
  qed
  have a: "flash_addr (flash_base t + of_nat n) t = Some (address + of_nat n)"
    using r assms(3) by (simp add: flash_addr_def)
  then show ?thesis
    using r n assms(4) by (auto simp: flash_program_def flash_erase_def io_emit Let_def split: if_splits)
qed

definition boot_flash :: flash where [boot_defs]:
  "boot_flash = logging.extend boot_logging (flash.fields 0 0 0)"

declare flash.defs [boot_defs]

definition flash_env :: env where
  "flash_env c l = (case c of
      Sys (PartitionFind a b) \<Rightarrow> ans0\<lparr>a_ptr := 0x3FC0, a_list := [0x3E0000, 0x20000]\<rparr>
    | Sys (FlashMmap a b) \<Rightarrow> ans0\<lparr>a_ptr := 0x3C0B0000\<rparr>
    | _ \<Rightarrow> ans0)"

theorem flash_address_translation_witness:
  "\<exists>t. flash_init flash_env boot_flash = Some t \<and>
    flash_addr (flash_base t + of_nat 0x100) t = Some 0x3E0100"
proof -
  have p: "partition flash_env 0x3E0000 0x20000 0x3C0B0000"
    by (simp add: partition_def flash_env_def ans0_def)
  have "\<exists>t. flash_init flash_env boot_flash = Some t"
    by (simp add: flash_init_def flash_env_def ans0_def query_def Let_def JD_FLASH_PAGE_SIZE_def)
  then obtain t where t: "flash_init flash_env boot_flash = Some t" by blast
  from flash_address_translation [OF p t, where n = "0x100" and src = "[]"] t show ?thesis by simp
qed

end
