(* ===== verification/MainTimer.thy ===== *)
theory MainTimer
  imports Flash
begin

text \<open>
  The part of main/main.c that other files call: the wake-up of the main loop and its periodic
  timer.
\<close>

section \<open>State\<close>

text \<open>The statics of main.c; \<open>loop_n\<close> and \<open>max_sleep\<close> are those of \<open>loop_handler\<close> and
  \<open>sync_main_loop_timer\<close>.\<close>

record main_state = flash +
  main_worker :: u32
  main_task :: u32
  loop_pending :: bool
  tim_max_sleep :: u16
  max_sleep :: u16
  loop_n :: int

section \<open>Operations\<close>

definition sync_main_loop_timer :: "env \<Rightarrow> 'z main_state_scheme \<Rightarrow> 'z main_state_scheme option" where
  "sync_main_loop_timer env s =
     (let s1 = (if tim_max_sleep s = 0 then s\<lparr>tim_max_sleep := 10000\<rparr> else s) in
      if max_sleep s1 \<noteq> tim_max_sleep s1 then do {
        let s2 = emit env (Sys (TimerStop T_main_loop)) s1;
        let s3 = s2\<lparr>max_sleep := tim_max_sleep s2\<rparr>;
        let (r, s4) = ext env (Sys (TimerStartPeriodic T_main_loop (unat (max_sleep s3)))) s3;
        chk (a_ret r);
        Some s4
      }
      else Some s1)"

definition target_in_irq :: "env \<Rightarrow> 'z main_state_scheme \<Rightarrow> bool \<times> 'z main_state_scheme" where
  "target_in_irq env s =
     (if main_task s = 0 then (False, s)
      else let (r, s1) = ext env (Rtos CurrentTask) s in (a_ptr r \<noteq> main_task s, s1))"

text \<open>The result of \<open>esp_event_post\<close> is ignored.\<close>

definition post_loop :: "env \<Rightarrow> 'z main_state_scheme \<Rightarrow> 'z main_state_scheme" where
  "post_loop env s =
     (if \<not> loop_pending s then emit env (Sys EventPost) (s\<lparr>loop_pending := True\<rparr>) else s)"

definition jdesp_wake_main :: "env \<Rightarrow> 'z main_state_scheme \<Rightarrow> 'z main_state_scheme" where
  "jdesp_wake_main env s = post_loop env s"

definition jd_usb_flush_stdout :: "env \<Rightarrow> 'z main_state_scheme \<Rightarrow> 'z main_state_scheme" where
  "jd_usb_flush_stdout env s = emit env (Sys FlushStdout) s"

lemma main_emit [simp]:
  "loop_pending (emit env c s) = loop_pending s" "main_task (emit env c s) = main_task s"
  "main_worker (emit env c s) = main_worker s" "tim_max_sleep (emit env c s) = tim_max_sleep s"
  "max_sleep (emit env c s) = max_sleep s" "loop_n (emit env c s) = loop_n s"
  by (simp_all add: emit_def)

section \<open>Properties\<close>

text \<open>The period that the main loop timer runs with, read off the history; \<open>None\<close> while stopped.\<close>

fun loop_period :: "io_log \<Rightarrow> nat option" where
  "loop_period [] = None"
| "loop_period ((Sys (TimerStop t), a) # l) = (if t = T_main_loop then None else loop_period l)"
| "loop_period ((Sys (TimerStartPeriodic t n), a) # l) =
     (if t = T_main_loop \<and> a_ret a = 0 then Some n else loop_period l)"
| "loop_period (_ # l) = loop_period l"

text \<open>Whenever synchronising returns, the timer of the main loop runs with the requested period, 10000
  microseconds when none was requested, provided it ran with the period last recorded; and the
  timer is restarted only when the period changes.\<close>

theorem sync_main_loop_timer_period:
  assumes "sync_main_loop_timer env s = Some t"
    and "max_sleep s \<noteq> 0 \<longrightarrow> loop_period (io s) = Some (unat (max_sleep s))"
  shows "loop_period (io t) = Some (unat (tim_max_sleep t)) \<and> tim_max_sleep t \<noteq> 0 \<and>
    max_sleep t = tim_max_sleep t \<and> (tim_max_sleep s = 0 \<longrightarrow> tim_max_sleep t = 10000) \<and>
    (tim_max_sleep s \<noteq> 0 \<longrightarrow> tim_max_sleep t = tim_max_sleep s) \<and>
    (max_sleep s = tim_max_sleep s \<and> max_sleep s \<noteq> 0 \<longrightarrow> io t = io s)"
  using assms by (auto simp: sync_main_loop_timer_def io_emit query_def Let_def split: if_splits)

definition boot_main :: main_state where [boot_defs]:
  "boot_main = flash.extend boot_flash (main_state.fields 4 0 False 0 0 0)"

declare main_state.defs [boot_defs]

theorem sync_main_loop_timer_period_witness:
  "\<exists>t. sync_main_loop_timer (queue_env 20) boot_main = Some t \<and> loop_period (io t) = Some 10000"
proof -
  have "\<exists>t. sync_main_loop_timer (queue_env 20) boot_main = Some t"
    by (simp add: sync_main_loop_timer_def boot_defs query_def ans0_def Let_def)
  then obtain t where t: "sync_main_loop_timer (queue_env 20) boot_main = Some t" by blast
  from sync_main_loop_timer_period [OF t] t show ?thesis by (auto simp: boot_defs)
qed

end
