(* ===== verification/Usb.thy ===== *)
theory Usb
  imports MainTimer Drivers
begin

text \<open>
  main/usb.c: the byte stream between jacdac-c and the host. The file has one implementation for
  ESP32-S2 and S3 (TinyUSB), one for ESP32-C3 (the serial JTAG unit) and one for ESP32 (a UART);
  functions that have the same name in several of them carry the chip as a suffix here, and
  \<open>usb_init\<close>, \<open>usb_pre_init\<close> and \<open>jd_usb_pull_ready\<close> choose by chip.

  \<open>jd_usb_pull\<close> and \<open>jd_usb_push\<close>, the ends of the stream in jacdac-c, are recorded as calls; they are
  taken not to call this file again. \<open>flen\<close> is \<open>UART_FIFO_LEN\<close>.
\<close>

section \<open>State\<close>

record usb = main_state +
  usb_connected :: bool
  fq_scheduled :: bool
  usb_uart :: u32

lemma usb_emit [simp]:
  "usb_connected (emit env c s) = usb_connected s" "fq_scheduled (emit env c s) = fq_scheduled s"
  "usb_uart (emit env c s) = usb_uart s"
  by (simp_all add: emit_def)

section \<open>ESP32-S2 and ESP32-S3\<close>

partial_function (option) fill_queue_loop :: "env \<Rightarrow> 'z usb_scheme \<Rightarrow> 'z usb_scheme option" where
  "fill_queue_loop env s =
     (let (n, s1) = ext env (Usb CdcWriteAvailable) s in
      if a_val n \<ge> 64 then
        let (r, s2) = ext env (Usb (UsbPull 64)) s1; sz = a_ret r in
        if sz > 0 then
          fill_queue_loop env (emits env [Usb (CdcWriteQueue (take (nat sz) (a_bytes r))), Usb CdcWriteFlush] s2)
        else Some s2
      else Some s1)"

definition fill_queue :: "env \<Rightarrow> 'z usb_scheme \<Rightarrow> 'z usb_scheme option" where
  "fill_queue env s = fill_queue_loop env (s\<lparr>fq_scheduled := False\<rparr>)"

text \<open>The result of \<open>tim_worker_run\<close> is ignored.\<close>

definition jd_usb_pull_ready_s3 :: "env \<Rightarrow> 'z usb_scheme \<Rightarrow> 'z usb_scheme" where
  "jd_usb_pull_ready_s3 env s =
     (if \<not> fq_scheduled s then snd (tim_worker_run env Fn_fill_queue Arg_null (s\<lparr>fq_scheduled := True\<rparr>))
      else s)"

definition tud_cdc_tx_complete_cb :: "env \<Rightarrow> 'z usb_scheme \<Rightarrow> 'z usb_scheme" where
  "tud_cdc_tx_complete_cb env s = jd_usb_pull_ready_s3 env s"

partial_function (option) cdc_read_loop :: "env \<Rightarrow> 'z usb_scheme \<Rightarrow> 'z usb_scheme option" where
  "cdc_read_loop env s =
     (let (r, s1) = ext env (Usb (CdcRead 64)) s; rx_size = a_val r in
      if a_ret r \<ge> 0 \<and> rx_size > 0
      then cdc_read_loop env (emit env (Usb (UsbPush (take rx_size (a_bytes r)))) s1)
      else Some s1)"

definition on_cdc_rx :: "env \<Rightarrow> 'z usb_scheme \<Rightarrow> 'z usb_scheme option" where
  "on_cdc_rx env s = do { s1 \<leftarrow> cdc_read_loop env s; Some (jdesp_wake_main env s1) }"

definition on_cdc_line_state_changed :: "bool \<Rightarrow> bool \<Rightarrow> 'z usb_scheme \<Rightarrow> 'z usb_scheme" where
  "on_cdc_line_state_changed dtr rts s = s\<lparr>usb_connected := dtr \<and> rts\<rparr>"

text \<open>\<open>snprintf (\<dots>, ''%02X'', b)\<close>.\<close>

definition hex_digit :: "nat \<Rightarrow> char" where
  "hex_digit n = ''0123456789ABCDEF'' ! n"

definition hex2 :: "u8 \<Rightarrow> string" where
  "hex2 b = [hex_digit (unat b div 16), hex_digit (unat b mod 16)]"

definition mac_hex :: "u8 list \<Rightarrow> string" where
  "mac_hex mac = ''JD'' @ concat (map (\<lambda>i. hex2 (mac ! i)) [0..<6])"

definition usb_init_s3 :: "env \<Rightarrow> 'z usb_scheme \<Rightarrow> 'z usb_scheme option" where
  "usb_init_s3 env s = do {
     let (m, s1) = ext env (Sys MacDefault) s;
     let (r, s2) = ext env (Usb (TinyusbInstall (mac_hex (a_bytes m)))) s1;
     chk (a_ret r);
     let (r, s3) = ext env (Usb (CdcAcmInit 64)) s2;
     chk (a_ret r);
     Some s3
   }"

section \<open>ESP32-C3\<close>

definition fill_buffer_c3 :: "env \<Rightarrow> 'z usb_scheme \<Rightarrow> 'z usb_scheme" where
  "fill_buffer_c3 env s =
     (let (r, s1) = ext env (Usb (UsbPull 64)) s; len = a_ret r in
      if len > 0 then
        emits env [Usb (JtagWriteTxfifo (take (nat len) (a_bytes r))), Usb JtagTxFlush,
                   Usb (JtagClr {SERIAL_IN_EMPTY}), Usb (JtagEna {SERIAL_IN_EMPTY})] s1
      else
        emits env [Usb (JtagClr {SERIAL_IN_EMPTY}), Usb (JtagDisable {SERIAL_IN_EMPTY})] s1)"

definition jd_usb_pull_ready_c3 :: "env \<Rightarrow> 'z usb_scheme \<Rightarrow> 'z usb_scheme" where
  "jd_usb_pull_ready_c3 env s =
     (let s1 = target_disable_irq env s;
          (w, s2) = ext env (Usb JtagTxWritable) s1;
          s3 = (if a_val w \<noteq> 0 then fill_buffer_c3 env s2 else s2)
      in target_enable_irq env s3)"

definition usb_serial_jtag_isr_handler :: "env \<Rightarrow> 'z usb_scheme \<Rightarrow> 'z usb_scheme" where
  "usb_serial_jtag_isr_handler env s =
     (let (r, s1) = ext env (Usb JtagSt) s; st = a_jtag r;
          s3 = (if SERIAL_IN_EMPTY \<in> st then
                  let (w, s2) = ext env (Usb JtagTxWritable) s1 in
                  if a_val w \<noteq> 0 then fill_buffer_c3 env s2
                  else emit env (Usb (JtagClr {SERIAL_IN_EMPTY})) s2
                else s1)
      in if SERIAL_OUT_RECV_PKT \<in> st then
           let (d, s4) = ext env (Usb (JtagReadRxfifo 64)) s3;
               s5 = emits env [Usb (JtagClr {SERIAL_OUT_RECV_PKT}), Usb (JtagEna {SERIAL_OUT_RECV_PKT})] s4
           in if a_val d \<noteq> 0 then emit env (Usb (UsbPush (take (a_val d) (a_bytes d)))) s5 else s5
         else s3)"

definition usb_init_c3 :: "env \<Rightarrow> 'z usb_scheme \<Rightarrow> 'z usb_scheme option" where
  "usb_init_c3 env s = do {
     let s1 = emits env [Usb (JtagClr {SERIAL_IN_EMPTY, SERIAL_OUT_RECV_PKT}),
                         Usb (JtagEna {SERIAL_IN_EMPTY, SERIAL_OUT_RECV_PKT})] s;
     let (r, s2) = ext env (Usb JtagIntrAlloc) s1;
     chk (a_ret r);
     Some s2
   }"

section \<open>ESP32\<close>

text \<open>A negative length would make the write run off the buffer, which has no outcome here.\<close>

definition fill_buffer_esp32 :: "nat \<Rightarrow> env \<Rightarrow> 'z usb_scheme \<Rightarrow> 'z usb_scheme option" where
  "fill_buffer_esp32 flen env s = do {
     deref (usb_uart s);
     let (c, s1) = ext env (Usb UsbTxfifoCnt) s;
     if int flen - int (a_val c) < 64 then Some s1
     else do {
       let (r, s2) = ext env (Usb (UsbPull 64)) s1;
       if a_ret r < 0 then None
       else if a_ret r \<noteq> 0 then
         Some (emits env [Usb (UsbWriteTxfifo (take (nat (a_ret r)) (a_bytes r))), Usb UsbClrTxEmpty,
                          Usb (UsbThrhd 32), Usb (UsbEnaTxEmpty True)] s2)
       else Some (emits env [Usb UsbClrTxEmpty, Usb (UsbEnaTxEmpty False)] s2)
     }
   }"

partial_function (option) usb_read_fifo :: "env \<Rightarrow> 'z usb_scheme \<Rightarrow> 'z usb_scheme option" where
  "usb_read_fifo env s = do {
     deref (usb_uart s);
     let (c, s1) = ext env (Usb UsbRxfifoCnt) s;
     (if a_val c \<noteq> 0 then
        let n = (if a_val c > 64 then 64 else a_val c);
            (d, s2) = ext env (Usb (UsbReadRxfifo n)) s1
        in usb_read_fifo env (emit env (Usb (UsbPush (take n (a_bytes d)))) s2)
      else Some s1)
   }"

definition usb_uart_isr :: "nat \<Rightarrow> env \<Rightarrow> 'z usb_scheme \<Rightarrow> 'z usb_scheme option" where
  "usb_uart_isr flen env s = do {
     deref (usb_uart s);
     let (st, s1) = ext env (Usb UsbIntSt) s;
     s2 \<leftarrow> usb_read_fifo env s1;
     s3 \<leftarrow> fill_buffer_esp32 flen env s2;
     Some (emit env (Usb (UsbIntClr (a_val st))) s3)
   }"

definition jd_usb_pull_ready_esp32 :: "nat \<Rightarrow> env \<Rightarrow> 'z usb_scheme \<Rightarrow> 'z usb_scheme option" where
  "jd_usb_pull_ready_esp32 flen env s = do {
     s1 \<leftarrow> fill_buffer_esp32 flen env (target_disable_irq env s);
     Some (target_enable_irq env s1)
   }"

definition usb_init_esp32 :: "env \<Rightarrow> 'z usb_scheme \<Rightarrow> 'z usb_scheme option" where
  "usb_init_esp32 env s = do {
     let (h, s1) = ext env (Usb (UsbUartHw 1)) s;
     let s2 = emit env (Usb (UsbModuleEnable 1)) (s1\<lparr>usb_uart := a_ptr h\<rparr>);
     let (r, s3) = ext env (Usb (UsbParamConfig 1500000)) s2;
     chk (a_ret r);
     let (r, s4) = ext env (Usb (UsbIntrAlloc 1)) s3;
     chk (a_ret r);
     let (r, s5) = ext env (Usb (UsbSetPin 1 1 3)) s4;
     chk (a_ret r);
     let (r, s6) = ext env (Usb (UsbIntrConfig 1)) s5;
     chk (a_ret r);
     Some s6
   }"

definition jd_usb_process :: "nat \<Rightarrow> env \<Rightarrow> 'z usb_scheme \<Rightarrow> 'z usb_scheme option" where
  "jd_usb_process flen env s = do { s1 \<leftarrow> usb_read_fifo env s; jd_usb_pull_ready_esp32 flen env s1 }"

section \<open>The choice by chip\<close>

definition usb_pre_init :: "target \<Rightarrow> env \<Rightarrow> 'z usb_scheme \<Rightarrow> 'z usb_scheme" where
  "usb_pre_init tgt env s = (if tgt = ESP32C3 then emit env (Usb BbpllEnUsb) s else s)"

definition usb_init :: "target \<Rightarrow> env \<Rightarrow> 'z usb_scheme \<Rightarrow> 'z usb_scheme option" where
  "usb_init tgt env s =
     (case tgt of ESP32 \<Rightarrow> usb_init_esp32 env s | ESP32C3 \<Rightarrow> usb_init_c3 env s | _ \<Rightarrow> usb_init_s3 env s)"

definition jd_usb_pull_ready :: "target \<Rightarrow> nat \<Rightarrow> env \<Rightarrow> 'z usb_scheme \<Rightarrow> 'z usb_scheme option" where
  "jd_usb_pull_ready tgt flen env s =
     (case tgt of
        ESP32 \<Rightarrow> jd_usb_pull_ready_esp32 flen env s
      | ESP32C3 \<Rightarrow> Some (jd_usb_pull_ready_c3 env s)
      | _ \<Rightarrow> Some (jd_usb_pull_ready_s3 env s))"

section \<open>The stream\<close>

text \<open>The bytes taken from jacdac-c so far, and the bytes handed to the host, oldest first.\<close>

fun pulled :: "io_log \<Rightarrow> u8 list" where
  "pulled [] = []"
| "pulled ((Usb (UsbPull n), a) # l) = pulled l @ a_bytes a"
| "pulled (_ # l) = pulled l"

fun sent_to_host :: "io_log \<Rightarrow> u8 list" where
  "sent_to_host [] = []"
| "sent_to_host ((Usb (CdcWriteQueue bs), a) # l) = sent_to_host l @ bs"
| "sent_to_host ((Usb (JtagWriteTxfifo bs), a) # l) = sent_to_host l @ bs"
| "sent_to_host ((Usb (UsbWriteTxfifo bs), a) # l) = sent_to_host l @ bs"
| "sent_to_host (_ # l) = sent_to_host l"

text \<open>\<open>jd_usb_pull\<close> hands out the bytes of a pending stream \<open>data\<close>, at most 64 at a time, each once.\<close>

definition usb_source :: "env \<Rightarrow> u8 list \<Rightarrow> bool" where
  "usb_source env data \<longleftrightarrow>
     (\<forall>l. a_bytes (env (Usb (UsbPull 64)) l) = take 64 (drop (length (pulled l)) data) \<and>
        a_ret (env (Usb (UsbPull 64)) l) = int (length (take 64 (drop (length (pulled l)) data))))"

lemma usb_sourceD:
  assumes "usb_source env data"
  shows "a_bytes (query env (Usb (UsbPull 64)) s) = take 64 (drop (length (pulled (io s))) data)"
    and "a_ret (query env (Usb (UsbPull 64)) s) = int (length (take 64 (drop (length (pulled (io s))) data)))"
  using assms by (simp_all add: usb_source_def query_def)

text \<open>The loop stops for one of two reasons, which its last call tells.\<close>

definition stopped :: "u8 list \<Rightarrow> io_log \<Rightarrow> bool" where
  "stopped data l \<longleftrightarrow> length data \<le> length (pulled l) \<or>
     (\<exists>a l'. l = (Usb CdcWriteAvailable, a) # l' \<and> a_val a < 64)"

lemma fill_queue_loop_drains:
  assumes "usb_source env data" "pulled (io s) = take (length (pulled (io s))) data"
    and "sent_to_host (io s) = base @ pulled (io s)"
  shows "\<exists>t. fill_queue_loop env s = Some t \<and> fq_scheduled t = fq_scheduled s \<and>
    sent_to_host (io t) = base @ pulled (io t) \<and> pulled (io t) = take (length (pulled (io t))) data \<and>
    stopped data (io t)"
  using assms(2,3)
proof (induction "length data - length (pulled (io s))" arbitrary: s rule: less_induct)
  case less
  let ?n = "length (pulled (io s))"
  let ?chunk = "take 64 (drop ?n data)"
  let ?s1 = "emit env (Usb CdcWriteAvailable) s"
  let ?s2 = "emit env (Usb (UsbPull 64)) ?s1"
  let ?s3 = "emits env [Usb (CdcWriteQueue ?chunk), Usb CdcWriteFlush] ?s2"
  have p1: "pulled (io ?s1) = pulled (io s)" by (simp add: io_emit)
  note src = usb_sourceD [OF assms(1), of ?s1, unfolded p1]
  have src': "a_bytes (env (Usb (UsbPull 64)) (io ?s1)) = ?chunk"
    using src(1) by (simp add: query_def)
  have pre: "pulled (io s) @ ?chunk = take (?n + length ?chunk) data"
  proof -
    have "take (length ?chunk) (drop ?n data) = ?chunk" by (simp add: min_def)
    then have "take (?n + length ?chunk) data = take ?n data @ ?chunk" by (simp only: take_add)
    then show ?thesis using less.prems(1) by metis
  qed
  show ?case
  proof (cases "a_val (query env (Usb CdcWriteAvailable) s) \<ge> 64")
    case False
    then have "fill_queue_loop env s = Some ?s1"
      by (subst fill_queue_loop.simps) simp
    with False less.prems show ?thesis
      by (intro exI [of _ ?s1]) (auto simp: stopped_def io_emit query_def)
  next
    case avail: True
    show ?thesis
    proof (cases "?n < length data")
      case False
      then have "fill_queue_loop env s = Some ?s2"
        using avail src by (subst fill_queue_loop.simps) simp
      with False less.prems src' show ?thesis
        by (intro exI [of _ ?s2]) (auto simp: stopped_def io_emit)
    next
      case True
      have "take (min (length data - ?n) 64) (drop ?n data) = ?chunk" by (simp add: min_def)
      then have unf: "fill_queue_loop env s = fill_queue_loop env ?s3"
        using avail True src by (subst fill_queue_loop.simps) simp
      have p3: "pulled (io ?s3) = pulled (io s) @ ?chunk"
        using src' by (simp add: emits_Cons io_emit)
      have "sent_to_host (io ?s3) = base @ pulled (io ?s3)"
        unfolding p3 using less.prems(2) by (simp add: emits_Cons io_emit)
      moreover have "pulled (io ?s3) = take (length (pulled (io ?s3))) data"
        unfolding p3 length_append by (rule pre)
      moreover have "length data - length (pulled (io ?s3)) < length data - ?n"
        unfolding p3 using True by simp
      ultimately have "\<exists>t. fill_queue_loop env ?s3 = Some t \<and> fq_scheduled t = fq_scheduled ?s3 \<and>
          sent_to_host (io t) = base @ pulled (io t) \<and> pulled (io t) = take (length (pulled (io t))) data \<and>
          stopped data (io t)"
        by (intro less.hyps)
      then show ?thesis unfolding unf by (simp add: emits_Cons)
    qed
  qed
qed

section \<open>The invariant of the stream\<close>

text \<open>What has reached the host is what was pulled, a prefix of the stream.\<close>

definition usb_stream :: "u8 list \<Rightarrow> 'z usb_scheme \<Rightarrow> bool" where
  "usb_stream data s \<longleftrightarrow> sent_to_host (io s) = pulled (io s) \<and> pulled (io s) = take (length (pulled (io s))) data"

text \<open>Only pulls and writes matter to it.\<close>

lemma usb_stream_io: "io t = io s \<Longrightarrow> usb_stream data t = usb_stream data s"
  for s t :: "'z usb_scheme"
  by (simp add: usb_stream_def)

text \<open>A pull whose bytes are written at once, with any other calls that neither pull nor write after it.\<close>

lemma usb_stream_pull:
  assumes "usb_source env data" "usb_stream data s"
    and "pulled (io t) = pulled (io s) @ a_bytes (query env (Usb (UsbPull 64)) s)"
    and "sent_to_host (io t) = sent_to_host (io s) @
      take (nat (a_ret (query env (Usb (UsbPull 64)) s))) (a_bytes (query env (Usb (UsbPull 64)) s))"
  shows "usb_stream data t"
proof -
  let ?n = "length (pulled (io s))"
  let ?chunk = "take 64 (drop ?n data)"
  note src = usb_sourceD [OF assms(1), of s]
  have c: "take (length ?chunk) (drop ?n data) = ?chunk" by (simp add: min_def)
  then have "take (?n + length ?chunk) data = take ?n data @ ?chunk" by (simp only: take_add)
  moreover have "pulled (io t) = pulled (io s) @ ?chunk" using assms(3) src by simp
  moreover have "sent_to_host (io t) = sent_to_host (io s) @ ?chunk" using assms(4) src c by simp
  ultimately show ?thesis using assms(2) unfolding usb_stream_def by (metis length_append)
qed

lemma usb_stream_fill_queue:
  assumes "usb_source env data" "usb_stream data s"
  shows "\<exists>t. fill_queue env s = Some t \<and> \<not> fq_scheduled t \<and> usb_stream data t \<and> stopped data (io t)"
  using fill_queue_loop_drains [OF assms(1), of "s\<lparr>fq_scheduled := False\<rparr>" "[]"] assms(2)
  by (auto simp: fill_queue_def usb_stream_def)

lemma usb_stream_cdc_read_loop:
  assumes "cdc_read_loop env s = Some t" "usb_stream data s"
  shows "usb_stream data t"
proof (rule cdc_read_loop.raw_induct
    [where P = "\<lambda>env s t. usb_stream data s \<longrightarrow> usb_stream data t", OF _ assms(1), rule_format, OF _ assms(2)])
  fix f env and s t :: "'a usb_scheme"
  assume IH: "\<And>env s t. f env s = Some t \<Longrightarrow> usb_stream data s \<Longrightarrow> usb_stream data t"
    and eq: "(let (r, s1) = ext env (Usb (CdcRead 64)) s; rx_size = a_val r in
      if a_ret r \<ge> 0 \<and> rx_size > 0
      then f env (emit env (Usb (UsbPush (take rx_size (a_bytes r)))) s1)
      else Some s1) = Some t"
    and inv: "usb_stream data s"
  from inv have "usb_stream data (emit env (Usb (CdcRead 64)) s)"
      "usb_stream data (emit env (Usb (UsbPush bs)) (emit env (Usb (CdcRead 64)) s))" for bs
    by (simp_all add: usb_stream_def io_emit)
  with eq IH show "usb_stream data t" by (auto simp: Let_def split: if_splits)
qed

lemma usb_stream_read_fifo:
  assumes "usb_read_fifo env s = Some t" "usb_stream data s"
  shows "usb_stream data t"
proof (rule usb_read_fifo.raw_induct
    [where P = "\<lambda>env s t. usb_stream data s \<longrightarrow> usb_stream data t", OF _ assms(1), rule_format, OF _ assms(2)])
  fix f env and s t :: "'a usb_scheme"
  assume IH: "\<And>env s t. f env s = Some t \<Longrightarrow> usb_stream data s \<Longrightarrow> usb_stream data t"
    and eq: "do {
     deref (usb_uart s);
     let (c, s1) = ext env (Usb UsbRxfifoCnt) s;
     (if a_val c \<noteq> 0 then
        let n = (if a_val c > 64 then 64 else a_val c);
            (d, s2) = ext env (Usb (UsbReadRxfifo n)) s1
        in f env (emit env (Usb (UsbPush (take n (a_bytes d)))) s2)
      else Some s1)
   } = Some t"
    and inv: "usb_stream data s"
  from inv have "usb_stream data (emit env (Usb UsbRxfifoCnt) s)"
      "usb_stream data (emit env (Usb (UsbPush bs)) (emit env (Usb (UsbReadRxfifo n)) (emit env (Usb UsbRxfifoCnt) s)))" for bs n
    by (simp_all add: usb_stream_def io_emit)
  with eq IH show "usb_stream data t" by (auto simp: Let_def split: if_splits)
qed

lemma usb_stream_fill_buffer_c3:
  assumes "usb_source env data" "usb_stream data s"
  shows "usb_stream data (fill_buffer_c3 env s)"
  by (rule usb_stream_pull [OF assms])
     (use usb_sourceD [OF assms(1), of s] in \<open>auto simp: fill_buffer_c3_def emits_Cons io_emit query_def Let_def\<close>)

lemma usb_stream_fill_buffer_esp32:
  assumes "usb_source env data" "usb_stream data s" "fill_buffer_esp32 flen env s = Some t"
  shows "usb_stream data t"
proof (cases "int flen - int (a_val (query env (Usb UsbTxfifoCnt) s)) < 64")
  case True
  with assms(2,3) show ?thesis
    by (auto simp: fill_buffer_esp32_def usb_stream_def io_emit split: if_splits)
next
  case False
  let ?s1 = "emit env (Usb UsbTxfifoCnt) s"
  have "usb_stream data ?s1" using assms(2) by (simp add: usb_stream_def io_emit)
  then show ?thesis
    by (rule usb_stream_pull [OF assms(1)])
       (use False assms(3) usb_sourceD [OF assms(1), of ?s1] in
         \<open>auto simp: fill_buffer_esp32_def emits_Cons io_emit query_def Let_def split: if_splits\<close>)
qed

section \<open>Everything the file can do\<close>

lemma usb_stream_irq:
  "usb_stream data (target_disable_irq env s) = usb_stream data s"
  "usb_stream data (target_enable_irq env s) = usb_stream data s"
  for s :: "'z usb_scheme"
  by (simp_all add: usb_stream_def target_disable_irq_def target_enable_irq_def io_emit Let_def)

lemma usb_stream_emit:
  fixes s :: "'z usb_scheme"
  assumes "\<And>a l. pulled ((c, a) # l) = pulled l" "\<And>a l. sent_to_host ((c, a) # l) = sent_to_host l"
  shows "usb_stream data (emit env c s) = usb_stream data s"
  using assms by (simp add: usb_stream_def io_emit)

inductive usb_step :: "target \<Rightarrow> nat \<Rightarrow> env \<Rightarrow> 'z usb_scheme \<Rightarrow> 'z usb_scheme \<Rightarrow> bool"
  for tgt :: target and flen :: nat and env :: env where
  pull_ready: "jd_usb_pull_ready tgt flen env s = Some t \<Longrightarrow> usb_step tgt flen env s t"
| tx_complete: "tgt = ESP32S2 \<or> tgt = ESP32S3 \<Longrightarrow> usb_step tgt flen env s (tud_cdc_tx_complete_cb env s)"
| fill: "tgt = ESP32S2 \<or> tgt = ESP32S3 \<Longrightarrow> fill_queue env s = Some t \<Longrightarrow> usb_step tgt flen env s t"
| cdc_rx: "tgt = ESP32S2 \<or> tgt = ESP32S3 \<Longrightarrow> on_cdc_rx env s = Some t \<Longrightarrow> usb_step tgt flen env s t"
| line_state: "tgt = ESP32S2 \<or> tgt = ESP32S3 \<Longrightarrow>
    usb_step tgt flen env s (on_cdc_line_state_changed dtr rts s)"
| jtag_isr: "tgt = ESP32C3 \<Longrightarrow> usb_step tgt flen env s (usb_serial_jtag_isr_handler env s)"
| uart_interrupt: "tgt = ESP32 \<Longrightarrow> usb_uart_isr flen env s = Some t \<Longrightarrow> usb_step tgt flen env s t"
| process: "tgt = ESP32 \<Longrightarrow> jd_usb_process flen env s = Some t \<Longrightarrow> usb_step tgt flen env s t"

inductive_cases usb_stepE: "usb_step tgt flen env s t"

lemma usb_stream_tx_complete: "usb_stream data s \<Longrightarrow> usb_stream data (jd_usb_pull_ready_s3 env s)"
  by (simp add: jd_usb_pull_ready_s3_def tim_worker_run_def worker_run_def emits_Cons usb_stream_def io_emit Let_def)

lemma usb_stream_pull_ready:
  assumes "usb_source env data" "usb_stream data s" "jd_usb_pull_ready tgt flen env s = Some t"
  shows "usb_stream data t"
proof (cases tgt)
  case ESP32
  with assms show ?thesis
    by (auto simp: jd_usb_pull_ready_def jd_usb_pull_ready_esp32_def usb_stream_irq
        dest!: usb_stream_fill_buffer_esp32 [OF assms(1), rotated])
next
  case ESP32C3
  have "usb_stream data (emit env (Usb JtagTxWritable) (target_disable_irq env s))"
    using assms(2) by (simp add: usb_stream_emit usb_stream_irq)
  with assms ESP32C3 show ?thesis
    by (auto simp: jd_usb_pull_ready_def jd_usb_pull_ready_c3_def usb_stream_irq Let_def
        intro: usb_stream_fill_buffer_c3)
qed (use assms usb_stream_tx_complete in \<open>auto simp: jd_usb_pull_ready_def\<close>)

lemma usb_stream_jtag_isr:
  assumes "usb_source env data" "usb_stream data s"
  shows "usb_stream data (usb_serial_jtag_isr_handler env s)"
proof -
  let ?s1 = "emit env (Usb JtagSt) s"
  let ?s2 = "emit env (Usb JtagTxWritable) ?s1"
  have s: "usb_stream data ?s1" "usb_stream data ?s2"
    using assms(2) by (simp_all add: usb_stream_emit)
  then have "usb_stream data (fill_buffer_c3 env ?s2)"
    by (intro usb_stream_fill_buffer_c3 [OF assms(1)])
  with s show ?thesis
    by (simp add: usb_serial_jtag_isr_handler_def usb_stream_emit emits_Cons Let_def)
qed

lemma usb_stream_uart_isr:
  assumes "usb_source env data" "usb_stream data s" "usb_uart_isr flen env s = Some t"
  shows "usb_stream data t"
proof -
  have "usb_stream data (emit env (Usb UsbIntSt) s)" using assms(2) by (simp add: usb_stream_emit)
  with assms(3) show ?thesis
    by (auto simp: usb_uart_isr_def usb_stream_emit split: if_splits
        dest!: usb_stream_read_fifo [where data = data] usb_stream_fill_buffer_esp32 [OF assms(1), rotated])
qed

lemma usb_step_stream:
  assumes "usb_source env data" "usb_step tgt flen env s t" "usb_stream data s"
  shows "usb_stream data t"
  using assms(2)
proof cases
  case pull_ready
  with assms show ?thesis by (blast intro: usb_stream_pull_ready)
next
  case tx_complete
  with assms show ?thesis by (simp add: tud_cdc_tx_complete_cb_def usb_stream_tx_complete)
next
  case fill
  with usb_stream_fill_queue [OF assms(1,3)] show ?thesis by auto
next
  case cdc_rx
  with assms(3) show ?thesis
    by (auto simp: on_cdc_rx_def jdesp_wake_main_def post_loop_def usb_stream_emit
        dest!: usb_stream_cdc_read_loop [where data = data] simp: usb_stream_def io_emit)
next
  case line_state
  with assms(3) show ?thesis by (simp add: on_cdc_line_state_changed_def usb_stream_def)
next
  case jtag_isr
  with assms show ?thesis by (simp add: usb_stream_jtag_isr)
next
  case uart_interrupt
  with assms show ?thesis by (blast intro: usb_stream_uart_isr)
next
  case process
  with assms(3) obtain s1 where "usb_read_fifo env s = Some s1" "jd_usb_pull_ready_esp32 flen env s1 = Some t"
    by (auto simp: jd_usb_process_def)
  moreover from this assms(3) have "usb_stream data s1" by (blast intro: usb_stream_read_fifo)
  ultimately show ?thesis
    using usb_stream_pull_ready [OF assms(1), of s1 ESP32 flen t] by (simp add: jd_usb_pull_ready_def)
qed

definition usb_inv :: "env \<Rightarrow> u8 list \<Rightarrow> 'z usb_scheme \<Rightarrow> bool" where
  "usb_inv env data s \<longleftrightarrow> usb_source env data \<longrightarrow> usb_stream data s"

interpretation usb_safety: safety "usb_stream data" "usb_step tgt flen env" "usb_inv env data"
  for data tgt flen env
  by unfold_locales (auto simp: usb_inv_def intro: usb_step_stream)

section \<open>Properties\<close>


text \<open>C20: the job that fills the USB queue (ESP32-S2 and S3) always returns, clears the flag that it is
  scheduled, and has then either sent the whole pending stream or stopped because the host's
  queue had no room for another packet.\<close>

theorem fill_queue_drains:
  assumes "usb_source env data" "sent_to_host (io s) = pulled (io s)"
    and "pulled (io s) = take (length (pulled (io s))) data"
  shows "\<exists>t. fill_queue env s = Some t \<and> \<not> fq_scheduled t \<and> sent_to_host (io t) = pulled (io t) \<and>
    (sent_to_host (io t) = data \<or> (\<exists>a l. io t = (Usb CdcWriteAvailable, a) # l \<and> a_val a < 64))"
proof -
  have "usb_stream data s" using assms(2,3) by (simp add: usb_stream_def)
  from usb_stream_fill_queue [OF assms(1) this] obtain t where t: "fill_queue env s = Some t"
      "\<not> fq_scheduled t" "usb_stream data t" "stopped data (io t)" by blast
  moreover have "sent_to_host (io t) = data" if "length data \<le> length (pulled (io t))"
    using t(3) that by (metis usb_stream_def take_all)
  ultimately show ?thesis unfolding usb_stream_def stopped_def by blast
qed

text \<open>Asking for a refill (ESP32-S2 and S3) sets the flag and posts one job, unless the flag is
  already set, and asking again is then without effect. When the queue of the timer task is full
  the flag is set although no job was posted, so no later request posts one either.\<close>

theorem usb_pull_ready_schedules:
  assumes "rtos_queue env (w_queue (wheap s (tim_worker s))) 20" "t = jd_usb_pull_ready_s3 env s"
  shows "fq_scheduled t \<and>
    tim_jobs t = tim_jobs s @
      (if \<not> fq_scheduled s \<and> length (tim_jobs s) < 20 then [Job Fn_fill_queue Arg_null] else []) \<and>
    jd_usb_pull_ready_s3 env t = t \<and> tud_cdc_tx_complete_cb env t = t"
proof -
  obtain l where l: "snd (tim_worker_run env Fn_fill_queue Arg_null (s\<lparr>fq_scheduled := True\<rparr>)) =
      s\<lparr>fq_scheduled := True\<rparr>\<lparr>io := l\<rparr>"
    using tim_worker_run_io by blast
  then have f: "fq_scheduled t" using assms(2) by (auto simp: jd_usb_pull_ready_s3_def)
  have j: "tim_jobs (s\<lparr>fq_scheduled := True\<rparr>) = tim_jobs s"
    by (simp add: tim_jobs_def jobs_of_def)
  have "tim_jobs t = tim_jobs s @
      (if \<not> fq_scheduled s \<and> length (tim_jobs s) < 20 then [Job Fn_fill_queue Arg_null] else [])"
    using tim_worker_run_bounded [of env "s\<lparr>fq_scheduled := True\<rparr>" Fn_fill_queue Arg_null] assms j
    by (simp add: jd_usb_pull_ready_s3_def)
  with f show ?thesis by (simp add: jd_usb_pull_ready_s3_def tud_cdc_tx_complete_cb_def)
qed

section \<open>Witnesses\<close>

definition boot_usb :: usb where [boot_defs]:
  "boot_usb = main_state.extend boot_main (usb.fields False False 0)"

declare usb.defs [boot_defs]

text \<open>A host with room for two packets, and 80 bytes to send; the other calls answer as a FreeRTOS queue.\<close>

definition usb_data :: "u8 list" where
  "usb_data = map of_nat [0..<80]"

definition usb_env :: env where
  "usb_env c l = (case c of
      Usb (UsbPull n) \<Rightarrow> ans0\<lparr>a_bytes := take 64 (drop (length (pulled l)) usb_data),
                             a_ret := int (length (take 64 (drop (length (pulled l)) usb_data)))\<rparr>
    | Usb CdcWriteAvailable \<Rightarrow> ans0\<lparr>a_val := 128\<rparr>
    | _ \<Rightarrow> queue_env 20 c l)"

lemma usb_source_usb_env: "usb_source usb_env usb_data"
  by (simp add: usb_source_def usb_env_def)

theorem fill_queue_drains_witness:
  "\<exists>t. fill_queue usb_env boot_usb = Some t \<and> sent_to_host (io t) = pulled (io t)"
  using fill_queue_drains [OF usb_source_usb_env, of boot_usb] by (auto simp: boot_defs)


theorem usb_pull_ready_schedules_witness:
  "tim_jobs (jd_usb_pull_ready_s3 (queue_env 20) boot_usb) = [Job Fn_fill_queue Arg_null]"
  using usb_pull_ready_schedules [OF rtos_queue_queue_env refl, where s = boot_usb]
  by (simp add: boot_defs tim_jobs_def jobs_of_def)

end
