(* ===== verification/SdCard.thy ===== *)
theory SdCard
  imports Usb Pwm
begin

text \<open>
  main/sdcard.c: the bit-banged SPI port and the start of the SD card. The drivers of ESP-IDF
  (SDSPI host, SD card protocol, disk layer) are parameters.
\<close>

section \<open>State\<close>

text \<open>The pins.\<close>

record sdcard = usb +
  pin_mosi :: u8
  pin_miso :: u8
  pin_sck :: u8
  pin_cs :: u8

lemma sdcard_emit [simp]:
  "pin_mosi (emit env c s) = pin_mosi s" "pin_miso (emit env c s) = pin_miso s"
  "pin_sck (emit env c s) = pin_sck s" "pin_cs (emit env c s) = pin_cs s"
  by (simp_all add: emit_def)

section \<open>The bit-banged port\<close>

definition spi_bb_init :: "env \<Rightarrow> 'z sdcard_scheme \<Rightarrow> 'z sdcard_scheme option" where
  "spi_bb_init env s = do {
     s \<leftarrow> pin_setup_analog_input env (uint (pin_sck s)) s;
     s \<leftarrow> pin_setup_output env (uint (pin_sck s)) s;
     s \<leftarrow> pin_setup_analog_input env (uint (pin_mosi s)) s;
     s \<leftarrow> pin_setup_output env (uint (pin_mosi s)) s;
     s \<leftarrow> pin_setup_analog_input env (uint (pin_miso s)) s;
     s \<leftarrow> pin_setup_input env (uint (pin_miso s)) 1 s;
     s \<leftarrow> pin_setup_analog_input env (uint (pin_cs s)) s;
     pin_setup_output env (uint (pin_cs s)) s
   }"

text \<open>\<open>SPI_TX_BIT\<close> and \<open>SPI_RX_BIT\<close>: the level is any non-zero value of \<open>b & (1 << n)\<close>.\<close>

definition SPI_TX_BIT :: "env \<Rightarrow> u32 \<Rightarrow> nat \<Rightarrow> 'z sdcard_scheme \<Rightarrow> 'z sdcard_scheme" where
  "SPI_TX_BIT env b n s =
     emits env [Periph (BbMosi (b AND push_bit n 1 \<noteq> 0)), Periph (BbSck True), Periph (BbSck False)] s"

definition SPI_RX_BIT :: "env \<Rightarrow> nat \<Rightarrow> u32 \<times> 'z sdcard_scheme \<Rightarrow> u32 \<times> 'z sdcard_scheme" where
  "SPI_RX_BIT env n = (\<lambda>(b, s).
     let s1 = emit env (Periph (BbSck True)) s;
         (r, s2) = ext env (Periph BbMiso) s1;
         b' = (if a_val r \<noteq> 0 then b OR push_bit n 1 else b)
     in (b', emit env (Periph (BbSck False)) s2))"

definition spi_bb_tx_byte :: "env \<Rightarrow> u8 \<Rightarrow> 'z sdcard_scheme \<Rightarrow> 'z sdcard_scheme" where
  "spi_bb_tx_byte env x s = (let b = (ucast x :: u32) in
     SPI_TX_BIT env b 0 (SPI_TX_BIT env b 1 (SPI_TX_BIT env b 2 (SPI_TX_BIT env b 3
       (SPI_TX_BIT env b 4 (SPI_TX_BIT env b 5 (SPI_TX_BIT env b 6 (SPI_TX_BIT env b 7 s))))))))"

fun spi_bb_tx :: "env \<Rightarrow> u8 list \<Rightarrow> 'z sdcard_scheme \<Rightarrow> 'z sdcard_scheme" where
  "spi_bb_tx env [] s = s"
| "spi_bb_tx env (x # xs) s = spi_bb_tx env xs (spi_bb_tx_byte env x s)"

definition spi_bb_set_cs :: "env \<Rightarrow> int \<Rightarrow> 'z sdcard_scheme \<Rightarrow> 'z sdcard_scheme" where
  "spi_bb_set_cs env v s = pin_set env (uint (pin_cs s)) v s"

definition spi_bb_get_miso :: "env \<Rightarrow> 'z sdcard_scheme \<Rightarrow> int \<times> 'z sdcard_scheme" where
  "spi_bb_get_miso env s = pin_get env (uint (pin_miso s)) s"

definition spi_bb_rx_byte :: "env \<Rightarrow> 'z sdcard_scheme \<Rightarrow> u8 \<times> 'z sdcard_scheme" where
  "spi_bb_rx_byte env s =
     (let (b, s1) = SPI_RX_BIT env 0 (SPI_RX_BIT env 1 (SPI_RX_BIT env 2 (SPI_RX_BIT env 3
        (SPI_RX_BIT env 4 (SPI_RX_BIT env 5 (SPI_RX_BIT env 6 (SPI_RX_BIT env 7 (0, s))))))))
      in (ucast b, s1))"

fun spi_bb_rx_bytes :: "env \<Rightarrow> nat \<Rightarrow> 'z sdcard_scheme \<Rightarrow> u8 list \<times> 'z sdcard_scheme" where
  "spi_bb_rx_bytes env 0 s = ([], s)"
| "spi_bb_rx_bytes env (Suc n) s =
     (let (x, s1) = spi_bb_rx_byte env s; (xs, s2) = spi_bb_rx_bytes env n s1 in (x # xs, s2))"

definition spi_bb_rx :: "env \<Rightarrow> nat \<Rightarrow> 'z sdcard_scheme \<Rightarrow> u8 list \<times> 'z sdcard_scheme" where
  "spi_bb_rx env len s = spi_bb_rx_bytes env len (emit env (Periph (BbMosi True)) s)"

section \<open>The card\<close>

definition read_sd_pins :: "env \<Rightarrow> 'z sdcard_scheme \<Rightarrow> 'z sdcard_scheme" where
  "read_sd_pins env s =
     (let (a, s1) = ext env (Sys (DcfgPin ''sd.pinMISO'')) s;
          s2 = s1\<lparr>pin_miso := of_nat (a_val a)\<rparr>;
          (b, s3) = ext env (Sys (DcfgPin ''sd.pinMOSI'')) s2;
          s4 = s3\<lparr>pin_mosi := of_nat (a_val b)\<rparr>;
          (c, s5) = ext env (Sys (DcfgPin ''sd.pinSCK'')) s4;
          s6 = s5\<lparr>pin_sck := of_nat (a_val c)\<rparr>;
          (d, s7) = ext env (Sys (DcfgPin ''sd.pinCS'')) s6
      in s7\<lparr>pin_cs := of_nat (a_val d)\<rparr>)"

definition sd_pin_missing :: "'z sdcard_scheme \<Rightarrow> bool" where
  "sd_pin_missing s \<longleftrightarrow>
     pin_miso s = NO_PIN \<or> pin_mosi s = NO_PIN \<or> pin_sck s = NO_PIN \<or> pin_cs s = NO_PIN"

text \<open>\<open>card_size\<close> is \<open>sizeof(sdmmc_card_t)\<close>.\<close>

definition start_card :: "u32 \<Rightarrow> env \<Rightarrow> 'z sdcard_scheme \<Rightarrow> 'z sdcard_scheme option" where
  "start_card card_size env s = do {
     let (r, s) = ext env (Periph (SdSpiBusInitialize (pin_mosi s) (pin_miso s) (pin_sck s))) s;
     chk (a_ret r);
     let (d, s) = ext env (Periph SdGetDrive) s;
     chk (a_ret d);
     jd_assert (a_val d = 0);
     (card, s) \<leftarrow> jd_alloc env card_size s;
     let (r, s) = ext env (Periph SdHostInit) s;
     chk (a_ret r);
     let (r, s) = ext env (Periph (SdHostInitDevice (pin_cs s))) s;
     chk (a_ret r);
     let (r, s) = ext env (Periph (SdCardInit card)) s;
     if a_ret r \<noteq> 0 then Some (jd_free env card s)
     else Some (emits env [Periph (SdRegister (a_val d) card), Jd Jd_lstore_init] s)
   }"

text \<open>On ESP32-C3 pin 9 is the boot button and must not be driven.\<close>

definition init_sdcard :: "target \<Rightarrow> u32 \<Rightarrow> env \<Rightarrow> 'z sdcard_scheme \<Rightarrow> 'z sdcard_scheme option" where
  "init_sdcard tgt card_size env s =
     (let s1 = read_sd_pins env s in
      if sd_pin_missing s1 then Some s1
      else do {
        jd_assert (tgt = ESP32C3 \<longrightarrow> pin_cs s1 \<noteq> 9 \<and> pin_sck s1 \<noteq> 9 \<and> pin_mosi s1 \<noteq> 9);
        start_card card_size env s1
      })"

section \<open>What is on the wires\<close>

text \<open>The bits of a byte in the order they are sent.\<close>

definition byte_bits :: "u8 \<Rightarrow> bool list" where
  "byte_bits x = map (bit x) [7, 6, 5, 4, 3, 2, 1, 0]"

text \<open>The levels the code has set, and the bits that a device in SPI mode 0 has sampled: one at each
  rising edge of the clock.\<close>

fun mosi_level :: "io_log \<Rightarrow> bool" where
  "mosi_level [] = False"
| "mosi_level ((Periph (BbMosi b), a) # l) = b"
| "mosi_level (_ # l) = mosi_level l"

fun sck_level :: "io_log \<Rightarrow> bool" where
  "sck_level [] = False"
| "sck_level ((Periph (BbSck b), a) # l) = b"
| "sck_level (_ # l) = sck_level l"

fun sampled :: "io_log \<Rightarrow> bool list" where
  "sampled [] = []"
| "sampled ((Periph (BbSck b), a) # l) = sampled l @ (if b \<and> \<not> sck_level l then [mosi_level l] else [])"
| "sampled (_ # l) = sampled l"

fun miso_reads :: "io_log \<Rightarrow> nat" where
  "miso_reads [] = 0"
| "miso_reads ((Periph BbMiso, a) # l) = Suc (miso_reads l)"
| "miso_reads (_ # l) = miso_reads l"

text \<open>A device that presents \<open>bits\<close> on MISO, one per clock.\<close>

definition miso_device :: "env \<Rightarrow> bool list \<Rightarrow> bool" where
  "miso_device env bits \<longleftrightarrow>
     (\<forall>l. miso_reads l < length bits \<longrightarrow> (a_val (env (Periph BbMiso) l) \<noteq> 0) = bits ! miso_reads l)"

lemma bit_test: "n < 32 \<Longrightarrow> (ucast x AND push_bit n 1 \<noteq> (0 :: u32)) = bit x n" for x :: u8
  by (simp only: bit_iff_and_push_bit_not_eq_0 [symmetric]) (simp add: bit_simps)

lemma SPI_TX_BIT_io:
  assumes "n < 32" "\<not> sck_level (io s)"
  shows "sampled (io (SPI_TX_BIT env (ucast (x :: u8)) n s)) = sampled (io s) @ [bit x n]"
    and "\<not> sck_level (io (SPI_TX_BIT env (ucast x) n s))"
    and "miso_reads (io (SPI_TX_BIT env (ucast x) n s)) = miso_reads (io s)"
  using assms bit_test [of n x] by (simp_all add: SPI_TX_BIT_def emits_Cons io_emit)

lemma spi_bb_tx_byte_io:
  assumes "\<not> sck_level (io s)"
  shows "sampled (io (spi_bb_tx_byte env x s)) = sampled (io s) @ byte_bits x"
    and "\<not> sck_level (io (spi_bb_tx_byte env x s))"
  using assms by (simp_all add: spi_bb_tx_byte_def byte_bits_def SPI_TX_BIT_io Let_def)

lemma spi_bb_tx_io:
  assumes "\<not> sck_level (io s)"
  shows "sampled (io (spi_bb_tx env data s)) = sampled (io s) @ concat (map byte_bits data)"
    and "\<not> sck_level (io (spi_bb_tx env data s))"
  using assms by (induction data arbitrary: s) (simp_all add: spi_bb_tx_byte_io)

lemma SPI_RX_BIT_io:
  assumes "miso_device env bits" "drop (miso_reads (io s)) bits = c # rest"
  shows "fst (SPI_RX_BIT env n (b, s)) = (if c then b OR push_bit n 1 else b)"
    and "drop (miso_reads (io (snd (SPI_RX_BIT env n (b, s))))) bits = rest"
proof -
  have lt: "miso_reads (io s) < length bits" using assms(2) by (metis drop_all list.distinct(1) not_less)
  moreover have "bits ! miso_reads (io s) = c"
    using assms(2) lt by (metis Cons_nth_drop_Suc list.inject)
  ultimately have "(a_val (query env (Periph BbMiso) (emit env (Periph (BbSck True)) s)) \<noteq> 0) = c"
    using assms(1) by (simp add: miso_device_def query_def io_emit)
  then show "fst (SPI_RX_BIT env n (b, s)) = (if c then b OR push_bit n 1 else b)"
    by (auto simp: SPI_RX_BIT_def Let_def)
  show "drop (miso_reads (io (snd (SPI_RX_BIT env n (b, s))))) bits = rest"
    using assms(2) by (simp add: SPI_RX_BIT_def Let_def io_emit) (metis drop_Suc list.sel(3) tl_drop)
qed

text \<open>Putting the bits of a byte together again.\<close>

definition or_bit :: "bool \<Rightarrow> nat \<Rightarrow> u32 \<Rightarrow> u32" where
  "or_bit c n b = (if c then b OR push_bit n 1 else b)"

lemma bit_or_bit: "n < 32 \<Longrightarrow> bit (or_bit c n b) k = (bit b k \<or> (c \<and> k = n))"
  by (auto simp: or_bit_def bit_simps)

lemma byte_of_bits:
  "ucast (or_bit (bit x 0) 0 (or_bit (bit x 1) 1 (or_bit (bit x 2) 2 (or_bit (bit x 3) 3 (or_bit (bit x 4) 4
     (or_bit (bit x 5) 5 (or_bit (bit x 6) 6 (or_bit (bit x 7) 7 0)))))))) = x" for x :: u8
proof (rule bit_eqI)
  fix n assume "possible_bit TYPE(8 word) n"
  then have "n < 8" by simp
  then have "n \<in> {0, 1, 2, 3, 4, 5, 6, 7}" by auto
  then show "bit (ucast (or_bit (bit x 0) 0 (or_bit (bit x 1) 1 (or_bit (bit x 2) 2 (or_bit (bit x 3) 3
     (or_bit (bit x 4) 4 (or_bit (bit x 5) 5 (or_bit (bit x 6) 6 (or_bit (bit x 7) 7 0)))))))) :: u8) n = bit x n"
    by (auto simp: bit_or_bit bit_simps)
qed

lemma SPI_RX_BIT_step:
  assumes "miso_device env bits" "drop (miso_reads (io s)) bits = c # rest"
  shows "\<exists>s'. SPI_RX_BIT env n (b, s) = (or_bit c n b, s') \<and> drop (miso_reads (io s')) bits = rest"
  using SPI_RX_BIT_io [OF assms] by (metis or_bit_def prod.collapse)

lemma SPI_RX_BITs:
  assumes "miso_device env bits" "drop (miso_reads (io s)) bits = map (bit x) ns @ rest"
  shows "\<exists>s'. fold (SPI_RX_BIT env) ns (b, s) = (fold (\<lambda>n. or_bit (bit x n) n) ns b, s') \<and>
    drop (miso_reads (io s')) bits = rest"
  using assms(2)
proof (induction ns arbitrary: b s)
  case (Cons n ns)
  then have "drop (miso_reads (io s)) bits = bit x n # map (bit x) ns @ rest" by simp
  from SPI_RX_BIT_step [OF assms(1) this, of n b] obtain s1
    where "SPI_RX_BIT env n (b, s) = (or_bit (bit x n) n b, s1)"
      "drop (miso_reads (io s1)) bits = map (bit x) ns @ rest" by blast
  with Cons.IH [of s1 "or_bit (bit x n) n b"] show ?case by simp
qed simp

lemma spi_bb_rx_byte_io:
  assumes "miso_device env bits" "drop (miso_reads (io s)) bits = byte_bits x @ rest"
  shows "\<exists>s'. spi_bb_rx_byte env s = (x, s') \<and> drop (miso_reads (io s')) bits = rest"
proof -
  obtain s' where s': "fold (SPI_RX_BIT env) [7, 6, 5, 4, 3, 2, 1, 0] (0, s) =
      (fold (\<lambda>n. or_bit (bit x n) n) [7, 6, 5, 4, 3, 2, 1, 0] 0, s')"
      "drop (miso_reads (io s')) bits = rest"
    using SPI_RX_BITs [OF assms(1) assms(2) [unfolded byte_bits_def]] by blast
  have "spi_bb_rx_byte env s =
      (ucast (fst (fold (SPI_RX_BIT env) [7, 6, 5, 4, 3, 2, 1, 0] (0, s))),
       snd (fold (SPI_RX_BIT env) [7, 6, 5, 4, 3, 2, 1, 0] (0, s)))"
    by (simp add: spi_bb_rx_byte_def split_beta)
  with s' show ?thesis by (simp add: byte_of_bits [simplified])
qed

lemma spi_bb_rx_bytes_io:
  assumes "miso_device env bits" "drop (miso_reads (io s)) bits = concat (map byte_bits data) @ rest"
  shows "\<exists>s'. spi_bb_rx_bytes env (length data) s = (data, s') \<and> drop (miso_reads (io s')) bits = rest"
  using assms(2)
proof (induction data arbitrary: s)
  case (Cons x xs)
  then have "drop (miso_reads (io s)) bits = byte_bits x @ concat (map byte_bits xs) @ rest" by simp
  from spi_bb_rx_byte_io [OF assms(1) this] obtain s1 where s1: "spi_bb_rx_byte env s = (x, s1)"
      "drop (miso_reads (io s1)) bits = concat (map byte_bits xs) @ rest" by blast
  from Cons.IH [OF s1(2)] s1(1) show ?case by auto
qed simp

section \<open>Properties\<close>


text \<open>The calls that concern the memory of the card and the log store.\<close>

fun card_events :: "io_log \<Rightarrow> call list" where
  "card_events [] = []"
| "card_events ((Rtos (Calloc n), a) # l) = card_events l @ [Rtos (Calloc n)]"
| "card_events ((Rtos (Free_mem p), a) # l) = card_events l @ [Rtos (Free_mem p)]"
| "card_events ((Periph (SdRegister d p), a) # l) = card_events l @ [Periph (SdRegister d p)]"
| "card_events ((Jd Jd_lstore_init, a) # l) = card_events l @ [Jd Jd_lstore_init]"
| "card_events (_ # l) = card_events l"

lemma start_card_outcome:
  assumes "start_card card_size env s = Some t"
  shows "\<exists>p. p \<noteq> 0 \<and> (card_events (io t) = card_events (io s) @
      [Rtos (Calloc (unat card_size)), Periph (SdRegister 0 p), Jd Jd_lstore_init] \<or>
    card_events (io t) = card_events (io s) @ [Rtos (Calloc (unat card_size)), Rtos (Free_mem p)])"
  using assms
  by (auto simp: start_card_def jd_alloc_def jd_free_def emits_Cons io_emit Let_def split: if_splits)

text \<open>The start of the SD card returns with no card configured, with the card registered and the log
  store started, or with the card's memory freed again and the log store not started; the
  memory is never both freed and registered.\<close>

theorem init_sdcard_outcome:
  assumes "init_sdcard tgt card_size env s = Some t"
  shows "card_events (io t) = card_events (io s) \<or>
    (\<exists>p. p \<noteq> 0 \<and> (card_events (io t) = card_events (io s) @
        [Rtos (Calloc (unat card_size)), Periph (SdRegister 0 p), Jd Jd_lstore_init] \<or>
      card_events (io t) = card_events (io s) @ [Rtos (Calloc (unat card_size)), Rtos (Free_mem p)]))"
proof -
  define s1 where "s1 = read_sd_pins env s"
  have e: "card_events (io s1) = card_events (io s)"
    by (simp add: s1_def read_sd_pins_def io_emit Let_def)
  show ?thesis
  proof (cases "sd_pin_missing s1")
    case True
    with assms e show ?thesis by (simp add: init_sdcard_def s1_def)
  next
    case False
    with assms have "start_card card_size env s1 = Some t"
      by (auto simp: init_sdcard_def s1_def Let_def split: if_splits)
    from start_card_outcome [OF this] e show ?thesis by metis
  qed
qed

section \<open>Witnesses\<close>

definition boot_sd :: sdcard where [boot_defs]:
  "boot_sd = usb.extend boot_usb (sdcard.fields 11 12 13 14)"

declare sdcard.defs [boot_defs]

lemma boot_sd_io [simp]: "io boot_sd = []"
  by (simp add: boot_defs)

text \<open>A device that presents the byte A5, and a heap with room; every other call succeeds.\<close>

definition sd_env :: env where
  "sd_env c l = (case c of
      Periph BbMiso \<Rightarrow> ans0\<lparr>a_val := (if miso_reads l < 8 \<and> byte_bits 0xA5 ! miso_reads l then 1 else 0)\<rparr>
    | Rtos (Calloc n) \<Rightarrow> ans0\<lparr>a_ptr := 0x3FFB0000\<rparr>
    | Sys (DcfgPin n) \<Rightarrow> ans0\<lparr>a_val := 10\<rparr>
    | _ \<Rightarrow> ans0)"


theorem init_sdcard_outcome_witness:
  "\<exists>t. init_sdcard ESP32C3 100 sd_env boot_sd = Some t \<and>
    (card_events (io t) = [] \<or> (\<exists>p. p \<noteq> 0 \<and>
      (card_events (io t) = [Rtos (Calloc 100), Periph (SdRegister 0 p), Jd Jd_lstore_init] \<or>
       card_events (io t) = [Rtos (Calloc 100), Rtos (Free_mem p)])))"
proof -
  have "\<exists>t. init_sdcard ESP32C3 100 sd_env boot_sd = Some t"
    by (simp add: init_sdcard_def read_sd_pins_def start_card_def jd_alloc_def sd_pin_missing_def NO_PIN_def
        sd_env_def ans0_def query_def Let_def)
  then obtain t where t: "init_sdcard ESP32C3 100 sd_env boot_sd = Some t" by blast
  from init_sdcard_outcome [OF t] t show ?thesis by simp
qed

end
