(* ===== verification/Wifi.thy ===== *)
theory Wifi
  imports Platform
begin

text \<open>
  main/wifi_impl.c: scanning for access points and joining one. The station driver of ESP-IDF and
  the network service of jacdac-c are parameters. C strings are byte lists without their
  terminator; a field of fixed size holds a string up to its first zero byte.
\<close>

section \<open>Strings in fields of fixed size\<close>

definition c_string :: "u8 list \<Rightarrow> u8 list" where
  "c_string field = takeWhile (\<lambda>b. b \<noteq> 0) field"

text \<open>\<open>strlcpy\<close> into a field of \<open>n\<close> zero bytes.\<close>

definition strlcpy_field :: "nat \<Rightarrow> u8 list \<Rightarrow> u8 list" where
  "strlcpy_field n src = take (n - 1) src @ replicate (n - min (n - 1) (length src)) 0"

section \<open>Operations\<close>

definition jd_wifi_start_scan :: "env \<Rightarrow> 'z platform_scheme \<Rightarrow> int \<times> 'z platform_scheme" where
  "jd_wifi_start_scan env s = (let (r, s1) = ext env (Wifi WifiScanStart) s in (a_ret r, s1))"

definition jd_wifi_connect ::
    "env \<Rightarrow> u8 list \<Rightarrow> u8 list option \<Rightarrow> 'z platform_scheme \<Rightarrow> (int \<times> 'z platform_scheme) option" where
  "jd_wifi_connect env ssid pw s = do {
     let pw = (case pw of None \<Rightarrow> [] | Some p \<Rightarrow> p);
     let (r, s1) = ext env (Wifi WifiSetModeSta) s;
     chk (a_ret r);
     let (r, s2) = ext env (Wifi (WifiSetConfig (strlcpy_field 32 ssid) (strlcpy_field 64 pw))) s1;
     chk (a_ret r);
     let (r, s3) = ext env (Wifi WifiConnect) s2;
     chk (a_ret r);
     Some (0, s3)
   }"

text \<open>One entry of the scan result. The rest of the field \<open>ssid\<close> is zero.\<close>

definition ap_flags :: "wifi_ap \<Rightarrow> ap_flag set" where
  "ap_flags src =
     (if ap_11b src then {IEEE_802_11B} else {}) \<union>
     (if ap_11g src then {IEEE_802_11G} else {}) \<union>
     (if ap_11n src then {IEEE_802_11N} else {}) \<union>
     (if ap_lr src then {IEEE_802_LONG_RANGE} else {}) \<union>
     (if ap_wps src then {WPS} else {}) \<union>
     (if ap_second src = Second_above then {HAS_SECONDARY_CHANNEL_ABOVE} else {}) \<union>
     (if ap_second src = Second_below then {HAS_SECONDARY_CHANNEL_BELOW} else {}) \<union>
     (if ap_authmode src \<noteq> Auth_open \<and> ap_authmode src \<noteq> Auth_wpa2_enterprise then {HAS_PASSWORD} else {})"

definition ap_result :: "wifi_ap \<Rightarrow> jd_wifi_result" where
  "ap_result src =
     \<lparr>res_flags = ap_flags src, res_reserved = 0, res_channel = ap_primary src, res_rssi = ap_rssi src,
      res_bssid = take 6 (ap_bssid src), res_ssid = take 32 (c_string (ap_ssid src))\<rparr>"

text \<open>\<open>ap_size\<close> and \<open>res_size\<close> are the sizes of \<open>wifi_ap_record_t\<close> and \<open>jd_wifi_results_t\<close>. The array of
  results is handed to the callback, which owns it.\<close>

definition scan_results ::
    "u32 \<Rightarrow> env \<Rightarrow> ans \<Rightarrow> 'z platform_scheme \<Rightarrow> (jd_wifi_result list option \<times> 'z platform_scheme) option" where
  "scan_results res_size env r s =
     (let sta_number = a_val r mod 2 ^ 16 in
      if a_ret r = 0 \<and> sta_number \<noteq> 0 then do {
        (p, s1) \<leftarrow> jd_alloc env (res_size * of_nat sta_number) s;
        Some (Some (map (\<lambda>i. ap_result (a_aps r ! i)) [0..<sta_number]), s1)
      }
      else Some (None, s))"

definition scan_done_handler ::
    "u32 \<Rightarrow> u32 \<Rightarrow> env \<Rightarrow> 'z platform_scheme \<Rightarrow> 'z platform_scheme option" where
  "scan_done_handler ap_size res_size env s = do {
     let (a, s1) = ext env (Wifi WifiScanApNum) s;
     let sta_number = a_val a mod 2 ^ 16;
     (res, sta_number, s5) \<leftarrow>
       (if sta_number \<noteq> 0 then do {
          (buf, s2) \<leftarrow> jd_alloc env (of_nat sta_number * ap_size) s1;
          let (r, s3) = ext env (Wifi (WifiScanRecords sta_number)) s2;
          (res, s4) \<leftarrow> scan_results res_size env r s3;
          Some (res, a_val r mod 2 ^ 16, jd_free env buf s4)
        }
        else Some (None, sta_number, s1));
     Some (emit env (Jd (Jd_wifi_scan_done res sta_number)) s5)
   }"

definition got_ip_handler :: "env \<Rightarrow> u32 \<Rightarrow> 'z platform_scheme \<Rightarrow> 'z platform_scheme" where
  "got_ip_handler env addr s = emit env (Jd (Jd_wifi_got_ip addr)) s"

definition disconnect_handler :: "env \<Rightarrow> 'z platform_scheme \<Rightarrow> 'z platform_scheme" where
  "disconnect_handler env s = emit env (Jd Jd_wifi_lost_ip) s"

text \<open>\<open>JD_CHK\<close> is a macro of jacdac-c: for a code other than 0 it either does not come back or makes the
  function return; \<open>jd_chk\<close> tells which.\<close>

definition jd_wifi_init ::
    "(int \<Rightarrow> int option) \<Rightarrow> int \<Rightarrow> int \<Rightarrow> env \<Rightarrow> 'z platform_scheme \<Rightarrow>
     (int \<times> u8 list \<times> 'z platform_scheme) option" where
  "jd_wifi_init jd_chk no_free_pages new_version env s = do {
     let (m, s1) = ext env (Sys MacDefault) s;
     let mac = a_bytes m;
     let (r, s2) = ext env (Wifi NvsFlashInit) s1;
     (ret, s4) \<leftarrow>
       (if a_ret r = no_free_pages \<or> a_ret r = new_version then do {
          let (e, s3) = ext env (Wifi NvsFlashErase) s2;
          chk (a_ret e);
          let (r, s4) = ext env (Wifi NvsFlashInit) s3;
          Some (a_ret r, s4)
        }
        else Some (a_ret r, s2));
     if ret \<noteq> 0 then do { e \<leftarrow> jd_chk ret; Some (e, mac, s4) }
     else do {
       let (r, s5) = ext env (Wifi NetifInit) s4;
       chk (a_ret r);
       let (r, s6) = ext env (Wifi WifiInit) s5;
       chk (a_ret r);
       let (n, s7) = ext env (Wifi NetifNew) s6;
       jd_assert (a_ptr n \<noteq> 0);
       let (r, s8) = ext env (Wifi NetifAttach) s7;
       chk (a_ret r);
       let (r, s9) = ext env (Wifi WifiStaHandlers) s8;
       chk (a_ret r);
       let (r, s10) = ext env (Wifi (WifiHandlerRegister ''scan_done_handler'')) s9;
       chk (a_ret r);
       let (r, s11) = ext env (Wifi (WifiHandlerRegister ''disconnect_handler'')) s10;
       chk (a_ret r);
       let (r, s12) = ext env (Wifi (WifiHandlerRegister ''got_ip_handler'')) s11;
       chk (a_ret r);
       let (r, s13) = ext env (Wifi WifiSetStorageRam) s12;
       chk (a_ret r);
       let (r, s14) = ext env (Wifi WifiSetModeSta) s13;
       chk (a_ret r);
       let (r, s15) = ext env (Wifi WifiStart) s14;
       chk (a_ret r);
       Some (0, mac, s15)
     }
   }"

definition jd_wifi_disconnect :: "env \<Rightarrow> 'z platform_scheme \<Rightarrow> (int \<times> 'z platform_scheme) option" where
  "jd_wifi_disconnect env s = do {
     let (r, s1) = ext env (Wifi WifiDisconnect) s;
     chk (a_ret r);
     Some (0, s1)
   }"

definition jd_wifi_rssi :: "env \<Rightarrow> 'z platform_scheme \<Rightarrow> int \<times> 'z platform_scheme" where
  "jd_wifi_rssi env s =
     (let (r, s1) = ext env (Wifi WifiApInfo) s in
      if a_ret r \<noteq> 0 then (-128, s1) else (ap_rssi (hd (a_aps r)), s1))"

section \<open>Lemmas\<close>

lemma length_strlcpy_field: "0 < n \<Longrightarrow> length (strlcpy_field n src) = n"
  by (auto simp: strlcpy_field_def min_def)

lemma takeWhile_not_zero: "0 \<notin> set xs \<Longrightarrow> takeWhile (\<lambda>b. b \<noteq> 0) xs = xs" for xs :: "u8 list"
  by (induction xs) auto

lemma c_string_no_zero: "0 \<notin> set (c_string field)"
  by (auto simp: c_string_def dest: set_takeWhileD)

lemma c_string_strlcpy_field:
  assumes "0 \<notin> set src" "0 < n"
  shows "c_string (strlcpy_field n src) = take (n - 1) src"
proof -
  have "n - min (n - 1) (length src) = Suc (n - min (n - 1) (length src) - 1)"
    using assms(2) by (auto simp: min_def)
  then have "strlcpy_field n src = take (n - 1) src @ 0 # replicate (n - min (n - 1) (length src) - 1) 0"
    unfolding strlcpy_field_def by (metis replicate_Suc)
  moreover have "0 \<notin> set (take (n - 1) src)" using assms(1) by (meson in_set_takeD)
  then have "takeWhile (\<lambda>b. b \<noteq> 0) (take (n - 1) src @ 0 # xs) = take (n - 1) src" for xs
    by (subst takeWhile_append2) auto
  ultimately show ?thesis by (simp add: c_string_def)
qed

text \<open>The configuration that was set last.\<close>

fun configured :: "io_log \<Rightarrow> (u8 list \<times> u8 list) option" where
  "configured [] = None"
| "configured ((Wifi (WifiSetConfig ssid pw), a) # l) = Some (ssid, pw)"
| "configured (_ # l) = configured l"

lemma jd_wifi_connect_configured:
  assumes "jd_wifi_connect env ssid pw s = Some (r, t)"
  shows "configured (io t) = Some (strlcpy_field 32 ssid, strlcpy_field 64 (case pw of None \<Rightarrow> [] | Some p \<Rightarrow> p))"
  using assms by (auto simp: jd_wifi_connect_def io_emit Let_def split: if_splits)

text \<open>The callback of a scan and the blocks that are still allocated.\<close>

fun live_blocks :: "io_log \<Rightarrow> u32 list" where
  "live_blocks [] = []"
| "live_blocks ((Rtos (Calloc n), a) # l) = a_ptr a # live_blocks l"
| "live_blocks ((Rtos (Free_mem p), a) # l) = remove1 p (live_blocks l)"
| "live_blocks (_ # l) = live_blocks l"

lemma live_alloc:
  assumes "jd_alloc env n s = Some (p, t)"
  shows "live_blocks (io t) = p # live_blocks (io s)"
  using assms by (auto simp: jd_alloc_def io_emit query_def Let_def split: if_splits)

lemma scan_results_blocks:
  assumes "scan_results res_size env r s = Some (res, t)"
  shows "\<exists>ps. live_blocks (io t) = ps @ live_blocks (io s) \<and>
    length ps = (if a_ret r = 0 \<and> a_val r mod 2 ^ 16 \<noteq> 0 then 1 else 0)"
proof (cases "a_ret r = 0 \<and> a_val r mod 2 ^ 16 \<noteq> 0")
  case True
  with assms obtain p where "jd_alloc env (res_size * of_nat (a_val r mod 2 ^ 16)) s = Some (p, t)"
    by (auto simp: scan_results_def Let_def)
  from live_alloc [OF this] True show ?thesis by (intro exI [of _ "[p]"]) simp
next
  case False
  with assms show ?thesis by (auto simp: scan_results_def Let_def split: if_splits)
qed

section \<open>Properties\<close>

text \<open>C37: joining a network under the name that a scan reported for it configures exactly the network's
  own name if and only if the name is shorter than the 32 bytes that 802.11 allows; the stored
  password is the given one up to 63 bytes.\<close>

theorem scanned_ssid_connects:
  assumes "jd_wifi_connect env (res_ssid (ap_result ap)) pw s = Some (r, t)"
    and "length (c_string (ap_ssid ap)) \<le> 32" "0 \<notin> set (case pw of None \<Rightarrow> [] | Some p \<Rightarrow> p)"
  shows "r = 0 \<and> (\<exists>f g. configured (io t) = Some (f, g) \<and> length f = 32 \<and> length g = 64 \<and>
    (c_string f = c_string (ap_ssid ap) \<longleftrightarrow> length (c_string (ap_ssid ap)) < 32) \<and>
    c_string g = take 63 (case pw of None \<Rightarrow> [] | Some p \<Rightarrow> p))"
proof -
  let ?name = "c_string (ap_ssid ap)"
  have res: "res_ssid (ap_result ap) = ?name" using assms(2) by (simp add: ap_result_def)
  have "c_string (strlcpy_field 32 ?name) = take 31 ?name"
    using c_string_strlcpy_field [OF c_string_no_zero, of 32 "ap_ssid ap"] by simp
  moreover have "take 31 ?name = ?name \<longleftrightarrow> length ?name < 32" by auto
  moreover have "c_string (strlcpy_field 64 (case pw of None \<Rightarrow> [] | Some p \<Rightarrow> p))
      = take 63 (case pw of None \<Rightarrow> [] | Some p \<Rightarrow> p)"
    using c_string_strlcpy_field [OF assms(3), of 64] by simp
  moreover have "r = 0" using assms(1) by (auto simp: jd_wifi_connect_def Let_def split: if_splits)
  moreover have "length (strlcpy_field 32 ?name) = 32"
      "length (strlcpy_field 64 (case pw of None \<Rightarrow> [] | Some p \<Rightarrow> p)) = 64"
    by (rule length_strlcpy_field, simp)+
  ultimately show ?thesis using jd_wifi_connect_configured [OF assms(1)] unfolding res by auto
qed

text \<open>What the driver answers about a finished scan: the number of access points, and the answer to
  reading them.\<close>

definition scan_answers :: "env \<Rightarrow> nat \<Rightarrow> ans \<Rightarrow> bool" where
  "scan_answers env n r \<longleftrightarrow> n < 2 ^ 16 \<and> a_val r < 2 ^ 16 \<and>
     (\<forall>l. a_val (env (Wifi WifiScanApNum) l) = n) \<and> (\<forall>l. env (Wifi (WifiScanRecords n)) l = r)"

definition scan_report :: "nat \<Rightarrow> ans \<Rightarrow> jd_call" where
  "scan_report n r =
     (if n = 0 then Jd_wifi_scan_done None 0
      else if a_ret r = 0 \<and> a_val r \<noteq> 0
      then Jd_wifi_scan_done (Some (map (\<lambda>i. ap_result (a_aps r ! i)) [0..<a_val r])) (a_val r)
      else Jd_wifi_scan_done None (a_val r))"

text \<open>C36: when a scan ends the callback gets exactly one result per record the driver returned, in order,
  and their number; the working buffer is freed on every path and the array of results is the
  only block left, owned by the callback. When the records cannot be read there is no array, but
  the number passed is the one the failed call left.\<close>

theorem scan_done_handler_reports:
  assumes "scan_answers env n r" "scan_done_handler ap_size res_size env s = Some t"
  shows "fst (hd (io t)) = Jd (scan_report n r) \<and>
    length (live_blocks (io t)) = length (live_blocks (io s)) +
      (if n \<noteq> 0 \<and> a_ret r = 0 \<and> a_val r \<noteq> 0 then 1 else 0)"
proof -
  have q: "a_val (query env (Wifi WifiScanApNum) u) = n" "query env (Wifi (WifiScanRecords n)) u = r"
    for u :: "'a platform_scheme"
    using assms(1) by (simp_all add: scan_answers_def query_def)
  have m: "n mod 65536 = n" "a_val r mod 65536 = a_val r" using assms(1) by (simp_all add: scan_answers_def)
  show ?thesis
  proof (cases "n = 0")
    case True
    with assms(2) q m show ?thesis
      by (simp add: scan_done_handler_def scan_report_def Let_def) (auto simp: io_emit)
  next
    case False
    let ?s1 = "emit env (Wifi WifiScanApNum) s"
    from False assms(2) q m obtain buf s2 res s4 where s2: "jd_alloc env (of_nat n * ap_size) ?s1 = Some (buf, s2)"
      and s4: "scan_results res_size env r (emit env (Wifi (WifiScanRecords n)) s2) = Some (res, s4)"
      and t: "t = emit env (Jd (Jd_wifi_scan_done res (a_val r))) (jd_free env buf s4)"
      by (auto simp: scan_done_handler_def Let_def)
    have "buf \<in> set (live_blocks (io s4))"
        "length (live_blocks (io s4)) = Suc (length (live_blocks (io s))) + (if a_ret r = 0 \<and> a_val r \<noteq> 0 then 1 else 0)"
      using scan_results_blocks [OF s4] live_alloc [OF s2] m by (auto simp: io_emit)
    moreover have "Jd_wifi_scan_done res (a_val r) = scan_report n r"
      using s4 False m by (auto simp: scan_results_def scan_report_def Let_def split: if_splits)
    ultimately show ?thesis
      using False by (auto simp: t jd_free_def io_emit length_remove1)
  qed
qed

section \<open>Witnesses\<close>

text \<open>One access point, called AB.\<close>

definition one_ap :: wifi_ap where
  "one_ap = \<lparr>ap_11b = True, ap_11g = True, ap_11n = False, ap_lr = False, ap_wps = False,
     ap_second = Second_none, ap_authmode = Auth_other 3, ap_primary = 6, ap_rssi = -60,
     ap_bssid = [1, 2, 3, 4, 5, 6], ap_ssid = [0x41, 0x42] @ replicate 31 0\<rparr>"

definition wifi_env :: env where
  "wifi_env c l = (case c of
      Wifi WifiScanApNum \<Rightarrow> ans0\<lparr>a_val := 1\<rparr>
    | Wifi (WifiScanRecords n) \<Rightarrow> ans0\<lparr>a_val := 1, a_aps := [one_ap]\<rparr>
    | Rtos (Calloc n) \<Rightarrow> ans0\<lparr>a_ptr := 0x3FFB0000\<rparr>
    | _ \<Rightarrow> ans0)"

theorem scanned_ssid_connects_witness:
  "\<exists>r t f g. jd_wifi_connect wifi_env (res_ssid (ap_result one_ap)) (Some [0x70]) boot_platform = Some (r, t) \<and>
     configured (io t) = Some (f, g) \<and> c_string f = [0x41, 0x42] \<and> c_string g = [0x70]"
proof -
  have "\<exists>t. jd_wifi_connect wifi_env (res_ssid (ap_result one_ap)) (Some [0x70]) boot_platform = Some (0, t)"
    by (simp add: jd_wifi_connect_def wifi_env_def query_def ans0_def)
  then obtain t where t: "jd_wifi_connect wifi_env (res_ssid (ap_result one_ap)) (Some [0x70]) boot_platform = Some (0, t)"
    by blast
  have n: "c_string (ap_ssid one_ap) = [0x41, 0x42]" by (simp add: c_string_def one_ap_def)
  from scanned_ssid_connects [OF t] n t show ?thesis by auto
qed

theorem scan_done_handler_reports_witness:
  "\<exists>t. scan_done_handler 80 48 wifi_env boot_platform = Some t \<and>
     fst (hd (io t)) = Jd (Jd_wifi_scan_done (Some [ap_result one_ap]) 1) \<and> length (live_blocks (io t)) = 1"
proof -
  let ?r = "ans0\<lparr>a_val := 1, a_aps := [one_ap]\<rparr>"
  have a: "scan_answers wifi_env 1 ?r" by (simp add: scan_answers_def wifi_env_def ans0_def)
  have "\<exists>t. scan_done_handler 80 48 wifi_env boot_platform = Some t"
    by (simp add: scan_done_handler_def scan_results_def jd_alloc_def wifi_env_def query_def ans0_def Let_def)
  then obtain t where t: "scan_done_handler 80 48 wifi_env boot_platform = Some t" by blast
  from scan_done_handler_reports [OF a t] t show ?thesis
    by (auto simp: scan_report_def ans0_def boot_defs)
qed

end
