(* ===== verification/AppMain.thy ===== *)
theory AppMain
  imports SdCard JdUart Wifi
begin

text \<open>
  The rest of main/main.c: the start of the firmware and one turn of its main loop, which calls every
  other component. \<open>jd\<close> and \<open>exec\<close> are what jacdac-c and the queued functions do to the state when
  they are called, including calling the firmware again.
\<close>

section \<open>Operations\<close>

text \<open>\<open>i2c_init\<close> is the function of jacdac-c that calls \<open>i2c_init_\<close>. The last two calls of the C function only make the
  linker keep two files. \<open>wifi\<close> is \<open>JD_WIFI\<close>.\<close>

definition app_init_services :: "bool \<Rightarrow> env \<Rightarrow> 'z sdcard_scheme \<Rightarrow> 'z sdcard_scheme" where
  "app_init_services wifi env s =
     (let s1 = emit env (Jd Jd_services_full_init) s;
          (r, s2) = ext env (Jd Jd_i2c_init) s1;
          s3 = (if a_ret r = 0 then emit env (Jd Jd_scan_all) s2 else s2)
      in if wifi then snd (jd_wifi_rssi env s3) else s3)"

definition first_turn ::
    "'z sdcard_scheme jd_callout \<Rightarrow> env \<Rightarrow> 'z sdcard_scheme \<Rightarrow> 'z sdcard_scheme option" where
  "first_turn jd env s = do {
     let (r, s1) = ext env (Sys WdtAdd) s;
     chk (a_ret r);
     let (h, s2) = ext env (Rtos CurrentTask) s1;
     s3 \<leftarrow> jd Jd_init (s2\<lparr>main_task := a_ptr h\<rparr>);
     Some (jd_tcpsock_init env s3)
   }"

text \<open>\<open>if (n++ > 50)\<close>.\<close>

definition flush_sometimes :: "env \<Rightarrow> 'z sdcard_scheme \<Rightarrow> 'z sdcard_scheme" where
  "flush_sometimes env s =
     (let n = loop_n s; s1 = s\<lparr>loop_n := n + 1\<rparr> in
      if n > 50 then (jd_usb_flush_stdout env s1)\<lparr>loop_n := 0\<rparr> else s1)"

definition loop_handler ::
    "target \<Rightarrow> 'z sdcard_scheme jd_callout \<Rightarrow> 'z sdcard_scheme exec \<Rightarrow> env \<Rightarrow>
     'z sdcard_scheme \<Rightarrow> 'z sdcard_scheme option" where
  "loop_handler tgt jd exec env s = do {
     s1 \<leftarrow> (if main_task s = 0 then first_turn jd env s else Some s);
     let s2 = flush_sometimes env (s1\<lparr>loop_pending := False\<rparr>);
     let (r, s3) = ext env (Sys WdtReset) s2;
     chk (a_ret r);
     s4 \<leftarrow> jd Jd_process_everything s3;
     s5 \<leftarrow> worker_do_work env exec (main_worker s4) s4;
     s6 \<leftarrow> jd_tcpsock_process jd env s5;
     s7 \<leftarrow> uart_log_dmesg tgt env s6;
     let (f, s8) = ext env (Sys RxHasFrame) s7;
     if a_val f \<noteq> 0 then Some (post_loop env s8) else sync_main_loop_timer env s8
   }"

definition log_writefn :: "env \<Rightarrow> u8 list \<Rightarrow> 'z sdcard_scheme \<Rightarrow> int \<times> 'z sdcard_scheme" where
  "log_writefn env data s =
     (int (length data), emits env [Jd (Jd_lstore_append data), Jd (Jd_dmesg_write data)] s)"

text \<open>From the creation of the tick timer to the end of \<open>app_main\<close>.\<close>

definition start_loop :: "env \<Rightarrow> 'z sdcard_scheme \<Rightarrow> 'z sdcard_scheme option" where
  "start_loop env s = do {
     let (r, s1) = ext env (Sys (TimerCreate T_main_loop ''10ms'')) s;
     chk (a_ret r);
     s2 \<leftarrow> sync_main_loop_timer env s1;
     let (r, s3) = ext env (Sys (EventHandlerRegister ''loop_handler'')) s2;
     chk (a_ret r);
     let s4 = post_loop env (s3\<lparr>loop_pending := False\<rparr>);
     let (r, s5) = ext env (Sys WdtDelete) s4;
     chk (a_ret r);
     Some s5
   }"

definition app_main ::
    "target \<Rightarrow> nat \<Rightarrow> u32 \<Rightarrow> env \<Rightarrow> 'z sdcard_scheme \<Rightarrow> 'z sdcard_scheme option" where
  "app_main tgt num_max card_size env s = do {
     let (r, s) = ext env (Sys (WdtInit 5000 True)) s;
     chk (a_ret r);
     let (r, s) = ext env (Sys WdtAdd) s;
     chk (a_ret r);
     let s = usb_pre_init tgt env s;
     let (rnd, s) = ext env (Sys Esp_random) s;
     let s = emit env (Jd (Jd_seed_random (a_val rnd))) s;
     s \<leftarrow> init_sdcard tgt card_size env s;
     let s = emit env (Sys (RedirectStdout 128)) s;
     s \<leftarrow> flash_init env s;
     s \<leftarrow> usb_init tgt env s;
     let s = uart_log_init tgt env s;
     let s = emit env (Jd Jd_enable_serial) s;
     (w, s) \<leftarrow> worker_alloc env s;
     let s = s\<lparr>main_worker := w\<rparr>;
     let s = emits env [Sys EventLoopCreate, Jd Jd_settings_init] s;
     s \<leftarrow> tim_init env s;
     let s = emits env [Jd Jd_rx_init, Jd Jd_tx_init] s;
     s \<leftarrow> uart_init num_max env s;
     start_loop env s
   }"

end
