(* ===== verification/MainTurn.thy ===== *)
theory MainTurn
  imports AppMain SockMachine
begin

text \<open>
  One turn of the main loop of main/main.c in parts, and how a relation that the parts keep is lifted
  to whole turns, through the job queue, the poll of the network client and the logging UART
  (locales \<open>main_body\<close> and \<open>main_relation\<close>).
\<close>

section \<open>The parts of a turn\<close>

text \<open>The part of a turn after the flag has been cleared, up to the choice between another turn and
  the timer.\<close>

definition turn_body ::
    "target \<Rightarrow> 'z sdcard_scheme jd_callout \<Rightarrow> 'z sdcard_scheme exec \<Rightarrow> env \<Rightarrow>
     'z sdcard_scheme \<Rightarrow> 'z sdcard_scheme option" where
  "turn_body tgt jd exec env s = do {
     s4 \<leftarrow> jd Jd_process_everything (emit env (Sys WdtReset) (flush_sometimes env s));
     s5 \<leftarrow> worker_do_work env exec (main_worker s4) s4;
     s6 \<leftarrow> jd_tcpsock_process jd env s5;
     s7 \<leftarrow> uart_log_dmesg tgt env s6;
     Some (emit env (Sys RxHasFrame) s7)
   }"

lemma loop_handler_split:
  assumes "loop_handler tgt jd exec env s = Some t"
  obtains s1 s8 where "(if main_task s = 0 then first_turn jd env s else Some s) = Some s1"
    "turn_body tgt jd exec env (s1\<lparr>loop_pending := False\<rparr>) = Some s8"
    "t = post_loop env s8 \<or> sync_main_loop_timer env s8 = Some t"
  using assms by (auto simp: loop_handler_def turn_body_def Let_def split: if_split_asm)

section \<open>Relations that a turn keeps\<close>

text \<open>The calls that a turn makes itself, besides the poll of the network client.\<close>

fun turn_call :: "call \<Rightarrow> bool" where
  "turn_call (Rtos CurrentTask) = True"
| "turn_call (Rtos (QReceive q n)) = True"
| "turn_call (Rtos (QCreate n)) = True"
| "turn_call (Rtos (TaskCreate n m)) = True"
| "turn_call (Rtos (TaskDelay n)) = True"
| "turn_call (Sys WdtAdd) = True"
| "turn_call (Sys WdtReset) = True"
| "turn_call (Sys RxHasFrame) = True"
| "turn_call (Sys FlushStdout) = True"
| "turn_call (Sys LogTxfifoLen) = True"
| "turn_call (Sys (LogWrite bs)) = True"
| "turn_call (Sys (DmesgRead n p)) = True"
| "turn_call _ = False"

locale main_body =
  fixes env :: env
    and K :: "'z sdcard_scheme \<Rightarrow> 'z sdcard_scheme \<Rightarrow> bool"
  assumes m_refl: "K s s"
    and m_trans [trans]: "K s t \<Longrightarrow> K t u \<Longrightarrow> K s u"
    and m_call: "turn_call c \<Longrightarrow> K s (emit env c s)"
    and m_fields: "K s (s\<lparr>main_task := p\<rparr>)" "K s (s\<lparr>loop_n := n\<rparr>)" "K s (s\<lparr>dmesg_ptr := p\<rparr>)"
    and m_queues: "K s (s\<lparr>sock_cmds := q\<rparr>)" "K s (s\<lparr>sock_events := q\<rparr>)"
    and m_process: "jd_tcpsock_process jd env s = Some t \<Longrightarrow> (\<And>c a b. jd c a = Some b \<Longrightarrow> K a b) \<Longrightarrow> K s t"
begin

lemmas body_base [simp] = m_refl m_fields [THEN m_trans [rotated]] m_queues [THEN m_trans [rotated]]

lemma body_call [simp]: "K s t \<Longrightarrow> turn_call c \<Longrightarrow> K s (emit env c t)"
  by (rule m_trans [OF _ m_call])

lemma call_idle_K:
  assumes "call_idle exec w s = Some t" "\<And>f a x y. exec f a x = Some y \<Longrightarrow> K x y"
  shows "K s t"
  using assms by (auto simp: call_idle_def m_refl split: if_splits)

lemma do_work_K:
  assumes "worker_do_work env exec w s = Some t" and exec: "\<And>f a x y. exec f a x = Some y \<Longrightarrow> K x y"
  shows "K s t"
proof -
  have "env' = env \<longrightarrow> (\<forall>f a x y. exec f a x = Some y \<longrightarrow> K x y) \<longrightarrow> K s t"
    if "worker_do_work env' exec w s = Some t" for env' exec w s t
  proof (rule worker_do_work.raw_induct [where P = "\<lambda>env' exec w s t. env' = env \<longrightarrow>
      (\<forall>f a x y. exec f a x = Some y \<longrightarrow> K x y) \<longrightarrow> K s t", OF _ that], intro impI)
    fix g env' exec w s t
    assume IH: "\<And>env' exec w s t. g env' exec w s = Some t \<Longrightarrow>
        env' = env \<longrightarrow> (\<forall>f a x y. exec f a x = Some y \<longrightarrow> K x y) \<longrightarrow> K s t"
      and eq: "do {
         s1 \<leftarrow> call_idle exec w s;
         let (r, s2) = ext env' (Rtos (QReceive (w_queue (wheap s1 w)) 0)) s1;
         (case a_item r of
            Some (Job f a) \<Rightarrow> do { s3 \<leftarrow> exec f a s2; g env' exec w s3 }
          | None \<Rightarrow> Some s2
          | _ \<Rightarrow> None)
       } = Some t"
      and env: "env' = env" and exec: "\<forall>f a x y. exec f a x = Some y \<longrightarrow> K x y"
    from eq obtain s1 where s1: "call_idle exec w s = Some s1" by auto
    let ?s2 = "emit env (Rtos (QReceive (w_queue (wheap s1 w)) 0)) s1"
    have s2: "K s ?s2" using call_idle_K [OF s1] exec by simp
    have "K s t" if "exec f a ?s2 = Some z" "g env exec w z = Some t" for f a z
      using IH [OF that(2)] exec that(1) s2 m_trans by blast
    with eq s1 env s2 show "K s t" by (auto simp: Let_def split: option.splits q_item.splits)
  qed
  with assms show ?thesis by blast
qed

lemma log_loop_K:
  assumes "uart_log_loop env data s = Some t"
  shows "K s t"
proof -
  have "env' = env \<longrightarrow> K s t" if "uart_log_loop env' data s = Some t" for env' data s t
  proof (rule uart_log_loop.raw_induct [where P = "\<lambda>env' data s t. env' = env \<longrightarrow> K s t", OF _ that], intro impI)
    fix g env' data s t
    assume IH: "\<And>env' data s t. g env' data s = Some t \<Longrightarrow> env' = env \<longrightarrow> K s t"
      and eq: "(if data \<noteq> [] then
          let (f, s1) = ext env' (Sys LogTxfifoLen) s;
              n = (if a_val f mod 2 ^ 16 > length data then length data else a_val f mod 2 ^ 16);
              s2 = emit env' (Sys (LogWrite (take n data))) s1;
              s3 = emit env' (Rtos (TaskDelay 1)) s2
          in g env' (drop n data) s3
        else Some s) = Some t"
      and env: "env' = env"
    have "K s t" if "g env d (emit env (Rtos (TaskDelay 1)) (emit env (Sys (LogWrite bs))
        (emit env (Sys LogTxfifoLen) s))) = Some t" for d bs
      by (rule m_trans [OF _ IH [OF that, THEN mp, OF refl]]) simp
    with eq env show "K s t" by (auto simp: Let_def split: if_splits)
  qed
  with assms show ?thesis by blast
qed

lemma dmesg_loop_K:
  assumes "dmesg_loop env s = Some t"
  shows "K s t"
proof -
  have "env' = env \<longrightarrow> K s t" if "dmesg_loop env' s = Some t" for env' s t
  proof (rule dmesg_loop.raw_induct [where P = "\<lambda>env' s t. env' = env \<longrightarrow> K s t", OF _ that], intro impI)
    fix g env' s t
    assume IH: "\<And>env' s t. g env' s = Some t \<Longrightarrow> env' = env \<longrightarrow> K s t"
      and eq: "(let (f, s1) = ext env' (Sys LogTxfifoLen) s in
        if a_val f > 64 then
          let (r, s2) = ext env' (Sys (DmesgRead 64 (dmesg_ptr s1))) s1;
              s3 = s2\<lparr>dmesg_ptr := a_ptr r\<rparr>
          in if a_ret r > 0 then do {
               s4 \<leftarrow> uart_log_write env' (take (nat (a_ret r)) (a_bytes r)) (emit env' (Sys FlushStdout) s3);
               g env' s4
             }
             else Some s3
        else Some s1) = Some t"
      and env: "env' = env"
    let ?s1 = "emit env (Sys LogTxfifoLen) s"
    let ?s2 = "\<lambda>q. (emit env (Sys (DmesgRead 64 (dmesg_ptr ?s1))) ?s1)\<lparr>dmesg_ptr := q\<rparr>"
    have "K s t" if w: "uart_log_write env d (emit env (Sys FlushStdout) (?s2 q)) = Some z" "g env z = Some t"
      for d q z
    proof -
      have "K s (emit env (Sys FlushStdout) (?s2 q))" by simp
      moreover have "K (emit env (Sys FlushStdout) (?s2 q)) z"
        using w(1) by (auto simp: uart_log_write_def m_refl split: if_splits dest: log_loop_K)
      ultimately show ?thesis using IH [OF w(2)] m_trans by blast
    qed
    with eq env show "K s t" by (auto simp: Let_def split: if_splits)
  qed
  with assms show ?thesis by blast
qed

lemma log_dmesg_K: "uart_log_dmesg tgt env s = Some t \<Longrightarrow> K s t"
  by (auto simp: uart_log_dmesg_def m_refl split: if_splits dest: dmesg_loop_K)

lemma flush_K: "K s t \<Longrightarrow> K s (flush_sometimes env t)"
  by (simp add: flush_sometimes_def jd_usb_flush_stdout_def Let_def)

lemma first_turn_K:
  assumes "first_turn jd env s = Some t" "\<And>c a b. jd c a = Some b \<Longrightarrow> K a b"
  shows "K s t"
proof -
  obtain u v where "jd Jd_init v = Some u" "K s v" "t = jd_tcpsock_init env u"
    using assms(1) by (auto simp: first_turn_def split: if_splits)
  with assms(2) m_trans have "K s u" by blast
  with \<open>t = jd_tcpsock_init env u\<close> show ?thesis by (simp add: jd_tcpsock_init_def Let_def)
qed

lemma turn_body_K:
  assumes "turn_body tgt jd exec env s = Some t"
    and jd: "\<And>c a b. jd c a = Some b \<Longrightarrow> K a b" and exec: "\<And>f x a b. exec f x a = Some b \<Longrightarrow> K a b"
  shows "K s t"
proof -
  from assms(1) obtain s4 s5 s6 s7 where
      s4: "jd Jd_process_everything (emit env (Sys WdtReset) (flush_sometimes env s)) = Some s4"
    and s5: "worker_do_work env exec (main_worker s4) s4 = Some s5"
    and s6: "jd_tcpsock_process jd env s5 = Some s6" and s7: "uart_log_dmesg tgt env s6 = Some s7"
    and t: "t = emit env (Sys RxHasFrame) s7"
    by (auto simp: turn_body_def)
  have "K s (emit env (Sys WdtReset) (flush_sometimes env s))" by (simp add: flush_K)
  also have "K \<dots> s4" by (rule jd [OF s4])
  also have "K \<dots> s5" by (rule do_work_K [OF s5 exec])
  also have "K \<dots> s6" by (rule m_process [OF s6 jd])
  also have "K \<dots> s7" by (rule log_dmesg_K [OF s7])
  finally show ?thesis by (simp add: t)
qed

end

text \<open>Whole turns, the wake-ups and the tick timer included.\<close>

locale main_relation = main_body env K for env :: env and K :: "'z sdcard_scheme \<Rightarrow> 'z sdcard_scheme \<Rightarrow> bool" +
  assumes m_pending: "K s (s\<lparr>loop_pending := False\<rparr>)"
    and m_post: "K s (post_loop env s)"
    and m_sync: "sync_main_loop_timer env s = Some t \<Longrightarrow> K s t"
begin

lemma loop_handler_K:
  assumes "loop_handler tgt jd exec env s = Some t"
    and jd: "\<And>c a b. jd c a = Some b \<Longrightarrow> K a b" and exec: "\<And>f x a b. exec f x a = Some b \<Longrightarrow> K a b"
  shows "K s t"
proof -
  obtain s1 s8 where s1: "(if main_task s = 0 then first_turn jd env s else Some s) = Some s1"
    and s8: "turn_body tgt jd exec env (s1\<lparr>loop_pending := False\<rparr>) = Some s8"
    and t: "t = post_loop env s8 \<or> sync_main_loop_timer env s8 = Some t"
    by (rule loop_handler_split [OF assms(1)])
  have "K s s1" using s1 by (auto simp: m_refl split: if_splits intro: first_turn_K jd)
  also have "K \<dots> (s1\<lparr>loop_pending := False\<rparr>)" by (rule m_pending)
  also have "K \<dots> s8" by (rule turn_body_K [OF s8 jd exec])
  finally show ?thesis using t m_post m_sync m_trans by blast
qed

end

end
