(* ===== verification/Boot.thy ===== *)
theory Boot
  imports MainTurn JdCalls
begin

text \<open>
  The start of the firmware, \<open>app_main\<close> of main/main.c: what it leaves as it was. Nothing in it opens a
  connection, sends on the bus or takes from the USB stream, the interrupt lock is released, and
  nothing before \<open>start_loop\<close> touches the recorded period of the tick timer.
\<close>

section \<open>Idle connections\<close>

text \<open>The calls of the start.\<close>

fun start_call :: "call \<Rightarrow> bool" where
  "start_call (Net n) = False"
| "start_call (Usb (UsbPull n)) = False"
| "start_call (Usb (CdcWriteQueue bs)) = False"
| "start_call (Usb (JtagWriteTxfifo bs)) = False"
| "start_call (Usb (UsbWriteTxfifo bs)) = False"
| "start_call _ = True"

text \<open>What the start leaves as it was, besides the bus driver; \<open>start_loop\<close>, at its end, sets the period.\<close>

definition same_links :: "'z usb_scheme \<Rightarrow> 'z usb_scheme \<Rightarrow> bool" where
  "same_links s t \<longleftrightarrow> sock_fd t = sock_fd s \<and> is_tls t = is_tls s \<and> is_connected t = is_connected s \<and>
     log_inv [] 0 (io t) = log_inv [] 0 (io s) \<and> pulled (io t) = pulled (io s) \<and>
     sent_to_host (io t) = sent_to_host (io s)"

definition same_rest :: "'z usb_scheme \<Rightarrow> 'z usb_scheme \<Rightarrow> bool" where
  "same_rest s t \<longleftrightarrow> same_links s t \<and> max_sleep t = max_sleep s"

definition same_start :: "'z usb_scheme \<Rightarrow> 'z usb_scheme \<Rightarrow> bool" where
  "same_start s t \<longleftrightarrow> same_links s t \<and> int_level t = int_level s \<and> (uart_start s \<longrightarrow> uart_start t)"

definition same_boot :: "'z usb_scheme \<Rightarrow> 'z usb_scheme \<Rightarrow> bool" where
  "same_boot s t \<longleftrightarrow> same_start s t \<and> same_rest s t"

lemmas same_defs = same_links_def same_rest_def same_start_def same_boot_def

lemma same_boot_refl [simp]: "same_boot s s"
  by (simp add: same_defs)

lemma same_boot_trans: "same_boot s t \<Longrightarrow> same_boot t u \<Longrightarrow> same_boot s u"
  by (simp add: same_defs)

lemma start_call_io [simp]:
  assumes "start_call c"
  shows "log_inv [] 0 (io (emit env c s)) = log_inv [] 0 (io s)" "pulled (io (emit env c s)) = pulled (io s)"
    "sent_to_host (io (emit env c s)) = sent_to_host (io s)"
proof -
  have "inert c" using assms by (auto simp: inert_def split: call.split)
  then show "log_inv [] 0 (io (emit env c s)) = log_inv [] 0 (io s)" by (rule log_inv_inert)
qed (use assms in \<open>cases c rule: start_call.cases; simp add: io_emit\<close>)+

lemma uart_start_emit [simp]: "uart_start (emit env c s) = uart_start s"
  by (simp add: uart_start_def)

lemma same_boot_emit [simp]: "same_boot s t \<Longrightarrow> start_call c \<Longrightarrow> same_boot s (emit env c t)"
  by (simp add: same_defs)

lemma same_boot_emits [simp]: "same_boot s t \<Longrightarrow> list_all start_call cs \<Longrightarrow> same_boot s (emits env cs t)"
  by (induction cs arbitrary: t) (simp_all add: emits_Cons)

lemma same_boot_fields [simp]:
  "same_boot s (t\<lparr>memory := m\<rparr>) = same_boot s t" "same_boot s (t\<lparr>uart_num := n\<rparr>) = same_boot s t"
  "same_boot s (t\<lparr>uart_hw := p\<rparr>) = same_boot s t" "same_boot s (t\<lparr>pin_num := k\<rparr>) = same_boot s t"
  "same_boot s (t\<lparr>intr_handle := p\<rparr>) = same_boot s t" "same_boot s (t\<lparr>wheap := w\<rparr>) = same_boot s t"
  "same_boot s (t\<lparr>tim_worker := p\<rparr>) = same_boot s t" "same_boot s (t\<lparr>main_worker := p\<rparr>) = same_boot s t"
  "same_boot s (t\<lparr>usb_uart := p\<rparr>) = same_boot s t"
  "same_boot s (t\<lparr>timer_h := h\<rparr>) = same_boot s t" "same_boot s (t\<lparr>timer0_h := h\<rparr>) = same_boot s t"
  "same_boot s (t\<lparr>timer_worker_h := h\<rparr>) = same_boot s t" "same_boot s (t\<lparr>flash_size := z\<rparr>) = same_boot s t"
  "same_boot s (t\<lparr>log_uart := b\<rparr>) = same_boot s t"
  "same_boot s (t\<lparr>flash_base := z\<rparr>) = same_boot s t" "same_boot s (t\<lparr>flash_offset := z\<rparr>) = same_boot s t"
  by (simp_all add: same_defs uart_start_def)

lemma same_boot_pins [simp]:
  "same_boot s (t\<lparr>pin_miso := k\<rparr>) = same_boot s t" "same_boot s (t\<lparr>pin_mosi := k\<rparr>) = same_boot s t"
  "same_boot s (t\<lparr>pin_sck := k\<rparr>) = same_boot s t" "same_boot s (t\<lparr>pin_cs := k\<rparr>) = same_boot s t"
  for t :: "'z sdcard_scheme"
  by (simp_all add: same_defs uart_start_def)

section \<open>The operations of the start\<close>

text \<open>\<open>keeps_boot\<close> collects them.\<close>

named_theorems keeps_boot "operations of the start that leave the connections and the recorded period alone"

text \<open>A call leaves a state of which only that is known.\<close>

lemma boot_call:
  assumes "same_boot s t" "start_call c" "\<And>a u. same_boot s u \<Longrightarrow> returns (f a u) Q"
  shows "returns (Let (ext env c t) (\<lambda>(a, u). f a u)) Q"
  using assms by (simp add: ext_def)

lemma uart_call_start: "uart_call c \<Longrightarrow> start_call c"
  by (cases c rule: uart_call.cases) auto

interpretation links: uart_calls env same_rest for env
  by unfold_locales (simp_all add: same_rest_def same_links_def uart_call_start schedule_timer0_def emits_Cons)

lemma same_boot_disable: "same_boot s t \<Longrightarrow> returns (uart_disable env t) (same_boot s)"
proof (rule returnsI)
  fix u assume t: "same_boot s t" and u: "uart_disable env t = Some u"
  have "same_rest t u" by (rule returnsD [OF links.k_disable u]) simp
  moreover have "int_level u = int_level t" "uart_start t \<longrightarrow> uart_start u"
    using uart_disable_result [OF u] by (simp_all add: uart_start_def)
  ultimately have "same_boot t u" by (simp add: same_defs)
  with t show "same_boot s u" by (rule same_boot_trans)
qed

lemma same_boot_uart_init [keeps_boot]: "same_boot s t \<Longrightarrow> returns (uart_init n env t) (same_boot s)"
  unfolding uart_init_def
  by (rule boot_call [where s = s] walk same_boot_disable | simp; fail)+

lemma same_boot_worker_alloc [keeps_boot]:
  "same_boot s t \<Longrightarrow> returns (worker_alloc env t) (\<lambda>p. same_boot s (snd p))"
  unfolding worker_alloc_def by (rule boot_call [where s = s] walk | simp add: upd_worker_def; fail)+

lemma same_boot_tim_init [keeps_boot]: "same_boot s t \<Longrightarrow> returns (tim_init env t) (same_boot s)"
  unfolding tim_init_def
  by (rule boot_call [where s = s] walk same_boot_worker_alloc [where s = s, THEN returns_weaken] | simp; fail)+

lemma same_boot_flash_init [keeps_boot]: "same_boot s t \<Longrightarrow> returns (flash_init env t) (same_boot s)"
  unfolding flash_init_def by (rule boot_call [where s = s] walk | simp; fail)+

lemma same_boot_usb_init [keeps_boot]: "same_boot s t \<Longrightarrow> returns (usb_init tgt env t) (same_boot s)"
  unfolding usb_init_def usb_init_s3_def usb_init_c3_def usb_init_esp32_def
  by (cases tgt; simp only: target.case) (rule boot_call [where s = s] walk | simp; fail)+

lemma same_boot_jd_alloc: "same_boot s t \<Longrightarrow> returns (jd_alloc env n t) (\<lambda>p. same_boot s (snd p))"
  unfolding jd_alloc_def by (rule boot_call [where s = s] walk | simp; fail)+

lemma same_boot_start_card: "same_boot s t \<Longrightarrow> returns (start_card n env t) (same_boot s)"
  unfolding start_card_def jd_free_def
  by (rule boot_call [where s = s] walk same_boot_jd_alloc [where s = s, THEN returns_weaken] | simp; fail)+

lemma same_boot_init_sdcard [keeps_boot]: "same_boot s t \<Longrightarrow> returns (init_sdcard tgt n env t) (same_boot s)"
proof -
  assume "same_boot s t"
  then have pins: "same_boot s (read_sd_pins env t)" by (simp add: read_sd_pins_def Let_def)
  show ?thesis unfolding init_sdcard_def by (rule walk same_boot_start_card | simp add: pins; fail)+
qed

lemma same_boot_pre_init [simp]:
  "same_boot s t \<Longrightarrow> same_boot s (usb_pre_init tgt env t)" "same_boot s t \<Longrightarrow> same_boot s (uart_log_init tgt env t)"
  by (auto simp: usb_pre_init_def uart_log_init_def Let_def)

lemma app_main_boot:
  "returns (app_main tgt num_max card_size env s) (\<lambda>t. \<exists>u. same_boot s u \<and> start_loop env u = Some t)"
  unfolding app_main_def
  by (rule boot_call [where s = s] keeps_boot [where s = s, THEN returns_weaken] walk
      | simp; fail | rule returnsI; rule exI; (rule conjI, rotate_tac -1); assumption)+

section \<open>The end of the start\<close>

lemma same_start_sync: "sync_main_loop_timer env s = Some t \<Longrightarrow> same_start s t"
  by (auto simp: sync_main_loop_timer_def same_start_def same_links_def uart_start_def Let_def split: if_splits)

lemma same_start_loop: "start_loop env s = Some t \<Longrightarrow> same_start s t"
  by (auto simp: start_loop_def post_loop_def same_start_def same_links_def uart_start_def Let_def
      split: if_splits dest!: same_start_sync)

lemma app_main_starts:
  assumes "app_main tgt num_max card_size env s = Some t"
  shows "same_start s t"
  using returnsD [OF app_main_boot assms] by (auto simp: same_defs dest!: same_start_loop)

end
