(* ===== verification/MainLoop.thy ===== *)
theory MainLoop
  imports Boot
begin

text \<open>
  The main loop of main/main.c as a whole: what every turn keeps, stated once for any law about the
  loop's own state (locale \<open>loop_law\<close>), and two laws: the tick timer runs, and the event queue holds
  exactly the wake-up that is pending.
\<close>

section \<open>What a turn keeps\<close>

text \<open>A law speaks of the recorded period, the pending flag and the history.\<close>

definition loop_inv :: "(u16 \<Rightarrow> bool \<Rightarrow> io_log \<Rightarrow> bool) \<Rightarrow> 'z main_state_scheme \<Rightarrow> bool" where
  "loop_inv Q s \<longleftrightarrow> Q (max_sleep s) (loop_pending s) (io s)"

text \<open>Calls that neither post an event nor touch the timer of the main loop.\<close>

definition quiet_call :: "call \<Rightarrow> bool" where
  "quiet_call c \<longleftrightarrow> c \<noteq> Sys EventPost \<and> c \<noteq> Sys (TimerStop T_main_loop) \<and>
     (\<forall>n. c \<noteq> Sys (TimerStartPeriodic T_main_loop n))"

lemma quiet_call_simps [simp]:
  "quiet_call (Rtos r)" "quiet_call (Net nc)" "quiet_call (Jd j)" "quiet_call (Sys WdtAdd)"
  "quiet_call (Sys WdtReset)" "quiet_call (Sys RxHasFrame)" "quiet_call (Sys FlushStdout)"
  "quiet_call (Sys LogTxfifoLen)" "quiet_call (Sys (LogWrite bs))" "quiet_call (Sys (DmesgRead n p))"
  "quiet_call (Sys WdtDelete)" "quiet_call (Sys (EventHandlerRegister x))"
  by (simp_all add: quiet_call_def)

text \<open>Functions that keep a law.\<close>

definition keeps_law ::
    "(u16 \<Rightarrow> bool \<Rightarrow> io_log \<Rightarrow> bool) \<Rightarrow> ('z main_state_scheme \<Rightarrow> 'z main_state_scheme option) \<Rightarrow> bool" where
  "keeps_law Q f \<longleftrightarrow> (\<forall>s t. f s = Some t \<longrightarrow> loop_inv Q s \<longrightarrow> loop_inv Q t)"

locale loop_law =
  fixes Q :: "u16 \<Rightarrow> bool \<Rightarrow> io_log \<Rightarrow> bool"
  assumes quiet: "quiet_call c \<Longrightarrow> Q m p ((c, a) # l) = Q m p l"
begin

lemma loop_inv_emit: "quiet_call c \<Longrightarrow> loop_inv Q (emit env c s) = loop_inv Q s"
  for s :: "'z main_state_scheme"
  by (simp add: loop_inv_def io_emit quiet)

lemma keeps_lawD: "keeps_law Q f \<Longrightarrow> f s = Some t \<Longrightarrow> loop_inv Q s \<Longrightarrow> loop_inv Q t"
  by (simp add: keeps_law_def)

abbreviation keeping :: "'z main_state_scheme \<Rightarrow> 'z main_state_scheme \<Rightarrow> bool" where
  "keeping s t \<equiv> loop_inv Q s \<longrightarrow> loop_inv Q t"

lemma loop_inv_raise_error: "loop_inv Q (raise_error env msg s) = loop_inv Q s" for s :: "'z main_state_scheme"
  by (cases msg) (simp_all add: raise_error_def push_error_def push_event_def jd_tcpsock_close_def loop_inv_emit
      loop_inv_def io_emit quiet emits_Cons Let_def)

end

sublocale loop_law \<subseteq> polls: sock_polls env keeping for env
  by unfold_locales (simp_all add: loop_inv_emit loop_inv_raise_error)

sublocale loop_law \<subseteq> body: main_body env keeping for env
proof unfold_locales
  fix c and s :: "'a sdcard_scheme"
  assume "turn_call c"
  then have "quiet_call c" by (cases c rule: turn_call.cases) simp_all
  then show "keeping s (emit env c s)" by (simp add: loop_inv_emit)
next
  fix jd and s t :: "'a sdcard_scheme"
  assume "jd_tcpsock_process jd env s = Some t" "\<And>c a b. jd c a = Some b \<Longrightarrow> keeping a b"
  then show "keeping s t" by (rule polls.process_K)
qed (simp_all add: loop_inv_def)

context loop_law begin

lemma keeps_first_turn:
  assumes "\<And>c. keeps_law Q (jd c)" "first_turn jd env s = Some t" "loop_inv Q s"
  shows "loop_inv Q t"
  using body.first_turn_K [OF assms(2)] assms(1,3) by (auto simp: keeps_law_def)

lemma keeps_turn_body:
  assumes "\<And>c. keeps_law Q (jd c)" "\<And>f a. keeps_law Q (exec f a)"
    and "turn_body tgt jd exec env s = Some t" "loop_inv Q s"
  shows "loop_inv Q t"
  using body.turn_body_K [OF assms(3)] assms(1,2,4) by (auto simp: keeps_law_def)

end

section \<open>The tick\<close>

text \<open>The timer of the main loop runs, with the period last recorded.\<close>

definition ticking :: "u16 \<Rightarrow> bool \<Rightarrow> io_log \<Rightarrow> bool" where
  "ticking m p l \<longleftrightarrow> m \<noteq> 0 \<and> loop_period l = Some (unat m)"

lemma loop_period_other: "quiet_call c \<Longrightarrow> loop_period ((c, a) # l) = loop_period l"
proof (cases c)
  case (Sys x)
  assume "quiet_call c"
  with Sys show ?thesis by (cases x) (auto simp: quiet_call_def)
qed simp_all

interpretation tick: loop_law ticking
  by unfold_locales (simp add: ticking_def loop_period_other)

lemma ticking_pending [simp]: "loop_inv ticking (s\<lparr>loop_pending := b\<rparr>) = loop_inv ticking s"
  for s :: "'z main_state_scheme"
  by (simp add: loop_inv_def ticking_def)

lemma ticking_post_loop [simp]: "loop_inv ticking (post_loop env s) = loop_inv ticking s"
  for s :: "'z main_state_scheme"
  by (simp add: post_loop_def loop_inv_def ticking_def io_emit)

lemma ticking_emit_post [simp]: "loop_inv ticking (emit env (Sys EventPost) s) = loop_inv ticking s"
  for s :: "'z main_state_scheme"
  by (simp add: loop_inv_def ticking_def io_emit)

text \<open>Synchronising sets the timer going with the requested period.\<close>

lemma sync_tick:
  assumes "sync_main_loop_timer env s = Some t" "max_sleep s = 0 \<or> loop_inv ticking s"
  shows "loop_inv ticking t \<and> max_sleep t = tim_max_sleep t"
  using assms
  by (auto simp: sync_main_loop_timer_def loop_inv_def ticking_def io_emit query_def Let_def split: if_splits)

lemma loop_handler_alive:
  assumes jd: "\<And>c. keeps_law ticking (jd c)" and exec: "\<And>f a. keeps_law ticking (exec f a)"
    and "loop_handler tgt jd exec env s = Some t" "loop_inv ticking s"
  shows "loop_inv ticking t"
proof -
  obtain s1 s8 where s1: "(if main_task s = 0 then first_turn jd env s else Some s) = Some s1"
    and s8: "turn_body tgt jd exec env (s1\<lparr>loop_pending := False\<rparr>) = Some s8"
    and t: "t = post_loop env s8 \<or> sync_main_loop_timer env s8 = Some t"
    by (rule loop_handler_split [OF assms(3)])
  have "loop_inv ticking s1"
    using s1 assms(4) tick.keeps_first_turn [OF jd] by (auto split: if_splits)
  then have "loop_inv ticking s8" using tick.keeps_turn_body [OF jd exec s8] by simp
  with t sync_tick show ?thesis by auto
qed

text \<open>\<open>start_loop\<close> sets the timer going.\<close>

lemma start_loop_tick:
  assumes "start_loop env s = Some t" "max_sleep s = 0"
  shows "loop_inv ticking t \<and> loop_pending t"
  using assms
  by (auto simp: start_loop_def post_loop_def tick.loop_inv_emit Let_def split: if_splits dest!: sync_tick)

section \<open>Properties\<close>

text \<open>What drives the firmware after its start: turns of the main loop, and wake-ups from the tick timer,
  from interrupts and from other tasks.\<close>

inductive main_step ::
    "target \<Rightarrow> 'z sdcard_scheme jd_callout \<Rightarrow> 'z sdcard_scheme exec \<Rightarrow> env \<Rightarrow>
     'z sdcard_scheme \<Rightarrow> 'z sdcard_scheme \<Rightarrow> bool"
  for tgt :: target and jd :: "'z sdcard_scheme jd_callout" and exec :: "'z sdcard_scheme exec" and env :: env where
  turn: "loop_handler tgt jd exec env s = Some t \<Longrightarrow> main_step tgt jd exec env s t"
| wake: "main_step tgt jd exec env s (jdesp_wake_main env s)"

definition started :: "target \<Rightarrow> nat \<Rightarrow> u32 \<Rightarrow> env \<Rightarrow> 'z sdcard_scheme \<Rightarrow> bool" where
  "started tgt num_max card_size env s \<longleftrightarrow>
     (\<exists>s0. max_sleep s0 = 0 \<and> app_main tgt num_max card_size env s0 = Some s)"

definition tick_inv :: "'z sdcard_scheme jd_callout \<Rightarrow> 'z sdcard_scheme exec \<Rightarrow> 'z sdcard_scheme \<Rightarrow> bool" where
  "tick_inv jd exec s \<longleftrightarrow> (\<forall>c. keeps_law ticking (jd c)) \<longrightarrow> (\<forall>f a. keeps_law ticking (exec f a)) \<longrightarrow> loop_inv ticking s"

lemma app_main_tick:
  assumes "app_main tgt num_max card_size env s = Some t" "max_sleep s = 0"
  shows "loop_inv ticking t \<and> loop_pending t"
  using returnsD [OF app_main_boot assms(1)] assms(2) start_loop_tick by (metis same_boot_def same_rest_def)

interpretation main_safety:
  safety "started tgt num_max card_size env" "main_step tgt jd exec env" "tick_inv jd exec"
  for tgt num_max card_size env jd exec
proof
  show "tick_inv jd exec s" if "started tgt num_max card_size env s" for s
    using that by (auto simp: started_def tick_inv_def dest: app_main_tick)
next
  fix s t assume "main_step tgt jd exec env s t" "tick_inv jd exec s"
  then show "tick_inv jd exec t"
    by cases (auto simp: tick_inv_def jdesp_wake_main_def intro: loop_handler_alive)
qed

text \<open>C15: once the firmware has started, the timer that wakes the main loop is running in every state that
  turns and wake-ups lead to, with the period last requested, which is at most 65.535
  milliseconds, provided only that jacdac-c and the queued jobs do not stop that timer themselves.\<close>

theorem main_loop_ticks:
  assumes "\<forall>c. keeps_law ticking (jd c)" "\<forall>f a. keeps_law ticking (exec f a)"
    and "app_main tgt num_max card_size env s0 = Some s" "max_sleep s0 = 0"
    and "(main_step tgt jd exec env)\<^sup>*\<^sup>* s t"
  shows "loop_period (io t) = Some (unat (max_sleep t)) \<and> 0 < unat (max_sleep t) \<and> unat (max_sleep t) < 65536"
proof -
  have "started tgt num_max card_size env s" using assms(3,4) by (auto simp: started_def)
  from main_safety.inv_reachable [OF this assms(5)] assms(1,2) have "loop_inv ticking t"
    by (simp add: tick_inv_def)
  moreover have "unat (max_sleep t) < 65536" by (rule order_less_le_trans [OF unsigned_less]) simp
  ultimately show ?thesis by (simp add: loop_inv_def ticking_def unat_gt_0)
qed

section \<open>The event queue\<close>

text \<open>Events that the event loop has taken into its queue.\<close>

fun posted :: "io_log \<Rightarrow> nat" where
  "posted [] = 0"
| "posted ((Sys EventPost, a) # l) = (if a_ret a = 0 then Suc (posted l) else posted l)"
| "posted (_ # l) = posted l"

definition posts_accepted :: "env \<Rightarrow> bool" where
  "posts_accepted env \<longleftrightarrow> (\<forall>l. a_ret (env (Sys EventPost) l) = 0)"

text \<open>Turns take an event out of the queue, and run only if there is one; everything may post. A state is
  the number of queued events and the state of the program.\<close>

inductive queue_step ::
    "target \<Rightarrow> 'z sdcard_scheme jd_callout \<Rightarrow> 'z sdcard_scheme exec \<Rightarrow> env \<Rightarrow>
     nat \<times> 'z sdcard_scheme \<Rightarrow> nat \<times> 'z sdcard_scheme \<Rightarrow> bool"
  for tgt :: target and jd :: "'z sdcard_scheme jd_callout" and exec :: "'z sdcard_scheme exec" and env :: env where
  turn: "loop_handler tgt jd exec env s = Some t \<Longrightarrow>
    queue_step tgt jd exec env (Suc q, s) (q + (posted (io t) - posted (io s)), t)"
| wake: "t = jdesp_wake_main env s \<Longrightarrow>
    queue_step tgt jd exec env (q, s) (q + (posted (io t) - posted (io s)), t)"

text \<open>Callbacks and jobs that touch the flag and the queue only through wake-ups.\<close>

definition wakes_only :: "('z main_state_scheme \<Rightarrow> 'z main_state_scheme option) \<Rightarrow> bool" where
  "wakes_only f \<longleftrightarrow> (\<forall>s t. f s = Some t \<longrightarrow>
     (if loop_pending s then loop_pending t \<and> posted (io t) = posted (io s)
      else posted (io t) = posted (io s) + (if loop_pending t then 1 else 0)))"

text \<open>Two laws: since the flag was clear with \<open>k\<close> events posted, a further one was posted exactly if the flag
  is set; and the flag is set with \<open>k\<close> events posted.\<close>

definition flag_law :: "nat \<Rightarrow> u16 \<Rightarrow> bool \<Rightarrow> io_log \<Rightarrow> bool" where
  "flag_law k m p l \<longleftrightarrow> posted l = k + (if p then 1 else 0)"

definition busy_law :: "nat \<Rightarrow> u16 \<Rightarrow> bool \<Rightarrow> io_log \<Rightarrow> bool" where
  "busy_law k m p l \<longleftrightarrow> p \<and> posted l = k"

lemma posted_other: "quiet_call c \<Longrightarrow> posted ((c, a) # l) = posted l"
proof (cases c)
  case (Sys x)
  assume "quiet_call c"
  with Sys show ?thesis by (cases x) (auto simp: quiet_call_def)
qed simp_all

interpretation flag: loop_law "flag_law k" for k
  by unfold_locales (simp add: flag_law_def posted_other)

interpretation busy: loop_law "busy_law k" for k
  by unfold_locales (simp add: busy_law_def posted_other)

lemma wakes_only_laws:
  assumes "wakes_only f"
  shows "keeps_law (flag_law k) f" "keeps_law (busy_law k) f"
  using assms by (auto simp: wakes_only_def keeps_law_def loop_inv_def flag_law_def busy_law_def split: if_splits)

lemma posted_sync:
  assumes "sync_main_loop_timer env s = Some t"
  shows "posted (io t) = posted (io s) \<and> loop_pending t = loop_pending s"
  using assms by (auto simp: sync_main_loop_timer_def io_emit Let_def split: if_splits)

lemma posted_post_loop:
  assumes "posts_accepted env"
  shows "loop_pending (post_loop env s) \<and>
    posted (io (post_loop env s)) = posted (io s) + (if loop_pending s then 0 else 1)"
  using assms by (simp add: post_loop_def posts_accepted_def io_emit)

text \<open>A turn that starts with the flag set leaves it set exactly if it has posted an event.\<close>

lemma turn_posts:
  assumes env: "posts_accepted env" and jd: "\<And>c. wakes_only (jd c)" and exec: "\<And>f a. wakes_only (exec f a)"
    and run: "loop_handler tgt jd exec env s = Some t" and flag: "loop_pending s"
  shows "posted (io t) = posted (io s) + (if loop_pending t then 1 else 0)"
proof -
  let ?k = "posted (io s)"
  obtain s1 s8 where s1: "(if main_task s = 0 then first_turn jd env s else Some s) = Some s1"
    and s8: "turn_body tgt jd exec env (s1\<lparr>loop_pending := False\<rparr>) = Some s8"
    and t: "t = post_loop env s8 \<or> sync_main_loop_timer env s8 = Some t"
    by (rule loop_handler_split [OF run])
  have "loop_inv (busy_law ?k) s" using flag by (simp add: loop_inv_def busy_law_def)
  then have "loop_inv (busy_law ?k) s1"
    using s1 busy.keeps_first_turn [OF wakes_only_laws(2) [OF jd]] by (auto split: if_splits)
  then have "loop_inv (flag_law ?k) (s1\<lparr>loop_pending := False\<rparr>)"
    by (simp add: loop_inv_def busy_law_def flag_law_def)
  then have "loop_inv (flag_law ?k) s8"
    by (rule flag.keeps_turn_body [OF wakes_only_laws(1) [OF jd] wakes_only_laws(1) [OF exec] s8])
  with t posted_post_loop [OF env, of s8] show ?thesis
    by (auto simp: loop_inv_def flag_law_def dest!: posted_sync)
qed

definition queue_inv :: "nat \<times> 'z main_state_scheme \<Rightarrow> bool" where
  "queue_inv c \<longleftrightarrow> fst c = (if loop_pending (snd c) then 1 else 0)"

lemma queue_step_inv:
  assumes "posts_accepted env" "\<And>c. wakes_only (jd c)" "\<And>f a. wakes_only (exec f a)"
    and "queue_step tgt jd exec env c d" "queue_inv c"
  shows "queue_inv d"
  using assms(4,5)
proof cases
  case (turn s t q)
  with assms(5) have "loop_pending s" "q = 0" by (auto simp: queue_inv_def split: if_splits)
  with turn_posts [OF assms(1-3) turn(3)] turn(2) show ?thesis by (auto simp: queue_inv_def)
next
  case (wake t s q)
  with assms(5) posted_post_loop [OF assms(1), of s] show ?thesis
    by (auto simp: queue_inv_def jdesp_wake_main_def)
qed


text \<open>C32: the result of posting is ignored: once the event loop has refused an event while its queue is
  empty, no turn runs any more, and neither the tick timer nor any other wake-up has an effect.\<close>

theorem refused_event_stops_loop:
  assumes "\<not> loop_pending s" "a_ret (query env (Sys EventPost) (s\<lparr>loop_pending := True\<rparr>)) \<noteq> 0"
    and "(queue_step tgt jd exec env)\<^sup>*\<^sup>* (0, jdesp_wake_main env s) (q, t)"
  shows "q = 0 \<and> t = jdesp_wake_main env s \<and> posted (io t) = posted (io s)"
proof -
  let ?u = "jdesp_wake_main env s"
  have u: "loop_pending ?u" "posted (io ?u) = posted (io s)"
    using assms(1,2) by (simp_all add: jdesp_wake_main_def post_loop_def io_emit query_def)
  have "d = (0, ?u)" if "(queue_step tgt jd exec env)\<^sup>*\<^sup>* (0, ?u) d" for d
    using that
  proof (induction rule: rtranclp_induct)
    case (step d e)
    from step.hyps(2) step.IH u(1) show ?case by cases (auto simp: jdesp_wake_main_def post_loop_def)
  qed simp
  from this [OF assms(3)] u(2) show ?thesis by simp
qed

section \<open>Witness\<close>

text \<open>A board without SD card, Jacdac bus and log pin, whose flash has a storage partition.\<close>

definition app_ans :: "call \<Rightarrow> ans" where
  "app_ans c = (case c of
      Sys (PartitionFind a b) \<Rightarrow> ans0\<lparr>a_ptr := 0x3FC0, a_list := [0x3E0000, 0x20000]\<rparr>
    | Sys (FlashMmap a b) \<Rightarrow> ans0\<lparr>a_ptr := 0x3C0B0000\<rparr>
    | Sys (DcfgPin n) \<Rightarrow> ans0\<lparr>a_val := 255\<rparr>
    | Rtos (Calloc n) \<Rightarrow> ans0\<lparr>a_ptr := 0x3FFB0000\<rparr>
    | Net (Socket a) \<Rightarrow> ans0\<lparr>a_ret := 54\<rparr>
    | _ \<Rightarrow> ans0)"

definition app_env :: env where
  "app_env c l = app_ans c"

lemma query_app_env [simp]: "query app_env c s = app_ans c"
  by (simp add: query_def app_env_def)

text \<open>jacdac-c and jobs that only leave a mark.\<close>

definition log_jd :: "env \<Rightarrow> 'z sdcard_scheme jd_callout" where
  "log_jd env c s = Some (emit env (Jd c) s)"

lemma keeps_log: "keeps_law ticking (log_jd env c)" "keeps_law ticking (log_exec env f a)"
  by (simp_all add: keeps_law_def log_jd_def log_exec_def tick.loop_inv_emit)

text \<open>On this board a turn of the loop returns, the first one included.\<close>

lemma is_connected_emit [simp]: "is_connected (emit env c s) = is_connected s" for s :: "'z sock_scheme"
  by (simp add: emit_def)

lemma app_worker_drained:
  "\<exists>t. worker_do_work app_env (log_exec app_env) w s = Some t \<and> is_connected t = is_connected s"
  for s :: "'z sock_scheme"
  by (subst worker_do_work.simps) (simp add: call_idle_def log_exec_def app_ans_def ans0_def)

lemma app_no_events: "event_loop jd app_env s = Some (emit app_env (Rtos (QReceive (sock_events s) 0)) s)"
  by (subst event_loop.simps) (simp add: app_ans_def ans0_def)

lemma app_no_log: "\<exists>t. uart_log_dmesg tgt app_env s = Some t"
  unfolding uart_log_dmesg_def by (subst dmesg_loop.simps) (simp add: app_ans_def ans0_def)

lemma app_turn_returns:
  assumes "\<not> is_connected s"
  shows "\<exists>t. loop_handler tgt (log_jd app_env) (log_exec app_env) app_env s = Some t"
proof -
  obtain s1 where s1: "(if main_task s = 0 then first_turn (log_jd app_env) app_env s else Some s) = Some s1"
      "\<not> is_connected s1"
    using assms by (cases "main_task s = 0") (simp_all add: first_turn_def log_jd_def jd_tcpsock_init_def app_ans_def ans0_def Let_def)
  let ?s4 = "emit app_env (Jd Jd_process_everything) (emit app_env (Sys WdtReset)
      (flush_sometimes app_env (s1\<lparr>loop_pending := False\<rparr>)))"
  have "is_connected ?s4 = is_connected s1"
    by (simp add: flush_sometimes_def jd_usb_flush_stdout_def Let_def)
  then obtain s5 where s5: "worker_do_work app_env (log_exec app_env) (main_worker ?s4) ?s4 = Some s5" "\<not> is_connected s5"
    using app_worker_drained [of "main_worker ?s4" ?s4] s1(2) by auto
  obtain s7 where s7: "uart_log_dmesg tgt app_env (emit app_env (Rtos (QReceive (sock_events s5) 0)) s5) = Some s7"
    using app_no_log by blast
  have "\<exists>t. sync_main_loop_timer app_env u = Some t" for u :: "'a sdcard_scheme"
    by (simp add: sync_main_loop_timer_def app_ans_def ans0_def Let_def)
  then show ?thesis
    using s1 s5 s7 by (simp add: loop_handler_def log_jd_def jd_tcpsock_process_def app_no_events app_ans_def ans0_def)
qed

lemma app_main_turn: "\<exists>s t. app_main ESP32C3 2 100 app_env boot_sd = Some s \<and>
   loop_handler ESP32C3 (log_jd app_env) (log_exec app_env) app_env s = Some t"
proof -
  have "\<exists>s. app_main ESP32C3 2 100 app_env boot_sd = Some s \<and> \<not> is_connected s"
  by (simp add: app_main_def init_sdcard_def read_sd_pins_def sd_pin_missing_def flash_init_def usb_init_def usb_init_c3_def
      worker_alloc_def tim_init_def uart_init_def start_loop_def sync_main_loop_timer_def app_ans_def ans0_def NO_PIN_def
      JD_FLASH_PAGE_SIZE_def Let_def emits_Cons usb_pre_init_def upd_worker_def uart_log_init_def post_loop_def) (simp add: boot_defs)
  then show ?thesis using app_turn_returns by blast
qed

lemma two_steps: "r x y \<Longrightarrow> r y z \<Longrightarrow> r\<^sup>*\<^sup>* x z"
  by (blast intro: converse_rtranclp_into_rtranclp)

theorem main_loop_ticks_witness:
  "\<exists>s u t. app_main ESP32C3 2 100 app_env boot_sd = Some s \<and>
    loop_handler ESP32C3 (log_jd app_env) (log_exec app_env) app_env s = Some u \<and>
    t = jdesp_wake_main app_env u \<and>
    loop_period (io t) = Some (unat (max_sleep t)) \<and> 0 < unat (max_sleep t)"
proof -
  obtain s u where s: "app_main ESP32C3 2 100 app_env boot_sd = Some s"
      "loop_handler ESP32C3 (log_jd app_env) (log_exec app_env) app_env s = Some u"
    using app_main_turn by blast
  let ?t = "jdesp_wake_main app_env u"
  have "(main_step ESP32C3 (log_jd app_env) (log_exec app_env) app_env)\<^sup>*\<^sup>* s ?t"
    using main_step.turn [OF s(2)] main_step.wake by (rule two_steps)
  moreover have "max_sleep boot_sd = 0" by (simp add: boot_defs)
  ultimately show ?thesis
    using main_loop_ticks [where jd = "log_jd app_env" and exec = "log_exec app_env", OF _ _ s(1)] keeps_log s by blast
qed


text \<open>An event loop whose queue is full.\<close>

definition full_env :: env where
  "full_env c l = (if c = Sys EventPost then ans0\<lparr>a_ret := -1\<rparr> else ans0)"

theorem refused_event_stops_loop_witness:
  "\<exists>q t. (queue_step ESP32C3 (log_jd full_env) (log_exec full_env) full_env)\<^sup>*\<^sup>*
      (0, jdesp_wake_main full_env boot_sd) (q, t) \<and> q = 0 \<and> posted (io t) = 0"
proof -
  let ?t = "jdesp_wake_main full_env (jdesp_wake_main full_env boot_sd)"
  have "\<not> loop_pending boot_sd"
      "a_ret (query full_env (Sys EventPost) (boot_sd\<lparr>loop_pending := True\<rparr>)) \<noteq> 0"
      "posted (io boot_sd) = 0"
    by (simp_all add: boot_defs query_def full_env_def)
  note boot = this
  have run: "(queue_step ESP32C3 (log_jd full_env) (log_exec full_env) full_env)\<^sup>*\<^sup>*
      (0, jdesp_wake_main full_env boot_sd)
      (0 + (posted (io ?t) - posted (io (jdesp_wake_main full_env boot_sd))), ?t)"
    by (intro r_into_rtranclp queue_step.wake) simp
  from refused_event_stops_loop [OF boot(1,2) run] boot(3) run show ?thesis by auto
qed

end
