(* ===== verification/UsbCalls.thy ===== *)
theory UsbCalls
  imports Usb
begin

text \<open>
  How a relation that every call and every update of main/usb.c keeps is lifted to its operations, on
  any chip, and so to its steps (locale \<open>usb_calls\<close>).
\<close>

section \<open>Steps of the USB stream\<close>

text \<open>The loops, which make no other calls and update nothing.\<close>

locale usb_loops =
  fixes env :: env
    and K :: "'z usb_scheme \<Rightarrow> 'z usb_scheme \<Rightarrow> bool"
  assumes b_refl: "K s s"
    and b_trans: "K s t \<Longrightarrow> K t w \<Longrightarrow> K s w"
    and b_call: "K s (emit env (Usb c) s)"
begin

lemmas loop_base [simp] = b_refl b_call [THEN b_trans [rotated]]

lemma fill_queue_loop_K:
  assumes "fill_queue_loop env s = Some t"
  shows "K s t"
proof -
  have "env' = env \<longrightarrow> K s t" if "fill_queue_loop env' s = Some t" for env' s t
  proof (rule fill_queue_loop.raw_induct [where P = "\<lambda>env' s t. env' = env \<longrightarrow> K s t", OF _ that], intro impI)
    fix g env' s t
    assume IH: "\<And>env' s t. g env' s = Some t \<Longrightarrow> env' = env \<longrightarrow> K s t"
      and eq: "(let (n, s1) = ext env' (Usb CdcWriteAvailable) s in
        if a_val n \<ge> 64 then
          let (r, s2) = ext env' (Usb (UsbPull 64)) s1; sz = a_ret r in
          if sz > 0 then
            g env' (emits env' [Usb (CdcWriteQueue (take (nat sz) (a_bytes r))), Usb CdcWriteFlush] s2)
          else Some s2
        else Some s1) = Some t"
      and env: "env' = env"
    have "K s t" if "g env (emit env (Usb CdcWriteFlush) (emit env (Usb (CdcWriteQueue bs))
        (emit env (Usb (UsbPull 64)) (emit env (Usb CdcWriteAvailable) s)))) = Some t" for bs
      by (rule b_trans [OF _ IH [OF that, THEN mp, OF refl]]) simp
    with eq env show "K s t" by (auto simp: Let_def emits_Cons split: if_splits)
  qed
  with assms show ?thesis by blast
qed

lemma cdc_read_loop_K:
  assumes "cdc_read_loop env s = Some t"
  shows "K s t"
proof -
  have "env' = env \<longrightarrow> K s t" if "cdc_read_loop env' s = Some t" for env' s t
  proof (rule cdc_read_loop.raw_induct [where P = "\<lambda>env' s t. env' = env \<longrightarrow> K s t", OF _ that], intro impI)
    fix g env' s t
    assume IH: "\<And>env' s t. g env' s = Some t \<Longrightarrow> env' = env \<longrightarrow> K s t"
      and eq: "(let (r, s1) = ext env' (Usb (CdcRead 64)) s; rx_size = a_val r in
        if a_ret r \<ge> 0 \<and> rx_size > 0
        then g env' (emit env' (Usb (UsbPush (take rx_size (a_bytes r)))) s1)
        else Some s1) = Some t"
      and env: "env' = env"
    have "K s t" if "g env (emit env (Usb (UsbPush bs)) (emit env (Usb (CdcRead 64)) s)) = Some t" for bs
      by (rule b_trans [OF _ IH [OF that, THEN mp, OF refl]]) simp
    with eq env show "K s t" by (auto simp: Let_def split: if_splits)
  qed
  with assms show ?thesis by blast
qed

lemma usb_read_fifo_K:
  assumes "usb_read_fifo env s = Some t"
  shows "K s t"
proof -
  have "env' = env \<longrightarrow> K s t" if "usb_read_fifo env' s = Some t" for env' s t
  proof (rule usb_read_fifo.raw_induct [where P = "\<lambda>env' s t. env' = env \<longrightarrow> K s t", OF _ that], intro impI)
    fix g env' s t
    assume IH: "\<And>env' s t. g env' s = Some t \<Longrightarrow> env' = env \<longrightarrow> K s t"
      and eq: "do {
        deref (usb_uart s);
        let (c, s1) = ext env' (Usb UsbRxfifoCnt) s;
        (if a_val c \<noteq> 0 then
           let n = (if a_val c > 64 then 64 else a_val c);
               (d, s2) = ext env' (Usb (UsbReadRxfifo n)) s1
           in g env' (emit env' (Usb (UsbPush (take n (a_bytes d)))) s2)
         else Some s1)
      } = Some t"
      and env: "env' = env"
    have "K s t" if "g env (emit env (Usb (UsbPush bs)) (emit env (Usb (UsbReadRxfifo n))
        (emit env (Usb UsbRxfifoCnt) s))) = Some t" for bs n
      by (rule b_trans [OF _ IH [OF that, THEN mp, OF refl]]) simp
    with eq env show "K s t" by (auto simp: Let_def split: if_splits)
  qed
  with assms show ?thesis by blast
qed

end

text \<open>All operations. What is done while the interrupt lock is held is compared with the state before it was
  taken.\<close>

locale usb_calls = usb_loops env K for env :: env and K :: "'z usb_scheme \<Rightarrow> 'z usb_scheme \<Rightarrow> bool" +
  assumes b_locked: "K (target_disable_irq env s) t \<Longrightarrow> K s (target_enable_irq env t)"
    and b_fields: "K s (s\<lparr>usb_connected := b\<rparr>)" "K s (s\<lparr>fq_scheduled := b\<rparr>)"
    and b_wake: "K s (post_loop env s)"
    and b_post: "K s (snd (tim_worker_run env f x s))"
begin

lemmas base [simp] = b_fields [THEN b_trans [rotated]] b_wake [THEN b_trans [rotated]] b_post [THEN b_trans [rotated]]

lemma k_read_fifo: "K s t \<Longrightarrow> returns (usb_read_fifo env t) (K s)"
  unfolding returns_def using usb_read_fifo_K b_trans by blast

lemma k_fill_buffer_esp32: "K s t \<Longrightarrow> returns (fill_buffer_esp32 flen env t) (K s)"
  unfolding fill_buffer_esp32_def by (intro walk) (simp_all add: emits_Cons)

lemma k_fill_buffer_c3: "K s t \<Longrightarrow> K s (fill_buffer_c3 env t)"
  by (simp add: fill_buffer_c3_def emits_Cons Let_def)

lemma k_uart_isr: "returns (usb_uart_isr flen env s) (K s)"
  unfolding usb_uart_isr_def
  by (intro walk k_read_fifo [where s = s, THEN returns_weaken] k_fill_buffer_esp32 [where s = s, THEN returns_weaken]) simp_all

lemma k_pull_ready_esp32: "jd_usb_pull_ready_esp32 flen env s = Some t \<Longrightarrow> K s t"
  using returnsD [OF k_fill_buffer_esp32 [OF b_refl]] b_locked by (auto simp: jd_usb_pull_ready_esp32_def)

lemma k_pull_ready_c3: "K s (jd_usb_pull_ready_c3 env s)"
  by (simp add: jd_usb_pull_ready_c3_def Let_def b_locked k_fill_buffer_c3)

lemma k_jtag_isr: "K s (usb_serial_jtag_isr_handler env s)"
  by (simp add: usb_serial_jtag_isr_handler_def k_fill_buffer_c3 emits_Cons Let_def)

lemma k_pull_ready_s3: "K s (jd_usb_pull_ready_s3 env s)"
  by (simp add: jd_usb_pull_ready_s3_def)

lemma usb_step_K:
  assumes "usb_step tgt flen env s t"
  shows "K s t"
  using assms
proof cases
  case pull_ready
  then show ?thesis
    using k_pull_ready_esp32 k_pull_ready_c3 k_pull_ready_s3
    by (cases tgt) (auto simp: jd_usb_pull_ready_def)
next
  case fill
  then show ?thesis by (auto simp: fill_queue_def dest!: fill_queue_loop_K b_trans [OF b_fields(2)])
next
  case cdc_rx
  then show ?thesis using cdc_read_loop_K by (auto simp: on_cdc_rx_def jdesp_wake_main_def)
next
  case process
  then show ?thesis by (auto simp: jd_usb_process_def dest!: usb_read_fifo_K k_pull_ready_esp32 intro: b_trans)
qed (use returnsD [OF k_uart_isr] k_pull_ready_s3 in
    \<open>simp_all add: tud_cdc_tx_complete_cb_def on_cdc_line_state_changed_def k_jtag_isr\<close>)

end

end
