(* ===== verification/Firmware.thy ===== *)
theory Firmware
  imports MainLoop SockTransfer UsbCalls
begin

text \<open>
  The parts of the firmware together: from \<open>app_main\<close> on, turns of the main loop, interrupts and timers of
  the Jacdac bus, the TCP client with its worker, the USB stream and calls from jacdac-c, in any order
  and nested in each other through jacdac-c and the queued jobs. A relation that each part keeps is kept
  by the whole (locale \<open>firmware_relation\<close>), and the invariants of the parts hold together, since no
  part touches what another's invariant speaks of.
\<close>

section \<open>The whole firmware\<close>

text \<open>One step is anything that can happen. jacdac-c (\<open>jd\<close>) and the queued functions (\<open>exec\<close>) may do anything that the
  firmware lets them do, any number of times, before they come back; what they do themselves is
  recorded as calls.\<close>

inductive fw_step ::
    "target \<Rightarrow> nat \<Rightarrow> int \<Rightarrow> nat \<Rightarrow> env \<Rightarrow> 'z sdcard_scheme \<Rightarrow> 'z sdcard_scheme \<Rightarrow> bool"
  for tgt :: target and out_len :: nat and flen :: int and ulen :: nat and env :: env where
  turn: "loop_handler tgt jd exec env s = Some t \<Longrightarrow>
    (\<forall>c a b. jd c a = Some b \<longrightarrow> (fw_step tgt out_len flen ulen env)\<^sup>*\<^sup>* a b) \<Longrightarrow>
    (\<forall>f x a b. exec f x a = Some b \<longrightarrow> (fw_step tgt out_len flen ulen env)\<^sup>*\<^sup>* a b) \<Longrightarrow>
    fw_step tgt out_len flen ulen env s t"
| wake: "fw_step tgt out_len flen ulen env s (jdesp_wake_main env s)"
| period: "fw_step tgt out_len flen ulen env s (s\<lparr>tim_max_sleep := n\<rparr>)"
| jacdac: "fw_step tgt out_len flen ulen env s (emit env (Jd c) s)"
| called: "fw_step tgt out_len flen ulen env s (emit env (Rtos (Call_fn f x)) s)"
| bus: "uart_step flen env s t \<Longrightarrow> fw_step tgt out_len flen ulen env s t"
| start_tx: "uart_start_tx jd flen env data n s = Some (r, t) \<Longrightarrow>
    (\<forall>c a b. jd c a = Some b \<longrightarrow> (fw_step tgt out_len flen ulen env)\<^sup>*\<^sup>* a b) \<Longrightarrow>
    fw_step tgt out_len flen ulen env s t"
| start_rx: "uart_start_rx jd env data n s = Some t \<Longrightarrow>
    (\<forall>c a b. jd c a = Some b \<longrightarrow> (fw_step tgt out_len flen ulen env)\<^sup>*\<^sup>* a b) \<Longrightarrow>
    fw_step tgt out_len flen ulen env s t"
| timer0: "jd_timer0 jd s = Some t \<Longrightarrow>
    (\<forall>c a b. jd c a = Some b \<longrightarrow> (fw_step tgt out_len flen ulen env)\<^sup>*\<^sup>* a b) \<Longrightarrow>
    fw_step tgt out_len flen ulen env s t"
| timer: "jd_timer exec env s = Some t \<Longrightarrow>
    (\<forall>f x a b. exec f x a = Some b \<longrightarrow> (fw_step tgt out_len flen ulen env)\<^sup>*\<^sup>* a b) \<Longrightarrow>
    fw_step tgt out_len flen ulen env s t"
| jobs: "worker_do_work env exec w s = Some t \<Longrightarrow>
    (\<forall>f x a b. exec f x a = Some b \<longrightarrow> (fw_step tgt out_len flen ulen env)\<^sup>*\<^sup>* a b) \<Longrightarrow>
    fw_step tgt out_len flen ulen env s t"
| tcp: "sock_step out_len env s t \<Longrightarrow> fw_step tgt out_len flen ulen env s t"
| usb: "usb_step tgt ulen env s t \<Longrightarrow> fw_step tgt out_len flen ulen env s t"

locale firmware_relation =
  main: main_relation env K + bus: uart_relation flen env K + tcp: sock_relation env K out_len True
  for env :: env and flen :: int and out_len :: nat and K :: "'z sdcard_scheme \<Rightarrow> 'z sdcard_scheme \<Rightarrow> bool" +
  fixes tgt :: target and ulen :: nat
  assumes K_usb: "usb_step tgt ulen env s t \<Longrightarrow> K s t"
    and K_period: "K s (s\<lparr>tim_max_sleep := n\<rparr>)"
    and K_jacdac: "K s (emit env (Jd c) s)"
    and K_called: "K s (emit env (Rtos (Call_fn f x)) s)"
begin

lemma nested_K: "(\<lambda>a b. P a b \<and> K a b)\<^sup>*\<^sup>* a b \<Longrightarrow> K a b"
  by (induction rule: rtranclp_induct) (auto intro: main.m_trans)

lemma jd_back: "\<forall>c a b. jd c a = Some b \<longrightarrow> (\<lambda>a b. P a b \<and> K a b)\<^sup>*\<^sup>* a b \<Longrightarrow> jd c a = Some b \<Longrightarrow> K a b"
  by (rule nested_K [where P = P]) blast

lemma exec_back:
  "\<forall>f x a b. exec f x a = Some b \<longrightarrow> (\<lambda>a b. P a b \<and> K a b)\<^sup>*\<^sup>* a b \<Longrightarrow> exec f x a = Some b \<Longrightarrow> K a b"
  by (rule nested_K [where P = P]) blast

lemma fw_step_K: "fw_step tgt out_len flen ulen env s t \<Longrightarrow> K s t"
proof (induction rule: fw_step.induct)
  case (turn jd exec s t)
  from turn(1) jd_back [OF turn(2)] exec_back [OF turn(3)] show ?case by (rule main.loop_handler_K)
next
  case (start_tx jd data n s r t)
  from start_tx(1) jd_back [OF start_tx(2)] show ?case by (rule bus.K_start_tx)
next
  case (start_rx jd data n s t)
  from start_rx(1) jd_back [OF start_rx(2)] show ?case by (rule bus.K_start_rx)
next
  case (timer0 jd s t)
  from timer0(1) jd_back [OF timer0(2)] show ?case by (rule bus.K_timer0)
next
  case (timer exec s t)
  from timer(1) exec_back [OF timer(2)] show ?case by (rule bus.K_timer)
next
  case (jobs exec w s t)
  from jobs(1) exec_back [OF jobs(2)] show ?case by (rule main.do_work_K)
qed (auto simp: jdesp_wake_main_def intro: main.m_post bus.uart_step_K tcp.sock_step_K K_usb K_period K_jacdac K_called)

lemma fw_steps_K: "(fw_step tgt out_len flen ulen env)\<^sup>*\<^sup>* s t \<Longrightarrow> K s t"
  by (induction rule: rtranclp_induct) (auto intro: main.m_trans fw_step_K)

end

section \<open>The bus\<close>

text \<open>The half-duplex invariant and the depth of the interrupt lock.\<close>

interpretation bus_tcp: sock_all env keeps for env
proof unfold_locales
  fix s t u :: "'a sock_scheme"
  show "keeps s t \<Longrightarrow> keeps t u \<Longrightarrow> keeps s u" by (rule keeps_trans)
qed (rule keeps_fields; simp add: push_event_def)+

interpretation bus_usb: usb_calls env keeps for env
proof unfold_locales
  fix s t u :: "'a usb_scheme"
  show "keeps s t \<Longrightarrow> keeps t u \<Longrightarrow> keeps s u" by (rule keeps_trans)
  show "keeps s (target_enable_irq env t)" if "keeps (target_disable_irq env s) t"
    using that by (simp add: keeps_def uart_inv_def)
  show "keeps s (post_loop env s)" by (rule keeps_fields) (simp_all add: post_loop_def)
  show "keeps s (snd (tim_worker_run env f x s))" for f x by (rule keeps_tim_worker_run)
qed (rule keeps_fields; simp)+

interpretation bus_main: main_relation env keeps for env
proof unfold_locales
  fix s t u :: "'a sdcard_scheme"
  show "keeps s t \<Longrightarrow> keeps t u \<Longrightarrow> keeps s u" by (rule keeps_trans)
  show "jd_tcpsock_process jd env s = Some t \<Longrightarrow> (\<And>c a b. jd c a = Some b \<Longrightarrow> keeps a b) \<Longrightarrow> keeps s t" for jd
    by (rule bus_tcp.process_K)
  show "keeps s (post_loop env s)" by (rule keeps_fields) (simp_all add: post_loop_def)
  show "keeps s t" if "sync_main_loop_timer env s = Some t"
    using that by (auto simp: sync_main_loop_timer_def Let_def split: if_splits intro: keeps_fields)
qed (rule keeps_fields; simp)+

interpretation bus_fw: firmware_relation env flen out_len keeps tgt ulen for env flen out_len tgt ulen
proof unfold_locales
  fix s t :: "'a sdcard_scheme"
  show "usb_step tgt ulen env s t \<Longrightarrow> keeps s t" by (rule bus_usb.usb_step_K)
qed (rule keeps_fields; simp)+

section \<open>Connections\<close>

text \<open>A state predicate as a relation.\<close>

definition kept :: "('s \<Rightarrow> bool) \<Rightarrow> 's \<Rightarrow> 's \<Rightarrow> bool" where
  "kept P s t \<longleftrightarrow> (P s \<longrightarrow> P t)"

lemma kept_refl [simp]: "kept P s s"
  and kept_trans: "kept P s t \<Longrightarrow> kept P t u \<Longrightarrow> kept P s u"
  and kept_same: "P t = P s \<Longrightarrow> kept P s t"
  by (auto simp: kept_def)

lemma keptI: "(P s \<Longrightarrow> P t) \<Longrightarrow> kept P s t"
  by (simp add: kept_def)

text \<open>Only calls of the network matter to the connections.\<close>

definition links_ok :: "env \<Rightarrow> 'z sock_scheme \<Rightarrow> bool" where
  "links_ok env s \<longleftrightarrow> sockets_positive env \<longrightarrow> sock_inv s"

lemma links_kept: "sockets_positive env \<and> sock_inv s \<longrightarrow> sock_inv t \<Longrightarrow> kept (links_ok env) s t"
  by (auto simp: kept_def links_ok_def)

lemma links_call:
  assumes "\<And>n. c \<noteq> Net n"
  shows "sock_inv (emit env c s) = sock_inv s"
proof -
  have "inert c" using assms by (auto simp: inert_def split: call.split)
  then show ?thesis by (simp add: sock_inv_def log_inv_inert)
qed

lemma links_calls [simp]:
  "sock_inv (emit env (Sys c1) s) = sock_inv s" "sock_inv (emit env (Jd c2) s) = sock_inv s"
  "sock_inv (emit env (Usb c3) s) = sock_inv s" "sock_inv (emit env (Uart c4) s) = sock_inv s"
  "sock_inv (emit env (Gpio c5) s) = sock_inv s"
  by (simp_all add: links_call)

lemma links_fields [simp]:
  "sock_inv (s\<lparr>memory := m\<rparr>) = sock_inv s" "sock_inv (s\<lparr>int_level := i\<rparr>) = sock_inv s"
  by (simp_all add: sock_inv_def)

interpretation links_bus: uart_calls env "kept (links_ok env)" for env
proof unfold_locales
  fix s t u :: "'a sock_scheme"
  show "kept (links_ok env) s t \<Longrightarrow> kept (links_ok env) t u \<Longrightarrow> kept (links_ok env) s u" by (rule kept_trans)
  show "kept (links_ok env) s (emit env c s)" if "uart_call c" for c
    using that by (cases c rule: uart_call.cases) (simp_all add: kept_def links_ok_def)
qed (simp_all add: kept_def links_ok_def sock_inv_def schedule_timer0_def emits_Cons log_inv_inert inert_def)

interpretation links_usb: usb_calls env "kept (links_ok env)" for env
proof unfold_locales
  fix s t u :: "'a usb_scheme"
  show "kept (links_ok env) s t \<Longrightarrow> kept (links_ok env) t u \<Longrightarrow> kept (links_ok env) s u" by (rule kept_trans)
  show "kept (links_ok env) s (target_enable_irq env t)" if "kept (links_ok env) (target_disable_irq env s) t"
    using that by (simp add: kept_def links_ok_def target_disable_irq_def target_enable_irq_def Let_def)
qed (simp_all add: kept_def links_ok_def post_loop_def
    tim_worker_run_def worker_run_def sock_inv_def emits_Cons log_inv_inert inert_def Let_def)

interpretation links_main: main_relation env "kept (links_ok env)" for env
proof unfold_locales
  fix s t u :: "'a sdcard_scheme"
  show "kept (links_ok env) s t \<Longrightarrow> kept (links_ok env) t u \<Longrightarrow> kept (links_ok env) s u" by (rule kept_trans)
  show "kept (links_ok env) s (emit env c s)" if "turn_call c" for c
    using that by (cases c rule: turn_call.cases) (simp_all add: kept_def links_ok_def)
  show "kept (links_ok env) s t"
    if "jd_tcpsock_process jd env s = Some t" "\<And>c a b. jd c a = Some b \<Longrightarrow> kept (links_ok env) a b" for jd
    using inv_calls.process_K [OF that(1)] that(2) by (simp add: kept_def links_ok_def)
  show "kept (links_ok env) s t" if "sync_main_loop_timer env s = Some t"
    using that by (auto simp: kept_def links_ok_def sock_inv_def log_inv_inert inert_def
        sync_main_loop_timer_def Let_def split: if_splits)
qed (simp_all add: kept_def links_ok_def sock_inv_def post_loop_def log_inv_inert inert_def)

interpretation links_tcp: sock_relation env "kept (links_ok env)" out_len own for env out_len own
proof unfold_locales
  fix s t u :: "'a sock_scheme"
  show "kept (links_ok env) s t \<Longrightarrow> kept (links_ok env) t u \<Longrightarrow> kept (links_ok env) s u" by (rule kept_trans)
  show "kept (links_ok env) s (raise_error env m s)" for m by (intro links_kept inv_calls.call_error)
  show "kept (links_ok env) s (snd (jd_tcpsock_new env h p s))" for h p by (intro links_kept inv_calls.tcpsock_new_K)
  show "kept (links_ok env) s t" if "jd_tcpsock_write env b s = Some (r, t)" for b r
    by (rule links_kept [OF inv_calls.tcpsock_write_K [OF that]])
  show "kept (links_ok env) s (jd_tcpsock_close env s)" by (intro links_kept inv_calls.call_close)
  show "kept (links_ok env) s t" if "sock_worker_turn out_len env s = Some t"
    by (rule links_kept [OF inv_calls.worker_turn_K [OF that]])
qed (simp_all add: kept_def links_ok_def)

interpretation links_fw: firmware_relation env flen out_len "kept (links_ok env)" tgt ulen
  for env flen out_len tgt ulen
proof unfold_locales
  fix s t :: "'a sdcard_scheme"
  show "usb_step tgt ulen env s t \<Longrightarrow> kept (links_ok env) s t" by (rule links_usb.usb_step_K)
qed (simp_all add: kept_def links_ok_def sock_inv_def)

section \<open>The tick\<close>

text \<open>Only the main loop starts and stops its timer and records the period.\<close>

lemma tick_same: "max_sleep t = max_sleep s \<Longrightarrow> loop_period (io t) = loop_period (io s) \<Longrightarrow> kept (loop_inv ticking) s t"
  for s t :: "'z main_state_scheme"
  by (simp add: kept_def loop_inv_def ticking_def)

lemma tick_call: "quiet_call c \<Longrightarrow> kept (loop_inv ticking) s (emit env c s)"
  for s :: "'z main_state_scheme"
  by (simp add: kept_def tick.loop_inv_emit)

lemma quiet_timers [simp]:
  "x \<noteq> T_main_loop \<Longrightarrow> quiet_call (Sys (TimerStop x))" "quiet_call (Sys (TimerStartOnce x d))"
  "quiet_call (Uart u)" "quiet_call (Gpio g)" "quiet_call (Usb b)" "quiet_call (Sys GetTime)"
  by (auto simp: quiet_call_def)

lemma quiet_uart: "uart_call c \<Longrightarrow> quiet_call c"
  by (cases c rule: uart_call.cases) auto

lemma quiet_turn: "turn_call c \<Longrightarrow> quiet_call c"
  by (cases c rule: turn_call.cases) auto

lemma quiet_tcp: "no_send c \<Longrightarrow> quiet_call c" "plain_call c \<Longrightarrow> quiet_call c"
  by (cases c rule: no_send.cases; simp) (simp add: plain_call_def split: call.splits)

lemmas quiet_calls = quiet_uart quiet_turn quiet_tcp

interpretation tick_bus: uart_calls env "kept (loop_inv ticking)" for env
proof unfold_locales
  fix s t u :: "'a main_state_scheme"
  show "kept (loop_inv ticking) s t \<Longrightarrow> kept (loop_inv ticking) t u \<Longrightarrow> kept (loop_inv ticking) s u"
    by (rule kept_trans)
  show "kept (loop_inv ticking) s (emit env c s)" if "uart_call c" for c
    using that by (intro tick_call quiet_calls)
qed (rule tick_same; simp add: io_emit push_event_def post_loop_def schedule_timer0_def emits_Cons)+

interpretation tick_tcp: sock_all env "kept (loop_inv ticking)" for env
proof unfold_locales
  fix s t u :: "'a main_state_scheme"
  show "kept (loop_inv ticking) s t \<Longrightarrow> kept (loop_inv ticking) t u \<Longrightarrow> kept (loop_inv ticking) s u"
    by (rule kept_trans)
  show "kept (loop_inv ticking) s (emit env c s)" if "no_send c" for c
    using that by (intro tick_call quiet_calls)
  show "kept (loop_inv ticking) s (emit env c s)" if "plain_call c" for c
    using that by (intro tick_call quiet_calls)
qed (rule tick_same; simp add: io_emit push_event_def post_loop_def schedule_timer0_def emits_Cons)+

interpretation tick_usb: usb_calls env "kept (loop_inv ticking)" for env
proof unfold_locales
  fix s t u :: "'a usb_scheme"
  show "kept (loop_inv ticking) s t \<Longrightarrow> kept (loop_inv ticking) t u \<Longrightarrow> kept (loop_inv ticking) s u"
    by (rule kept_trans)
  show "kept (loop_inv ticking) s (target_enable_irq env t)" if "kept (loop_inv ticking) (target_disable_irq env s) t"
    using that tick_bus.irq [of s s env] tick_bus.irq [of t t env] kept_trans by fastforce
  show "kept (loop_inv ticking) s (snd (tim_worker_run env f x s))" for f x by (rule tick_bus.k_post)
qed (rule tick_same; simp add: io_emit push_event_def post_loop_def schedule_timer0_def emits_Cons)+

interpretation tick_main: main_relation env "kept (loop_inv ticking)" for env
proof unfold_locales
  fix s t u :: "'a sdcard_scheme"
  show "kept (loop_inv ticking) s t \<Longrightarrow> kept (loop_inv ticking) t u \<Longrightarrow> kept (loop_inv ticking) s u"
    by (rule kept_trans)
  show "kept (loop_inv ticking) s (emit env c s)" if "turn_call c" for c
    using that by (intro tick_call quiet_calls)
  show "jd_tcpsock_process jd env s = Some t \<Longrightarrow>
      (\<And>c a b. jd c a = Some b \<Longrightarrow> kept (loop_inv ticking) a b) \<Longrightarrow> kept (loop_inv ticking) s t" for jd
    by (rule tick_tcp.process_K)
  show "kept (loop_inv ticking) s t" if "sync_main_loop_timer env s = Some t"
    using sync_tick [OF that] by (simp add: kept_def)
qed (rule tick_same; simp add: io_emit push_event_def post_loop_def schedule_timer0_def emits_Cons)+

interpretation tick_fw: firmware_relation env flen out_len "kept (loop_inv ticking)" tgt ulen
  for env flen out_len tgt ulen
proof unfold_locales
  fix s t :: "'a sdcard_scheme"
  show "usb_step tgt ulen env s t \<Longrightarrow> kept (loop_inv ticking) s t" by (rule tick_usb.usb_step_K)
qed (rule tick_same; simp add: io_emit push_event_def post_loop_def schedule_timer0_def emits_Cons)+

section \<open>The USB stream\<close>

text \<open>Only calls of main/usb.c take from the stream or write to the host.\<close>

lemma usb_inv_call:
  assumes "\<And>u. c \<noteq> Usb u"
  shows "usb_inv env data (emit env c s) = usb_inv env data s"
proof -
  have "pulled ((c, a) # l) = pulled l" "sent_to_host ((c, a) # l) = sent_to_host l" for a l
    using assms by (cases c; simp)+
  then show ?thesis by (simp add: usb_inv_def usb_stream_def io_emit)
qed

lemma stream_same:
  "pulled (io t) = pulled (io s) \<Longrightarrow> sent_to_host (io t) = sent_to_host (io s) \<Longrightarrow> kept (usb_inv env data) s t"
  for s t :: "'z usb_scheme"
  by (simp add: kept_def usb_inv_def usb_stream_def)

lemma no_usb_calls:
  "uart_call (Usb u) \<Longrightarrow> False" "turn_call (Usb u) \<Longrightarrow> False" "no_send (Usb u) \<Longrightarrow> False" "plain_call (Usb u) \<Longrightarrow> False"
  by (simp_all add: plain_call_def)

lemma stream_call: "(\<And>u. c \<noteq> Usb u) \<Longrightarrow> kept (usb_inv env data) s (emit env c s)"
  by (simp add: kept_def usb_inv_call)

interpretation stream_bus: uart_calls env "kept (usb_inv env data)" for env data
proof unfold_locales
  fix s t u :: "'a usb_scheme"
  show "kept (usb_inv env data) s t \<Longrightarrow> kept (usb_inv env data) t u \<Longrightarrow> kept (usb_inv env data) s u"
    by (rule kept_trans)
  show "kept (usb_inv env data) s (emit env c s)" if "uart_call c" for c
    using that no_usb_calls by (intro stream_call) auto
qed (rule stream_same; simp add: io_emit push_event_def post_loop_def schedule_timer0_def emits_Cons)+

interpretation stream_tcp: sock_all env "kept (usb_inv env data)" for env data
proof unfold_locales
  fix s t u :: "'a usb_scheme"
  show "kept (usb_inv env data) s t \<Longrightarrow> kept (usb_inv env data) t u \<Longrightarrow> kept (usb_inv env data) s u"
    by (rule kept_trans)
  show "kept (usb_inv env data) s (emit env c s)" if "no_send c" for c
    using that no_usb_calls by (intro stream_call) auto
  show "kept (usb_inv env data) s (emit env c s)" if "plain_call c" for c
    using that no_usb_calls by (intro stream_call) auto
qed (rule stream_same; simp add: io_emit push_event_def post_loop_def schedule_timer0_def emits_Cons)+

interpretation stream_main: main_relation env "kept (usb_inv env data)" for env data
proof unfold_locales
  fix s t u :: "'a sdcard_scheme"
  show "kept (usb_inv env data) s t \<Longrightarrow> kept (usb_inv env data) t u \<Longrightarrow> kept (usb_inv env data) s u"
    by (rule kept_trans)
  show "kept (usb_inv env data) s (emit env c s)" if "turn_call c" for c
    using that no_usb_calls by (intro stream_call) auto
  show "jd_tcpsock_process jd env s = Some t \<Longrightarrow>
      (\<And>c a b. jd c a = Some b \<Longrightarrow> kept (usb_inv env data) a b) \<Longrightarrow> kept (usb_inv env data) s t" for jd
    by (rule stream_tcp.process_K)
  show "kept (usb_inv env data) s t" if "sync_main_loop_timer env s = Some t"
    using that by (intro stream_same) (auto simp: sync_main_loop_timer_def io_emit Let_def split: if_splits)
qed (rule stream_same; simp add: io_emit push_event_def post_loop_def schedule_timer0_def emits_Cons)+

interpretation stream_fw: firmware_relation env flen out_len "kept (usb_inv env data)" tgt ulen
  for env data flen out_len tgt ulen
proof unfold_locales
  fix s t :: "'a sdcard_scheme"
  show "usb_step tgt ulen env s t \<Longrightarrow> kept (usb_inv env data) s t"
    using usb_safety.inv_step by (blast intro: keptI)
qed (rule stream_same; simp add: io_emit push_event_def post_loop_def schedule_timer0_def emits_Cons)+

section \<open>Property\<close>

text \<open>The start leaves the parts in states from which their invariants hold.\<close>

lemma started_parts:
  assumes "app_main tgt num_max card_size env s0 = Some s" "max_sleep s0 = 0" "uart_start s0" "sock_closed s0"
    and "pulled (io s0) = []" "sent_to_host (io s0) = []"
  shows "uart_inv s" "int_level s = int_level s0" "links_ok env s" "loop_inv ticking s" "usb_inv env data s"
proof -
  have st: "same_start s0 s" by (rule app_main_starts [OF assms(1)])
  then show "uart_inv s" using assms(3) by (simp add: same_start_def uart_start_def uart_inv_def)
  show "int_level s = int_level s0" using st by (simp add: same_start_def)
  have "sock_closed s" using st assms(4) by (simp add: same_start_def same_links_def sock_closed_def)
  then show "links_ok env s" by (simp add: links_ok_def sock_closed_inv)
  show "loop_inv ticking s" using app_main_tick [OF assms(1,2)] by simp
  show "usb_inv env data s" using st assms(5,6)
    by (simp add: same_start_def same_links_def usb_inv_def usb_stream_def)
qed

text \<open>C1: once the firmware has started, whatever turns of the main loop, interrupts, timers, jobs, TCP
  operations, USB traffic and calls from jacdac-c follow, in any order and nested in each other:
  the bus driver holds bytes to send only while it owns the line, never owns a line pulled low,
  and has released the interrupt lock; at most one socket is open, it is the recorded one, none is
  closed twice and the mbedTLS objects are live exactly while \<open>is_tls\<close> is set; the tick timer
  of the main loop runs with the recorded period; and the host has received a prefix of the USB
  stream, each byte once.\<close>

theorem firmware_invariants:
  assumes "app_main tgt num_max card_size env s0 = Some s" "max_sleep s0 = 0" "uart_start s0" "sock_closed s0"
    and "pulled (io s0) = []" "sent_to_host (io s0) = []"
    and "sockets_positive env" "usb_source env data"
    and "(fw_step tgt out_len flen ulen env)\<^sup>*\<^sup>* s t"
  shows "(tx_len t \<noteq> 0 \<longrightarrow> in_tx t) \<and> \<not> (in_tx t \<and> seen_low t) \<and> int_level t = int_level s0 \<and>
    open_fds (io t) = (if sock_fd t = 0 then [] else [sock_fd t]) \<and> closes_ok (io t) \<and>
    (\<forall>x. tls_live x (io t) = (if is_tls t then 1 else 0)) \<and>
    loop_period (io t) = Some (unat (max_sleep t)) \<and> max_sleep t \<noteq> 0 \<and>
    sent_to_host (io t) = pulled (io t) \<and> take (length (sent_to_host (io t))) data = sent_to_host (io t)"
proof -
  note parts = started_parts [OF assms(1-6)]
  have "keeps s t" by (rule bus_fw.fw_steps_K [OF assms(9)])
  with parts(1,2) have "uart_inv t" "int_level t = int_level s0" by (simp_all add: keeps_def)
  moreover have "sock_inv t"
    using links_fw.fw_steps_K [OF assms(9)] parts(3) assms(7) by (simp add: kept_def links_ok_def)
  moreover have "loop_inv ticking t"
    using tick_fw.fw_steps_K [OF assms(9)] parts(4) by (simp add: kept_def)
  moreover have "usb_stream data t"
    using stream_fw.fw_steps_K [OF assms(9), of data] parts(5) assms(8) by (simp add: kept_def usb_inv_def)
  ultimately show ?thesis
    by (auto simp: uart_inv_def sock_inv_def log_inv_def loop_inv_def ticking_def usb_stream_def)
qed

text \<open>The board of \<open>app_env\<close> starts, runs a turn, is asked for a connection and takes a bus interrupt.\<close>

lemma boot_sd_idle: "max_sleep boot_sd = 0" "uart_start boot_sd" "sock_closed boot_sd"
  "pulled (io boot_sd) = []" "sent_to_host (io boot_sd) = []"
  by (simp_all add: boot_defs uart_start_def sock_closed_def log_inv_def)

theorem firmware_invariants_witness:
  "\<exists>s u v. app_main ESP32C3 2 100 app_env boot_sd = Some s \<and>
    loop_handler ESP32C3 (log_jd app_env) (log_exec app_env) app_env s = Some u \<and>
    v = snd (jd_tcpsock_new app_env ''example.org'' 80 u) \<and>
    (fw_step ESP32C3 16384 128 128 app_env)\<^sup>*\<^sup>* s v \<and>
    loop_period (io v) = Some (unat (max_sleep v)) \<and> int_level v = 0"
proof -
  let ?step = "fw_step ESP32C3 16384 128 128 app_env"
  obtain s u where s: "app_main ESP32C3 2 100 app_env boot_sd = Some s"
      "loop_handler ESP32C3 (log_jd app_env) (log_exec app_env) app_env s = Some u"
    using app_main_turn by blast
  let ?v = "snd (jd_tcpsock_new app_env ''example.org'' 80 u)"
  have "?step\<^sup>*\<^sup>* a b" if "log_jd app_env c a = Some b" for c a b
    using that fw_step.jacdac by (fastforce simp: log_jd_def)
  moreover have "?step\<^sup>*\<^sup>* a b" if "log_exec app_env f x a = Some b" for f x a b
    using that fw_step.called by (fastforce simp: log_exec_def)
  ultimately have "?step s u" using s(2) by (blast intro: fw_step.turn)
  moreover have "?step u ?v" by (intro fw_step.tcp client_step.sock_new)
  ultimately have run: "?step\<^sup>*\<^sup>* s ?v" by (rule two_steps)
  have "sockets_positive app_env"
    by (simp add: sockets_positive_def app_env_def app_ans_def ans0_def)
  moreover have "usb_source app_env []"
    by (simp add: usb_source_def app_env_def app_ans_def ans0_def)
  moreover have "int_level boot_sd = 0" by (simp add: boot_defs)
  ultimately show ?thesis using firmware_invariants [OF s(1) boot_sd_idle _ _ run] s run by metis
qed

end
