(* ===== verification/WakeFlag.thy ===== *)
theory WakeFlag
  imports Main
begin

text \<open>
  The wake-up protocol that main/main.c (\<open>loop_pending\<close>) and main/usb.c (\<open>fq_scheduled\<close>) share, statement by
  statement: a caller tests the flag, sets it and queues a wake-up; the reader takes a wake-up from the
  queue, clears the flag and then serves. Tasks and interrupts may preempt each other between any two
  statements, on either core. The locale \<open>wake_flag\<close> shows that no request is lost all the same.
\<close>

section \<open>The statements\<close>

text \<open>Where a caller is in \<open>if (!flag) { flag = 1; post (); }\<close>.\<close>

datatype wake_pc = At_test | At_set | At_post | Returned

text \<open>The flag, the statements that set it, queue a wake-up and clear it, and how many wake-ups the queue has
  taken in so far.\<close>

record 's flag_ops =
  flag_of :: "'s \<Rightarrow> bool"
  set_flag :: "'s \<Rightarrow> 's"
  post_op :: "'s \<Rightarrow> 's"
  clear_flag :: "'s \<Rightarrow> 's"
  enqueued :: "'s \<Rightarrow> nat"

text \<open>All callers with the reader. \<open>asked w\<close> is how often the flag had been cleared when \<open>w\<close> last made its call;
  \<open>begun\<close> is set while the reader has taken a wake-up but not yet cleared the flag.\<close>

record ('w, 's) contest =
  wpc :: "'w \<Rightarrow> wake_pc"
  asked :: "'w \<Rightarrow> nat option"
  cleared :: nat
  taken :: nat
  begun :: bool
  shared :: 's

definition waiting :: "'s flag_ops \<Rightarrow> ('w, 's) contest \<Rightarrow> nat" where
  "waiting F c = enqueued F (shared c) - taken c"

text \<open>One statement of one of them. A queue without wake-ups accepts one. Serving, and anything else that happens,
  may change the state in any way that leaves the flag and the queue alone.\<close>

inductive contest_step :: "'s flag_ops \<Rightarrow> ('w, 's) contest \<Rightarrow> ('w, 's) contest \<Rightarrow> bool" for F :: "'s flag_ops" where
  call: "wpc c w = Returned \<Longrightarrow>
    contest_step F c (c\<lparr>wpc := (wpc c)(w := At_test), asked := (asked c)(w \<mapsto> cleared c)\<rparr>)"
| test: "wpc c w = At_test \<Longrightarrow>
    contest_step F c (c\<lparr>wpc := (wpc c)(w := if \<not> flag_of F (shared c) then At_set else Returned)\<rparr>)"
| set: "wpc c w = At_set \<Longrightarrow>
    contest_step F c (c\<lparr>wpc := (wpc c)(w := At_post), shared := set_flag F (shared c)\<rparr>)"
| post: "wpc c w = At_post \<Longrightarrow>
    (waiting F c = 0 \<Longrightarrow> enqueued F (post_op F (shared c)) = Suc (enqueued F (shared c))) \<Longrightarrow>
    contest_step F c (c\<lparr>wpc := (wpc c)(w := Returned), shared := post_op F (shared c)\<rparr>)"
| take: "\<not> begun c \<Longrightarrow> 0 < waiting F c \<Longrightarrow> contest_step F c (c\<lparr>taken := Suc (taken c), begun := True\<rparr>)"
| clear: "begun c \<Longrightarrow>
    contest_step F c (c\<lparr>begun := False, cleared := Suc (cleared c), shared := clear_flag F (shared c)\<rparr>)"
| other: "flag_of F t = flag_of F (shared c) \<Longrightarrow> enqueued F t = enqueued F (shared c) \<Longrightarrow>
    contest_step F c (c\<lparr>shared := t\<rparr>)"

text \<open>Before the first call.\<close>

definition contest_start :: "'s flag_ops \<Rightarrow> ('w, 's) contest \<Rightarrow> bool" where
  "contest_start F c \<longleftrightarrow> (\<forall>w. wpc c w = Returned \<and> asked c w = None) \<and> taken c \<le> enqueued F (shared c) \<and>
     (flag_of F (shared c) \<longrightarrow> 0 < waiting F c \<or> begun c)"

text \<open>A wake-up is on its way.\<close>

definition coming :: "'s flag_ops \<Rightarrow> ('w, 's) contest \<Rightarrow> bool" where
  "coming F c \<longleftrightarrow> 0 < waiting F c \<or> begun c \<or> (\<exists>v. wpc c v = At_post)"

definition contest_inv :: "'s flag_ops \<Rightarrow> ('w, 's) contest \<Rightarrow> bool" where
  "contest_inv F c \<longleftrightarrow> taken c \<le> enqueued F (shared c) \<and> (flag_of F (shared c) \<longrightarrow> coming F c) \<and>
     (\<forall>w n. asked c w = Some n \<longrightarrow> n \<le> cleared c \<and>
       (wpc c w \<in> {At_post, Returned} \<longrightarrow> n = cleared c \<longrightarrow> flag_of F (shared c)))"

lemma contest_start_inv: "contest_start F c \<Longrightarrow> contest_inv F c"
  by (simp add: contest_start_def contest_inv_def coming_def)

lemma coming_moved:
  assumes "wpc c w \<noteq> At_post" "coming F c"
  shows "coming F (c\<lparr>wpc := (wpc c)(w := p)\<rparr>)" "coming F (c\<lparr>wpc := (wpc c)(w := p), asked := a\<rparr>)"
  using assms by (auto simp: coming_def waiting_def)

section \<open>No request is lost\<close>

locale wake_flag =
  fixes F :: "'s flag_ops"
  assumes flag_set: "flag_of F (set_flag F s)"
    and flag_post: "flag_of F (post_op F s) = flag_of F s"
    and enqueued_set: "enqueued F (set_flag F s) = enqueued F s"
    and enqueued_clear: "enqueued F (clear_flag F s) = enqueued F s"
    and enqueued_post: "enqueued F s \<le> enqueued F (post_op F s)"
    and flag_clear: "\<not> flag_of F (clear_flag F s)"
begin

lemma contest_step_inv:
  assumes "contest_step F c d" "contest_inv F c"
  shows "contest_inv F d"
  using assms(1)
proof cases
  case (call w)
  with assms(2) coming_moved [of c w F] show ?thesis by (auto simp: contest_inv_def)
next
  case (test w)
  with assms(2) coming_moved [of c w F] show ?thesis by (auto simp: contest_inv_def)
next
  case (set w)
  with assms(2) show ?thesis by (auto simp: contest_inv_def coming_def flag_set enqueued_set)
next
  case (post w)
  have "0 < waiting F d"
    using post assms(2) enqueued_post [of "shared c"]
    by (cases "waiting F c = 0") (auto simp: waiting_def contest_inv_def)
  with post assms(2) enqueued_post [of "shared c"] show ?thesis
    by (auto simp: contest_inv_def coming_def flag_post)
next
  case clear
  with assms(2) show ?thesis by (fastforce simp: contest_inv_def flag_clear enqueued_clear)
next
  case take
  with assms(2) show ?thesis by (auto simp: contest_inv_def coming_def waiting_def)
next
  case (other t)
  with assms(2) show ?thesis by (auto simp: contest_inv_def coming_def waiting_def)
qed

lemma contest_steps_inv: "(contest_step F)\<^sup>*\<^sup>* c d \<Longrightarrow> contest_inv F c \<Longrightarrow> contest_inv F d"
  by (induction rule: rtranclp_induct) (auto intro: contest_step_inv)

text \<open>Once a call has returned, the reader has begun to serve since the call was made, or is going to.\<close>

lemma request_served:
  assumes "contest_start F c" "(contest_step F)\<^sup>*\<^sup>* c d" "asked d w = Some n" "wpc d w = Returned"
  shows "n < cleared d \<or> flag_of F (shared d) \<and> coming F d"
proof -
  have "contest_inv F d" using assms(1) by (intro contest_steps_inv [OF assms(2)] contest_start_inv)
  with assms(3,4) show ?thesis unfolding contest_inv_def by force
qed

text \<open>A call that is not preempted is the function as a whole.\<close>

lemma call_alone:
  assumes "wpc c w = Returned" "waiting F c = 0 \<Longrightarrow> enqueued F (post_op F (set_flag F (shared c))) = Suc (enqueued F (shared c))"
  shows "(contest_step F)\<^sup>*\<^sup>* c (c\<lparr>asked := (asked c)(w \<mapsto> cleared c),
      shared := (if \<not> flag_of F (shared c) then post_op F (set_flag F (shared c)) else shared c)\<rparr>)"
proof -
  let ?c1 = "c\<lparr>wpc := (wpc c)(w := At_test), asked := (asked c)(w \<mapsto> cleared c)\<rparr>"
  have 1: "contest_step F c ?c1" using assms(1) by (rule contest_step.call)
  have idle: "(wpc c)(w := Returned) = wpc c" using assms(1) by (simp add: fun_upd_idem)
  show ?thesis
  proof (cases "flag_of F (shared c)")
    case True
    then show ?thesis using 1 contest_step.test [of ?c1 w F] idle by (simp add: converse_rtranclp_into_rtranclp r_into_rtranclp)
  next
    case False
    let ?c2 = "?c1\<lparr>wpc := (wpc ?c1)(w := At_set)\<rparr>"
    let ?c3 = "?c2\<lparr>wpc := (wpc ?c2)(w := At_post), shared := set_flag F (shared ?c2)\<rparr>"
    have 2: "contest_step F ?c1 ?c2" using False contest_step.test [of ?c1 w F] by simp
    have 3: "contest_step F ?c2 ?c3" by (rule contest_step.set) simp
    have 4: "contest_step F ?c3 (?c3\<lparr>wpc := (wpc ?c3)(w := Returned), shared := post_op F (shared ?c3)\<rparr>)"
      using assms(2) by (intro contest_step.post) (simp_all add: waiting_def enqueued_set)
    from 1 2 3 4 have "(contest_step F)\<^sup>*\<^sup>* c (?c3\<lparr>wpc := (wpc ?c3)(w := Returned), shared := post_op F (shared ?c3)\<rparr>)"
      by (meson converse_rtranclp_into_rtranclp rtranclp.rtrancl_refl)
    with False idle show ?thesis by simp
  qed
qed

end

end
