(* ===== verification/WakeRace.thy ===== *)
theory WakeRace
  imports MainLoop UsbCalls WakeFlag
begin

text \<open>
  The wake-up of the main loop (main/main.c) and the request for a USB refill (main/usb.c, ESP32-S2 and
  S3) with preemption: both follow the protocol of \<open>wake_flag\<close>, so that neither loses a request however
  tasks and interrupts interleave between their statements.
\<close>

section \<open>The main loop\<close>

text \<open>The statements of \<open>post_loop\<close>, and the first of \<open>loop_handler\<close> after its start-up part.\<close>

definition main_flag :: "env \<Rightarrow> 'z main_state_scheme flag_ops" where
  "main_flag env = \<lparr>flag_of = loop_pending, set_flag = (\<lambda>s. s\<lparr>loop_pending := True\<rparr>),
     post_op = emit env (Sys EventPost), clear_flag = (\<lambda>s. s\<lparr>loop_pending := False\<rparr>),
     enqueued = (\<lambda>s. posted (io s))\<rparr>"

lemma main_flag_simps [simp]:
  "flag_of (main_flag env) s = loop_pending s" "set_flag (main_flag env) s = s\<lparr>loop_pending := True\<rparr>"
  "post_op (main_flag env) s = emit env (Sys EventPost) s"
  "clear_flag (main_flag env) s = s\<lparr>loop_pending := False\<rparr>" "enqueued (main_flag env) s = posted (io s)"
  by (simp_all add: main_flag_def)

interpretation main_wake: wake_flag "main_flag env" for env
  by unfold_locales (simp_all add: io_emit)

text \<open>Without preemption the statements make up \<open>post_loop\<close>, and a turn is the clearing of the flag followed by
  a part that leaves flag and queue alone as long as nothing it calls wakes the loop.\<close>

lemma post_loop_statements:
  "(if \<not> flag_of (main_flag env) s then post_op (main_flag env) (set_flag (main_flag env) s) else s) = post_loop env s"
  by (simp add: post_loop_def)

definition never_wakes :: "('z main_state_scheme \<Rightarrow> 'z main_state_scheme option) \<Rightarrow> bool" where
  "never_wakes f \<longleftrightarrow> (\<forall>s t. f s = Some t \<longrightarrow> loop_pending t = loop_pending s \<and> posted (io t) = posted (io s))"

definition still_law :: "nat \<Rightarrow> bool \<Rightarrow> u16 \<Rightarrow> bool \<Rightarrow> io_log \<Rightarrow> bool" where
  "still_law k b m p l \<longleftrightarrow> p = b \<and> posted l = k"

interpretation still: loop_law "still_law k b" for k b
  by unfold_locales (simp add: still_law_def posted_other)

lemma turn_body_serves:
  assumes "turn_body tgt jd exec env s = Some t" "\<And>c. never_wakes (jd c)" "\<And>f a. never_wakes (exec f a)"
  shows "contest_step (main_flag env) (c\<lparr>shared := s\<rparr>) (c\<lparr>shared := t\<rparr>)"
proof -
  have "keeps_law (still_law k b) f" if "never_wakes f" for k b and f :: "'a sdcard_scheme \<Rightarrow> 'a sdcard_scheme option"
    using that by (auto simp: never_wakes_def keeps_law_def loop_inv_def still_law_def)
  note laws = this [OF assms(2)] this [OF assms(3)]
  have "loop_inv (still_law (posted (io s)) (loop_pending s)) t"
    by (rule still.keeps_turn_body [OF laws assms(1)]) (simp add: loop_inv_def still_law_def)
  then show ?thesis
    using contest_step.other [of "main_flag env" t "c\<lparr>shared := s\<rparr>"] by (simp add: loop_inv_def still_law_def)
qed


text \<open>The first caller is preempted between setting the flag and posting; the second finds the flag set and
  relies on it.\<close>

definition race_boot :: "(nat, sdcard) contest" where
  "race_boot = \<lparr>wpc = (\<lambda>_. Returned), asked = (\<lambda>_. None), cleared = 0, taken = 0, begun = False, shared = boot_sd\<rparr>"


section \<open>The USB refill\<close>

text \<open>The jobs that fill the USB queue, as far as the queue of the timer task has accepted them.\<close>

fun refills :: "io_log \<Rightarrow> nat" where
  "refills [] = 0"
| "refills ((Rtos (QSendFromISR q x), a) # l) =
     (if x = Job Fn_fill_queue Arg_null \<and> a_ret a = pdPASS then Suc (refills l) else refills l)"
| "refills (_ # l) = refills l"

text \<open>The statements of \<open>jd_usb_pull_ready\<close>, and the first of \<open>fill_queue\<close>.\<close>

definition usb_flag :: "env \<Rightarrow> 'z usb_scheme flag_ops" where
  "usb_flag env = \<lparr>flag_of = fq_scheduled, set_flag = (\<lambda>s. s\<lparr>fq_scheduled := True\<rparr>),
     post_op = (\<lambda>s. snd (tim_worker_run env Fn_fill_queue Arg_null s)),
     clear_flag = (\<lambda>s. s\<lparr>fq_scheduled := False\<rparr>), enqueued = (\<lambda>s. refills (io s))\<rparr>"

lemma usb_flag_simps [simp]:
  "flag_of (usb_flag env) s = fq_scheduled s" "set_flag (usb_flag env) s = s\<lparr>fq_scheduled := True\<rparr>"
  "post_op (usb_flag env) s = snd (tim_worker_run env Fn_fill_queue Arg_null s)"
  "clear_flag (usb_flag env) s = s\<lparr>fq_scheduled := False\<rparr>" "enqueued (usb_flag env) s = refills (io s)"
  by (simp_all add: usb_flag_def)

lemma refill_posted:
  "fq_scheduled (snd (tim_worker_run env f x s)) = fq_scheduled s"
  "refills (io s) \<le> refills (io (snd (tim_worker_run env f x s)))"
  by (simp_all add: tim_worker_run_def worker_run_def emits_Cons io_emit Let_def)

interpretation usb_wake: wake_flag "usb_flag env" for env
  by unfold_locales (simp_all add: refill_posted)

lemma pull_ready_statements:
  "(if \<not> flag_of (usb_flag env) s then post_op (usb_flag env) (set_flag (usb_flag env) s) else s) = jd_usb_pull_ready_s3 env s"
  by (simp add: jd_usb_pull_ready_s3_def)

text \<open>Filling the queue is the clearing of the flag followed by a part that leaves flag and jobs alone.\<close>

definition still_usb :: "'z usb_scheme \<Rightarrow> 'z usb_scheme \<Rightarrow> bool" where
  "still_usb s t \<longleftrightarrow> fq_scheduled t = fq_scheduled s \<and> refills (io t) = refills (io s)"

interpretation filling: usb_loops env still_usb for env
  by unfold_locales (simp_all add: still_usb_def io_emit)

lemma fill_queue_serves:
  assumes "fill_queue env s = Some t"
  shows "contest_step (usb_flag env) (c\<lparr>shared := clear_flag (usb_flag env) s\<rparr>) (c\<lparr>shared := t\<rparr>)"
proof -
  have "still_usb (s\<lparr>fq_scheduled := False\<rparr>) t"
    by (rule filling.fill_queue_loop_K) (use assms in \<open>simp add: fill_queue_def\<close>)
  then show ?thesis
    using contest_step.other [of "usb_flag env" t "c\<lparr>shared := s\<lparr>fq_scheduled := False\<rparr>\<rparr>"] by (simp add: still_usb_def)
qed

text \<open>C21: wherever the callers of \<open>jd_usb_pull_ready\<close> (ESP32-S2 and S3) and the job \<open>fill_queue\<close> preempt each
  other, and as long as the job queue has room when no such job is in it: once a call has returned
  either \<open>fill_queue\<close> has started since the call was made, or the flag is set and the job is coming:
  it is queued, or has been taken, or some caller is about to post it. No request is lost.\<close>

theorem refills_preempted:
  assumes "contest_start (usb_flag env) c" "(contest_step (usb_flag env))\<^sup>*\<^sup>* c d"
    and "asked d w = Some n" "wpc d w = Returned"
  shows "n < cleared d \<or> fq_scheduled (shared d) \<and>
    (taken d < refills (io (shared d)) \<or> begun d \<or> (\<exists>v. wpc d v = At_post))"
  using usb_wake.request_served [OF assms] by (simp add: coming_def waiting_def)

theorem refills_preempted_witness:
  "\<exists>d. (contest_step (usb_flag (queue_env 20)))\<^sup>*\<^sup>*
      \<lparr>wpc = (\<lambda>_. Returned), asked = (\<lambda>_. None), cleared = 0, taken = 0, begun = False, shared = boot_usb\<rparr> d \<and>
    asked d (0::nat) = Some 0 \<and> cleared d = 0 \<and> fq_scheduled (shared d) \<and> 0 < refills (io (shared d))"
proof -
  let ?F = "usb_flag (queue_env 20)"
  let ?c = "\<lparr>wpc = (\<lambda>_. Returned), asked = (\<lambda>_. None), cleared = 0, taken = 0, begun = False, shared = boot_usb\<rparr>
    :: (nat, usb) contest"
  let ?d = "?c\<lparr>asked := (asked ?c)(0 \<mapsto> cleared ?c), shared := (if \<not> flag_of ?F (shared ?c)
    then post_op ?F (set_flag ?F (shared ?c)) else shared ?c)\<rparr>"
  have posts: "enqueued ?F (post_op ?F (set_flag ?F (shared ?c))) = Suc (enqueued ?F (shared ?c))"
    by (simp add: tim_worker_run_def worker_run_def emits_Cons io_emit boot_defs query_def ans0_def pdPASS_def Let_def)
  have run: "(contest_step ?F)\<^sup>*\<^sup>* ?c ?d" by (rule usb_wake.call_alone) (simp, rule posts)
  have "contest_start ?F ?c" by (simp add: contest_start_def boot_defs)
  from refills_preempted [OF this run, of 0 0] have "fq_scheduled (shared ?d)" "0 < refills (io (shared ?d))"
    by simp_all
  with run show ?thesis by (intro exI [of _ ?d]) simp
qed

end
