(* ===== verification/I2c.thy ===== *)
theory I2c
  imports Platform
begin

text \<open>
  main/i2c.c: the I2C master. A transfer queues its parts in a command link of the ESP-IDF driver
  and then runs the link; what the driver puts on the bus is a parameter.
\<close>

section \<open>State and operations\<close>

record i2c = platform +
  i2c_inst_num :: int
  i2c_ok :: bool

lemma i2c_emit [simp]: "i2c_inst_num (emit env c s) = i2c_inst_num s" "i2c_ok (emit env c s) = i2c_ok s"
  by (simp_all add: emit_def)

text \<open>\<open>JD_CHK\<close> is a macro of jacdac-c: for a code other than 0 it either does not come back or makes the
  function return; \<open>jd_chk\<close> tells which. \<open>max_timeout\<close> is \<open>I2C_LL_MAX_TIMEOUT\<close>.\<close>

definition i2c_init ::
    "(int \<Rightarrow> int option) \<Rightarrow> int \<Rightarrow> env \<Rightarrow> 'z i2c_scheme \<Rightarrow> (int \<times> 'z i2c_scheme) option" where
  "i2c_init jd_chk max_timeout env s =
     (if i2c_ok s then Some (0, s)
      else
        let (a, s1) = ext env (Sys (DcfgPin ''i2c.pinSDA'')) s;
            sda = (of_nat (a_val a) :: u8);
            (b, s2) = ext env (Sys (DcfgPin ''i2c.pinSCL'')) s1;
            scl = (of_nat (a_val b) :: u8)
        in if sda = scl then Some (-1, s2)
        else
          let (k, s3) = ext env (Sys (DcfgI32 ''i2c.kHz'' 100)) s2;
              khz = a_ret k;
              (i, s4) = ext env (Sys (DcfgI32 ''i2c.inst'' 0)) s3;
              s5 = s4\<lparr>i2c_inst_num := a_ret i\<rparr>;
              (r, s6) = ext env (Periph (I2cParamConfig (i2c_inst_num s5) sda scl (khz * 1000))) s5
          in if a_ret r \<noteq> 0 then do { e \<leftarrow> jd_chk (a_ret r); Some (e, s6) }
          else
            let (r, s7) = ext env (Periph (I2cSetTimeout (max_timeout - 1))) s6
            in if a_ret r \<noteq> 0 then do { e \<leftarrow> jd_chk (a_ret r); Some (e, s7) }
            else
              let (r, s8) = ext env (Periph (I2cDriverInstall (i2c_inst_num s7))) s7
              in if a_ret r \<noteq> 0 then do { e \<leftarrow> jd_chk (a_ret r); Some (e, s8) }
              else Some (0, s8\<lparr>i2c_ok := True\<rparr>))"

text \<open>The calls between the link's creation and its deletion: each queues a part and the first one that
  fails ends the transfer with its code.\<close>

fun i2c_queue :: "env \<Rightarrow> periph_call list \<Rightarrow> 'z i2c_scheme \<Rightarrow> int \<times> 'z i2c_scheme" where
  "i2c_queue env [] s = (0, s)"
| "i2c_queue env (c # cs) s =
     (let (r, s1) = ext env (Periph c) s in
      if a_ret r \<noteq> 0 then (a_ret r, s1) else i2c_queue env cs s1)"

text \<open>The bytes read are those the driver stores while it runs the link.\<close>

definition i2c_read_ex ::
    "env \<Rightarrow> u8 \<Rightarrow> nat \<Rightarrow> 'z i2c_scheme \<Rightarrow> (int \<times> u8 list \<times> 'z i2c_scheme) option" where
  "i2c_read_ex env device_address len s =
     (if \<not> i2c_ok s then Some (-108, [], s)
      else
        let (h, s1) = ext env (Periph I2cLinkCreate) s
        in if a_ptr h = 0 then None
        else
          let (err, s2) = i2c_queue env
                [I2cStart, I2cWriteByte (push_bit 1 device_address OR 1), I2cRead len] s1
          in if err \<noteq> 0 then Some (err, [], emit env (Periph I2cLinkDelete) s2)
          else
            let s3 = emit env (Periph I2cStop) s2;
                (r, s4) = ext env (Periph (I2cCmdBegin (i2c_inst_num s3) 2)) s3
            in Some (a_ret r, a_bytes r, emit env (Periph I2cLinkDelete) s4))"

definition i2c_write_ex2 ::
    "env \<Rightarrow> u8 \<Rightarrow> u8 list \<Rightarrow> u8 list \<Rightarrow> bool \<Rightarrow> 'z i2c_scheme \<Rightarrow> (int \<times> 'z i2c_scheme) option" where
  "i2c_write_ex2 env device_address src src2 repeated s =
     (if \<not> i2c_ok s then Some (-108, s)
      else
        let (h, s1) = ext env (Periph I2cLinkCreate) s
        in if a_ptr h = 0 then None
        else
          let (err, s2) = i2c_queue env
                ([I2cStart, I2cWriteByte (push_bit 1 device_address OR 0), I2cWrite src] @
                 (if length src2 \<noteq> 0 then [I2cWrite src2] else [])) s1
          in if err \<noteq> 0 then Some (err, emit env (Periph I2cLinkDelete) s2)
          else
            let s3 = (if \<not> repeated then emit env (Periph I2cStop) s2 else s2);
                (r, s4) = ext env (Periph (I2cCmdBegin (i2c_inst_num s3) 2)) s3
            in Some (a_ret r, emit env (Periph I2cLinkDelete) s4))"

section \<open>What is on the bus\<close>

text \<open>What a link holds when it is run: the parts queued since it was created, oldest first.\<close>

fun link_parts :: "io_log \<Rightarrow> periph_call list" where
  "link_parts [] = []"
| "link_parts ((Periph I2cLinkCreate, a) # l) = []"
| "link_parts ((Periph I2cStart, a) # l) = link_parts l @ [I2cStart]"
| "link_parts ((Periph (I2cWriteByte b), a) # l) = link_parts l @ [I2cWriteByte b]"
| "link_parts ((Periph (I2cWrite bs), a) # l) = link_parts l @ [I2cWrite bs]"
| "link_parts ((Periph (I2cRead n), a) # l) = link_parts l @ [I2cRead n]"
| "link_parts ((Periph I2cStop, a) # l) = link_parts l @ [I2cStop]"
| "link_parts (_ # l) = link_parts l"

text \<open>The links that were run.\<close>

fun runs :: "io_log \<Rightarrow> periph_call list list" where
  "runs [] = []"
| "runs ((Periph (I2cCmdBegin i n), a) # l) = runs l @ [link_parts l]"
| "runs (_ # l) = runs l"

fun open_links :: "io_log \<Rightarrow> int" where
  "open_links [] = 0"
| "open_links ((Periph I2cLinkCreate, a) # l) = open_links l + 1"
| "open_links ((Periph I2cLinkDelete, a) # l) = open_links l - 1"
| "open_links (_ # l) = open_links l"

definition is_part :: "periph_call \<Rightarrow> bool" where
  "is_part c \<longleftrightarrow> c = I2cStart \<or> (\<exists>b. c = I2cWriteByte b) \<or> (\<exists>bs. c = I2cWrite bs) \<or> (\<exists>n. c = I2cRead n)"

lemma is_part_io:
  assumes "is_part c"
  shows "link_parts ((Periph c, a) # l) = link_parts l @ [c]" "runs ((Periph c, a) # l) = runs l"
    "open_links ((Periph c, a) # l) = open_links l"
  using assms by (auto simp: is_part_def)

lemma i2c_queue_io:
  assumes "i2c_queue env cs s = (err, t)" "\<forall>c\<in>set cs. is_part c"
  shows "runs (io t) = runs (io s) \<and> open_links (io t) = open_links (io s) \<and> i2c_inst_num t = i2c_inst_num s \<and>
    (err = 0 \<longrightarrow> link_parts (io t) = link_parts (io s) @ cs)"
  using assms
proof (induction cs arbitrary: s)
  case (Cons c cs)
  have p: "is_part c" using Cons.prems(2) by simp
  show ?case
  proof (cases "a_ret (query env (Periph c) s) = 0")
    case True
    with Cons.prems(1) have "i2c_queue env cs (emit env (Periph c) s) = (err, t)" by simp
    from Cons.IH [OF this] Cons.prems(2) show ?thesis by (simp add: io_emit is_part_io [OF p])
  next
    case False
    with Cons.prems(1) show ?thesis by (auto simp: io_emit is_part_io [OF p])
  qed
qed simp

section \<open>Properties\<close>


definition boot_i2c :: i2c where
  "boot_i2c = \<lparr>io = [], int_level = 0, id_addr = 0, dcfg_result = 0, i2c_inst_num = 0, i2c_ok = True\<rparr>"

definition i2c_env :: env where
  "i2c_env c l = (if c = Periph I2cLinkCreate then ans0\<lparr>a_ptr := 0x3FFB0000\<rparr> else ans0)"


end
