(* ===== verification/Adc.thy ===== *)
theory Adc
  imports Platform
begin

text \<open>
  main/adc.c: reading analog pins through the one-shot driver of ESP-IDF.

  \<open>gpio_channel n\<close> is \<open>ADC1_GPIO<n>_CHANNEL\<close>, and \<open>bits\<close> is \<open>SOC_ADC_RTC_MAX_BITWIDTH\<close>, both constants of
  ESP-IDF.
\<close>

section \<open>State and operations\<close>

record adc = platform +
  inited_channels :: u32
  adc1_handle :: u32
  temp_handle :: u32

lemma adc_emit [simp]:
  "inited_channels (emit env c s) = inited_channels s" "adc1_handle (emit env c s) = adc1_handle s"
  "temp_handle (emit env c s) = temp_handle s"
  by (simp_all add: emit_def)

text \<open>The table \<open>channels\<close> and the number of the pin that its first entry stands for.\<close>

definition channels :: "target \<Rightarrow> (nat \<Rightarrow> u8) \<Rightarrow> u8 list" where
  "channels tgt gpio_channel =
     (case tgt of
        ESP32 \<Rightarrow> map gpio_channel [32, 33, 34, 35, 36, 37, 38, 39]
      | ESP32C3 \<Rightarrow> map gpio_channel [0, 1, 2, 3, 4]
      | _ \<Rightarrow> 0xff # map gpio_channel [1, 2, 3, 4, 5, 6, 7, 8, 9, 10])"

definition CH_OFFSET :: "target \<Rightarrow> u8" where
  "CH_OFFSET tgt = (if tgt = ESP32 then 32 else 0)"

definition adc_ch :: "target \<Rightarrow> (nat \<Rightarrow> u8) \<Rightarrow> u8 \<Rightarrow> int" where
  "adc_ch tgt gpio_channel pin =
     (if pin < CH_OFFSET tgt then -1
      else
        let pin = pin - CH_OFFSET tgt; table = channels tgt gpio_channel in
        if unat pin < length table \<and> table ! unat pin \<noteq> 0xff then uint (table ! unat pin) else -1)"

definition adc_init :: "env \<Rightarrow> 'z adc_scheme \<Rightarrow> 'z adc_scheme option" where
  "adc_init env s =
     (if adc1_handle s \<noteq> 0 then Some s
      else do {
        let (r, s1) = ext env (Periph AdcNewUnit) s;
        chk (a_ret r);
        Some (s1\<lparr>adc1_handle := a_ptr r\<rparr>)
      })"

definition adc_can_read_pin :: "target \<Rightarrow> (nat \<Rightarrow> u8) \<Rightarrow> u8 \<Rightarrow> bool" where
  "adc_can_read_pin tgt gpio_channel pin \<longleftrightarrow> adc_ch tgt gpio_channel pin \<noteq> -1"

definition adc_setup_channel :: "env \<Rightarrow> nat \<Rightarrow> 'z adc_scheme \<Rightarrow> 'z adc_scheme option" where
  "adc_setup_channel env ch s =
     (if inited_channels s AND push_bit ch 1 = 0 then do {
        s1 \<leftarrow> adc_init env s;
        let s2 = s1\<lparr>inited_channels := inited_channels s1 OR push_bit ch 1\<rparr>;
        let (r, s3) = ext env (Periph (AdcConfigChannel (adc1_handle s2) (int ch))) s2;
        chk (a_ret r);
        Some s3
      }
      else Some s)"

definition adc_read_pin ::
    "target \<Rightarrow> (nat \<Rightarrow> u8) \<Rightarrow> nat \<Rightarrow> env \<Rightarrow> u8 \<Rightarrow> 'z adc_scheme \<Rightarrow> (u16 \<times> 'z adc_scheme) option" where
  "adc_read_pin tgt gpio_channel bits env pin s =
     (let ch = adc_ch tgt gpio_channel pin in
      if ch < 0 then Some (0, s)
      else do {
        s1 \<leftarrow> adc_setup_channel env (nat ch) s;
        let (r, s2) = ext env (Periph (AdcRead (adc1_handle s1) ch)) s1;
        chk (a_ret r);
        Some (push_bit (16 - bits) (of_nat (a_val r)), s2)
      })"

text \<open>\<open>to_int\<close> is the C conversion to an integer of the float that the driver stores.\<close>

definition adc_read_temp ::
    "(u8 list \<Rightarrow> int) \<Rightarrow> env \<Rightarrow> 'z adc_scheme \<Rightarrow> (int \<times> 'z adc_scheme) option" where
  "adc_read_temp to_int env s = do {
     s1 \<leftarrow> (if temp_handle s = 0 then do {
              let (r, s1) = ext env (Periph TempInstall) s;
              chk (a_ret r);
              Some (s1\<lparr>temp_handle := a_ptr r\<rparr>)
            }
            else Some s);
     let (r, s2) = ext env (Periph (TempEnable (temp_handle s1))) s1;
     chk (a_ret r);
     let (v, s3) = ext env (Periph (TempGet (temp_handle s2))) s2;
     chk (a_ret v);
     let (r, s4) = ext env (Periph (TempDisable (temp_handle s3))) s3;
     chk (a_ret r);
     Some (to_int (a_bytes v), s4)
   }"

section \<open>Lemmas\<close>

text \<open>Once read, a pin is set up: reading it again only asks the converter.\<close>

lemma or_bit_and: "ch < 32 \<Longrightarrow> (w OR push_bit ch 1) AND push_bit ch 1 \<noteq> 0" for w :: u32
  by (simp only: bit_iff_and_push_bit_not_eq_0 [symmetric]) (simp add: bit_simps)

lemma adc_setup_channel_done:
  assumes "adc_setup_channel env ch s = Some t" "ch < 32"
  shows "inited_channels t AND push_bit ch 1 \<noteq> 0" and "adc_setup_channel env' ch t = Some t"
proof -
  show "inited_channels t AND push_bit ch 1 \<noteq> 0"
    using assms or_bit_and [OF assms(2)] by (auto simp: adc_setup_channel_def Let_def split: if_splits)
  then show "adc_setup_channel env' ch t = Some t" by (simp add: adc_setup_channel_def)
qed

lemma adc_read_pin_absent: "\<not> adc_can_read_pin tgt g pin \<Longrightarrow> adc_read_pin tgt g bits env pin s = Some (0, s)"
  by (simp add: adc_can_read_pin_def adc_read_pin_def)

text \<open>The channels of a chip with their pins.\<close>

lemma adc_can_read_pin_ESP32:
  assumes "\<forall>n. g n \<noteq> 0xff"
  shows "adc_can_read_pin ESP32 g pin \<longleftrightarrow> 32 \<le> unat pin \<and> unat pin < 40"
proof (cases "pin < 32")
  case True
  then show ?thesis by (simp add: adc_can_read_pin_def adc_ch_def CH_OFFSET_def word_less_nat_alt)
next
  case False
  then have u: "unat (pin - 32) = unat pin - 32" by (simp add: unat_sub word_le_nat_alt not_less)
  have nth: "map g [32, 33, 34, 35, 36, 37, 38, 39] ! k \<noteq> 0xff" if "k < 8" for k
    using assms that by (subst nth_map) simp_all
  have pos: "uint (map g [32, 33, 34, 35, 36, 37, 38, 39] ! k) \<noteq> -1" for k
    using uint_ge_0 [of "map g [32, 33, 34, 35, 36, 37, 38, 39] ! k"] by linarith
  show ?thesis
    using False nth [of "unat pin - 32"] pos [of "unat pin - 32"]
    by (auto simp: adc_can_read_pin_def adc_ch_def CH_OFFSET_def channels_def u word_less_nat_alt Let_def)
qed

end
