(* ===== verification/Spec2Isabelle.thy ===== *)
theory Spec2Isabelle
  imports Utils JdLine JdCallbacks SockStream SockEvents SockRace SpiBus StripBus Pwm Firmware WakeRace
    I2c Adc
begin

text \<open>
  A model of the firmware of microsoft/devicescript-esp32, the part of DeviceScript that is specific
  to the ESP32 family: all C sources under src/main, with theorems about what they do.

  \<^bold>\<open>The program.\<close> The DeviceScript virtual machine and the Jacdac protocol stack (jacdac-c, a git
  submodule that is empty here) call the functions of src/main and are called back by them. The
  main loop (main.c) runs in one task and is woken by events; jobs that interrupts leave behind run
  in the timer task through a job queue (worker.c, the end of hw-esp32.c); a third task serves the
  network connection (sock.c). Interrupts drive the single-wire Jacdac bus (hw-esp32.c), the USB
  stream (usb.c), SPI transfers (spi.c) and LED strips (ledstrip.c).

  \<^bold>\<open>The theories and the files they model.\<close>

  \<^item> Prelude: the C integer types, control that does not come back, byte memory, rules to walk
    through long function bodies, and the locale \<open>safety\<close> (an invariant of a step relation).
  \<^item> Externals: everything outside src/main as calls with answers; the FreeRTOS queue contract.
  \<^item> Platform (platform.c): device identifier, heap, busy wait, interrupt lock, reset.
  \<^item> Utils (utils.c): connection-string properties and the HMAC-SHA256 signature.
  \<^item> Worker (worker.c): job queues; locale \<open>job_queue\<close>, interpreted for both ways to post.
  \<^item> JdTimers, JdUart, JdBus, JdCalls, JdTransfer, JdLine, JdCallbacks (hw-esp32.c): timers and
    deferred callbacks, the half-duplex UART driver, its state machine (locale \<open>uart_relation\<close>: what
    every operation keeps, every run keeps; locale \<open>uart_calls\<close>: what every call and update keeps,
    every operation keeps) and invariant, whole frames sent and received, the abstract machine of
    the line that the driver refines, and that no deferred callback is stuck.
  \<^item> Sock, SockConn (sock.c): the TCP and TLS client and its connection attempt. SockMachine: its state
    machine and the locales that lift a relation to it (\<open>sock_polls\<close> over the poll, \<open>sock_relation\<close> over
    runs with re-entrant callbacks, \<open>sock_writes\<close> over the loops of writing, \<open>sock_plain\<close> and \<open>sock_calls\<close>
    over all calls, \<open>sock_fields\<close> and \<open>sock_all\<close> where updates of the fields keep it too).
    SockTransfer: no leak of descriptors and TLS objects, outcome of opening and writing.
    SockQueues: the two queues hold items of their types. SockEvents: the client refines an
    abstract connection and reports every lost one. SockStream: data reaches the wire in the order
    it was accepted. SockRace: an open command interrupted in its wait for the TLS handshake by a close.
  \<^item> Drivers, Spi, LedStrip (spi.c, ledstrip.c, led_strip_encoder.c): two drivers that meet one
    contract, the locale \<open>busy_driver\<close> (one transfer at a time, one callback). SpiBus, StripBus: each
    driver with its interrupt, its jobs and the other users of the job queue as a state machine in
    which every accepted transfer is reported once, in order, and no assertion fails.
  \<^item> Pwm (led.c): LED PWM timers, duty, and the pin functions.
  \<^item> Logging (dmesg.c): panic hooks and the logging UART.
  \<^item> Flash (flash.c): the storage partition and its address translation.
  \<^item> MainTimer, AppMain (main.c): wake-ups and the tick timer; start-up and one turn of the loop. MainTurn:
    the parts of a turn, and the locales \<open>main_body\<close> and \<open>main_relation\<close> that lift a relation from the
    parts to turns. Boot: what \<open>app_main\<close> leaves as it was. MainLoop: any law about the loop's own state
    that its calls keep is kept by turns (locale \<open>loop_law\<close>), and two such laws: the tick timer
    runs, and the event queue holds exactly the pending wake-up.
  \<^item> Usb (usb.c): the USB byte stream in its three implementations. UsbCalls: the locales
    \<open>usb_loops\<close> and \<open>usb_calls\<close> that lift a relation to its loops and to its steps.
  \<^item> WakeFlag: the protocol of a flag and a queued wake-up that main.c (\<open>loop_pending\<close>) and usb.c
    (\<open>fq_scheduled\<close>) share, statement by statement, with preemption between any two of them; its locale
    \<open>wake_flag\<close> shows that no request is lost. WakeRace: the interpretations for \<open>post_loop\<close> and
    \<open>jd_usb_pull_ready\<close>, and that the statements make up the functions of the other theories.
  \<^item> Firmware: main loop, bus, timers, TCP client, USB stream and jacdac-c as one state machine, any of
    them nested in the callbacks of the others. The locale \<open>firmware_relation\<close> joins the contracts
    \<open>main_relation\<close>, \<open>uart_relation\<close> and \<open>sock_relation\<close>; its four interpretations give the invariants of
    the parts in every state that the whole reaches from \<open>app_main\<close>.
  \<^item> SdCard (sdcard.c): bit-banged SPI and the start of the SD card.
  \<^item> Wifi (wifi_impl.c), I2c (i2c.c), Adc (adc.c).

  \<^bold>\<open>State.\<close> The static variables of each file are a record. The records of the files that the main
  program composes form one chain of extensions (world, platform, workers, jacdac, sock, logging,
  flash, main state, usb, sdcard), so that \<open>loop_handler\<close> and \<open>app_main\<close> run the definitions of the
  other files on one state; \<open>spi\<close> and \<open>ledstrip\<close> extend \<open>jacdac\<close>, and \<open>pwm\<close>, \<open>i2c\<close> and \<open>adc\<close> extend
  \<open>platform\<close>. Pointers and handles are 32-bit words, 0 being NULL.

  \<^bold>\<open>The environment.\<close> FreeRTOS, ESP-IDF, hardware registers, lwIP, mbedTLS and jacdac-c have no
  definition here. A call to them is a constructor of \<open>call\<close>; its answer comes from the parameter
  \<open>env\<close>, an arbitrary function of the call and of the whole history, and the call is recorded in the
  field \<open>io\<close>. Where a property relies on documented behaviour (a queue keeps its items in order, a
  clock advances, an allocator returns blocks that are not in use) this is a named predicate on
  \<open>env\<close> and a hypothesis, and the witness of the property gives a concrete \<open>env\<close> that satisfies it.
  Callbacks into jacdac-c and queued function pointers are parameters that transform the state; in
  the state machines they may call every entry point again.

  \<^bold>\<open>Results.\<close> \<open>None\<close> is control that does not come back: a failed assertion, a panic, an aborting
  \<open>ESP_ERROR_CHECK\<close>, a NULL dereference, or a loop that never ends. Error codes stay integers.
  Loops that end by a bound are structural or have a measure; loops that wait for the outside world
  are \<open>partial_function (option)\<close>, and that they end is a theorem (\<open>target_wait_us_waits\<close>,
  \<open>worker_do_work_fifo\<close>, \<open>fill_queue_drains\<close>, \<open>uart_start_tx_outcome\<close>, \<open>process_write_outcome\<close>,
  \<open>uart_log_loop_writes\<close>). No definition uses fuel except \<open>wait_line_high\<close>, whose count of 50000 is the
  counter of the C loop, and the property-only iteration \<open>encode_run\<close>.

  \<^bold>\<open>What the groups of theorems show.\<close> The refinement of an abstract line by the interrupt handler of
  the bus, from which the fate of a whole frame follows, and of an abstract connection by the
  network client, with its data kept in order from the caller to the wire. Invariants of state
  machines over every entry point (bus, sockets, strips, PWM, USB, main loop), and those of bus, sockets, main loop and USB together for
  the whole firmware; the outcome of each operation on every branch; that
  nothing is leaked on error paths (HMAC context, sockets, encoders, SD card, scan results, I2C
  links); round trips and reference definitions (bit-banged SPI, property bags, HMAC); and the
  behaviour of the defects that the model exposed (a lost SPI completion, a lost USB refill, a refused
  event that stops the main loop, a TLS write that is abandoned, a close during a TLS handshake, a
  frame end that is mistaken for the next one, a 32-byte SSID).

  \<^bold>\<open>Concurrency.\<close> An operation runs to completion; interleavings are sequences of whole operations,
  interrupts and callbacks. There are two exceptions, where tasks share state without a lock: the
  wake-up flags (WakeRace), where callers and reader preempt each other between any two statements,
  and the wait of the network task for a TLS handshake (SockRace). Preemption elsewhere, and the
  memory model of the two cores, are not modelled.

  The drivers whose state is not part of the chain above (SPI, LED strip, PWM, I2C, ADC) have state
  machines of their own and do not appear in \<open>fw_step\<close>.

  \<^bold>\<open>Not modelled.\<close> Diagnostic output (\<open>DMESG\<close>, \<open>LOG\<close>, \<open>ESP_LOGx\<close>), empty functions, the unused headers
  led_strip.h and jdprotocol.h, the build files, the scripts in other languages and the board
  descriptions.
\<close>

end
